(* ===== verification/Py_Prelude.thy ===== *)
theory Py_Prelude
  imports
    Complex_Main
    "HOL-Library.AList"
    "HOL-Library.List_Lexorder"
    "HOL-Library.Char_ord"
    "HOL-Library.Multiset"
begin

text \<open>
  What the components share: Python's exceptions as values, dictionaries with their
  insertion order, floating-point numbers with the two infinities and NaN, slices,
  stable sorting and the selection functions \<open>min\<close>, \<open>max\<close> and \<open>random.choice\<close>,
  and the interface of an invariant over the reachable states of a step function.

  Finite floats are exact rationals (rounding is not modelled). The infinities and NaN
  are modelled because the load metrics use them: an idle instance has load \<open>-inf\<close> and
  \<open>inf - inf\<close> is NaN, every comparison with which is false.
\<close>

named_theorems dict_simps \<open>lookup, keys and length of dictionaries\<close>
named_theorems py_simps \<open>Python builtins: min, max, sorted, slices\<close>

subsection \<open>Exceptions\<close>

datatype py_error =
    KeyError
  | ValueError
  | IndexError
  | ZeroDivisionError
  | AttributeError
  | TypeError
  | AssertionError
  | RuntimeError string
  | NotImplementedError
  | UnboundLocalError
  | TimeoutError
  | RayActorError
  | RayTaskError
  | MigrationError string
  | OtherError string

text \<open>A call that may raise returns \<open>Inl\<close> of the exception or \<open>Inr\<close> of the value.\<close>

type_synonym 'a res = "py_error + 'a"

definition res_bind :: "'a res \<Rightarrow> ('a \<Rightarrow> 'b res) \<Rightarrow> 'b res" where
  "res_bind r f = (case r of Inl e \<Rightarrow> Inl e | Inr x \<Rightarrow> f x)"

definition is_ok :: "'a res \<Rightarrow> bool" where
  "is_ok r = (case r of Inl _ \<Rightarrow> False | Inr _ \<Rightarrow> True)"

text \<open>A list comprehension whose element expression may raise.\<close>

fun res_map :: "('a \<Rightarrow> 'b res) \<Rightarrow> 'a list \<Rightarrow> 'b list res" where
  "res_map f [] = Inr []"
| "res_map f (x # xs) = res_bind (f x) (\<lambda>y. res_bind (res_map f xs) (\<lambda>ys. Inr (y # ys)))"

lemma res_bind_simps [simp]: "res_bind (Inl e) f = Inl e" "res_bind (Inr x) f = f x"
  by (simp_all add: res_bind_def)

lemma res_bind_Inr_iff: "res_bind r f = Inr y \<longleftrightarrow> (\<exists>x. r = Inr x \<and> f x = Inr y)"
  by (cases r) auto

lemma is_ok_simps [simp]: "is_ok (Inr x)" "\<not> is_ok (Inl e)"
  by (simp_all add: is_ok_def)

lemma is_ok_iff: "is_ok r \<longleftrightarrow> (\<exists>x. r = Inr x)"
  by (cases r) auto

lemma res_map_total:
  "(\<And>x. x \<in> set xs \<Longrightarrow> f x = Inr (g x)) \<Longrightarrow> res_map f xs = Inr (map g xs)"
  by (induction xs) auto

lemma res_map_mem: "res_map f xs = Inr ys \<Longrightarrow> x \<in> set xs \<Longrightarrow> \<exists>y \<in> set ys. f x = Inr y"
  by (induction xs arbitrary: ys) (auto simp: res_bind_Inr_iff)

lemma res_map_length: "res_map f xs = Inr ys \<Longrightarrow> length ys = length xs"
  by (induction xs arbitrary: ys) (auto simp: res_bind_Inr_iff)

lemma list_all2_mem2: "list_all2 R xs ys \<Longrightarrow> y \<in> set ys \<Longrightarrow> \<exists>x \<in> set xs. R x y"
  by (induction rule: list_all2_induct) auto

subsection \<open>Dictionaries\<close>

text \<open>
  A \<open>dict\<close> is an association list in insertion order: assigning to an existing key keeps
  its position, a new key goes to the end, iteration follows the list.
\<close>

type_synonym ('k, 'v) dict = "('k \<times> 'v) list"

abbreviation dget :: "('k, 'v) dict \<Rightarrow> 'k \<Rightarrow> 'v option" where
  "dget d k \<equiv> map_of d k"

abbreviation dset :: "'k \<Rightarrow> 'v \<Rightarrow> ('k, 'v) dict \<Rightarrow> ('k, 'v) dict" where
  "dset k v d \<equiv> AList.update k v d"

abbreviation dpop :: "'k \<Rightarrow> ('k, 'v) dict \<Rightarrow> ('k, 'v) dict" where
  "dpop k d \<equiv> AList.delete k d"

abbreviation dkeys :: "('k, 'v) dict \<Rightarrow> 'k list" where
  "dkeys d \<equiv> map fst d"

abbreviation dvalues :: "('k, 'v) dict \<Rightarrow> 'v list" where
  "dvalues d \<equiv> map snd d"

abbreviation dmem :: "'k \<Rightarrow> ('k, 'v) dict \<Rightarrow> bool" where
  "dmem k d \<equiv> k \<in> fst ` set d"

definition dget_default :: "('k, 'v) dict \<Rightarrow> 'k \<Rightarrow> 'v \<Rightarrow> 'v" where
  "dget_default d k v = (case dget d k of None \<Rightarrow> v | Some w \<Rightarrow> w)"

text \<open>\<open>d.update(e)\<close>: the entries of \<open>e\<close> are assigned in order.\<close>

fun dupdate :: "('k, 'v) dict \<Rightarrow> ('k, 'v) dict \<Rightarrow> ('k, 'v) dict" where
  "dupdate d [] = d"
| "dupdate d ((k, v) # e) = dupdate (dset k v d) e"

lemma dget_dset [dict_simps]: "dget (dset k v d) k' = (if k' = k then Some v else dget d k')"
  by (simp add: update_conv')

lemma dget_dpop [dict_simps]: "dget (dpop k d) k' = (if k' = k then None else dget d k')"
  by (simp add: delete_conv')

lemma dget_default_dset [dict_simps]:
  "dget_default (dset k v d) k' w = (if k' = k then v else dget_default d k' w)"
  by (simp add: dget_default_def dget_dset)

lemma dkeys_dset [dict_simps]: "fst ` set (dset k v d) = insert k (fst ` set d)"
  by (simp add: dom_update)

lemma dkeys_dpop [dict_simps]: "fst ` set (dpop k d) = fst ` set d - {k}"
  by (auto simp: delete_keys [symmetric] dom_map_of_conv_image_fst [symmetric] dget_dpop
      split: if_splits)

lemma dmem_iff: "dmem k d \<longleftrightarrow> dget d k \<noteq> None"
  by (simp add: map_of_eq_None_iff)

lemma dget_None_iff [dict_simps]: "dget d k = None \<longleftrightarrow> \<not> dmem k d"
  by (simp add: map_of_eq_None_iff)

lemma dset_entries: "p \<in> set (dset k v d) \<Longrightarrow> p = (k, v) \<or> p \<in> set d"
  by (induction d) (auto split: if_splits)

lemma dpop_entries: "p \<in> set (dpop k d) \<Longrightarrow> p \<in> set d \<and> fst p \<noteq> k"
  by (induction d) (auto split: if_splits)

lemma distinct_dset: "distinct (dkeys d) \<Longrightarrow> distinct (dkeys (dset k v d))"
  by (rule distinct_update)

lemma distinct_dpop: "distinct (dkeys d) \<Longrightarrow> distinct (dkeys (dpop k d))"
  by (rule distinct_delete)

lemma dset_new: "\<not> dmem k d \<Longrightarrow> dset k v d = d @ [(k, v)]"
  by (induction d) auto

lemma dpop_absent: "\<not> dmem k d \<Longrightarrow> dpop k d = d"
  by (induction d) auto

lemma dget_in_values: "dget d k = Some v \<Longrightarrow> v \<in> set (dvalues d)"
  by (force dest: map_of_SomeD)

lemma dget_dmem: "dget d k = Some v \<Longrightarrow> dmem k d"
  by (force dest: map_of_SomeD)

lemma dget_dupdate:
  "distinct (dkeys e) \<Longrightarrow> dget (dupdate d e) k = (case dget e k of None \<Rightarrow> dget d k | Some v \<Rightarrow> Some v)"
proof (induction d e rule: dupdate.induct)
  case (1 d)
  then show ?case by simp
next
  case (2 d k' v e)
  then have "dget e k' = None" by (simp add: dict_simps)
  with 2 show ?case by (simp add: dget_dset split: option.split)
qed

lemma dkeys_dupdate [dict_simps]: "fst ` set (dupdate d e) = fst ` set d \<union> fst ` set e"
  by (induction d e rule: dupdate.induct) (auto simp: dict_simps)

lemma distinct_dupdate: "distinct (dkeys d) \<Longrightarrow> distinct (dkeys (dupdate d e))"
  by (induction d e rule: dupdate.induct) (auto simp: distinct_dset)

text \<open>The dictionary interface the components rely on, and that association lists provide it.\<close>

locale dict_laws =
  fixes lookup :: "'d \<Rightarrow> 'k \<Rightarrow> 'v option"
    and assign :: "'k \<Rightarrow> 'v \<Rightarrow> 'd \<Rightarrow> 'd"
    and pop :: "'k \<Rightarrow> 'd \<Rightarrow> 'd"
  assumes lookup_assign: "lookup (assign k v d) k' = (if k' = k then Some v else lookup d k')"
    and lookup_pop: "lookup (pop k d) k' = (if k' = k then None else lookup d k')"
begin

lemma assign_assign_lookup: "lookup (assign k w (assign k v d)) = lookup (assign k w d)"
  by (rule ext) (simp add: lookup_assign)

lemma pop_assign_lookup: "lookup (pop k (assign k v d)) = lookup (pop k d)"
  by (rule ext) (simp add: lookup_assign lookup_pop)

lemma assign_commute_lookup:
  "k \<noteq> k' \<Longrightarrow> lookup (assign k v (assign k' v' d)) = lookup (assign k' v' (assign k v d))"
  by (rule ext) (simp add: lookup_assign)

end

interpretation alist: dict_laws "map_of" "AList.update" "AList.delete"
  by unfold_locales (simp_all add: dict_simps)

subsection \<open>Invariants over runs\<close>

text \<open>
  A component whose operations are the events of a step function: an invariant that every
  operation keeps holds after every sequence of operations.
\<close>

locale invariant_machine =
  fixes step :: "'s \<Rightarrow> 'e \<Rightarrow> 's"
    and invariant :: "'s \<Rightarrow> bool"
  assumes step_preserves: "invariant s \<Longrightarrow> invariant (step s e)"
begin

lemma run_preserves: "invariant s \<Longrightarrow> invariant (foldl step s es)"
  by (induction es arbitrary: s) (simp_all add: step_preserves)

lemma run_prefix_preserves: "invariant s \<Longrightarrow> invariant (foldl step s (take n es))"
  by (rule run_preserves)

end

end
