(* ===== verification/Py_Numbers.thy ===== *)
theory Py_Numbers
  imports Py_Prelude
begin

text \<open>
  Python floats with infinities and NaN, and the builtins that select and order by them:
  \<open>min\<close>, \<open>max\<close>, \<open>sorted\<close>, slices and \<open>random.choice\<close>.
\<close>

subsection \<open>Floats\<close>

datatype pynum = NaN | MInf | Fin rat | PInf

fun pn_add :: "pynum \<Rightarrow> pynum \<Rightarrow> pynum" where
  "pn_add (Fin a) (Fin b) = Fin (a + b)"
| "pn_add NaN _ = NaN"
| "pn_add _ NaN = NaN"
| "pn_add PInf MInf = NaN"
| "pn_add MInf PInf = NaN"
| "pn_add PInf _ = PInf"
| "pn_add _ PInf = PInf"
| "pn_add MInf _ = MInf"
| "pn_add _ MInf = MInf"

fun pn_neg :: "pynum \<Rightarrow> pynum" where
  "pn_neg NaN = NaN"
| "pn_neg MInf = PInf"
| "pn_neg PInf = MInf"
| "pn_neg (Fin a) = Fin (- a)"

text \<open>The sign of a number that is not NaN, to multiply and divide by infinities.\<close>

fun pn_sign :: "pynum \<Rightarrow> rat" where
  "pn_sign NaN = 0"
| "pn_sign MInf = - 1"
| "pn_sign PInf = 1"
| "pn_sign (Fin a) = sgn a"

definition pn_inf :: "rat \<Rightarrow> pynum" where
  "pn_inf s = (if s = 0 then NaN else if s < 0 then MInf else PInf)"

fun pn_mul :: "pynum \<Rightarrow> pynum \<Rightarrow> pynum" where
  "pn_mul (Fin a) (Fin b) = Fin (a * b)"
| "pn_mul a b = (if a = NaN \<or> b = NaN then NaN else pn_inf (pn_sign a * pn_sign b))"

text \<open>Division by a number that is not zero; \<open>py_div\<close> raises on zero.\<close>

fun pn_quot :: "pynum \<Rightarrow> pynum \<Rightarrow> pynum" where
  "pn_quot (Fin a) (Fin b) = Fin (a / b)"
| "pn_quot NaN _ = NaN"
| "pn_quot _ NaN = NaN"
| "pn_quot (Fin a) _ = Fin 0"
| "pn_quot a (Fin b) = pn_inf (pn_sign a * (if b < 0 then - 1 else 1))"
| "pn_quot _ _ = NaN"

definition py_div :: "pynum \<Rightarrow> pynum \<Rightarrow> pynum res" where
  "py_div a b = (if b = Fin 0 then Inl ZeroDivisionError else Inr (pn_quot a b))"

fun pn_less :: "pynum \<Rightarrow> pynum \<Rightarrow> bool" where
  "pn_less (Fin a) (Fin b) = (a < b)"
| "pn_less MInf (Fin _) = True"
| "pn_less MInf PInf = True"
| "pn_less (Fin _) PInf = True"
| "pn_less _ _ = False"

instantiation pynum :: "{zero, one, plus, minus, uminus, times, ord}"
begin

definition zero_pynum :: pynum where "zero_pynum = Fin 0"
definition one_pynum :: pynum where "one_pynum = Fin 1"
definition plus_pynum :: "pynum \<Rightarrow> pynum \<Rightarrow> pynum" where "plus_pynum = pn_add"
definition uminus_pynum :: "pynum \<Rightarrow> pynum" where "uminus_pynum = pn_neg"
definition minus_pynum :: "pynum \<Rightarrow> pynum \<Rightarrow> pynum" where
  "minus_pynum a b = pn_add a (pn_neg b)"
definition times_pynum :: "pynum \<Rightarrow> pynum \<Rightarrow> pynum" where "times_pynum = pn_mul"
definition less_pynum :: "pynum \<Rightarrow> pynum \<Rightarrow> bool" where "less_pynum = pn_less"
definition less_eq_pynum :: "pynum \<Rightarrow> pynum \<Rightarrow> bool" where
  "less_eq_pynum a b = (pn_less a b \<or> a = b \<and> a \<noteq> NaN)"

instance ..

end

lemmas pynum_defs = zero_pynum_def one_pynum_def plus_pynum_def uminus_pynum_def
  minus_pynum_def times_pynum_def less_pynum_def less_eq_pynum_def

abbreviation of_py_int :: "int \<Rightarrow> pynum" where
  "of_py_int n \<equiv> Fin (of_int n)"

abbreviation of_py_nat :: "nat \<Rightarrow> pynum" where
  "of_py_nat n \<equiv> Fin (of_nat n)"

text \<open>\<open>numpy.exp\<close> on finite numbers is a parameter; its values at the infinities are fixed.\<close>

fun pn_exp :: "(rat \<Rightarrow> rat) \<Rightarrow> pynum \<Rightarrow> pynum" where
  "pn_exp ex NaN = NaN"
| "pn_exp ex MInf = Fin 0"
| "pn_exp ex PInf = PInf"
| "pn_exp ex (Fin r) = Fin (ex r)"

lemma pn_fin_simps [simp]:
  "Fin a + Fin b = Fin (a + b)"
  "Fin a - Fin b = Fin (a - b)"
  "Fin a * Fin b = Fin (a * b)"
  "- Fin a = Fin (- a)"
  "Fin a < Fin b \<longleftrightarrow> a < b"
  "Fin a \<le> Fin b \<longleftrightarrow> a \<le> b"
  by (auto simp: pynum_defs)

lemma pn_inf_simps [simp]:
  "MInf < Fin a" "MInf < PInf" "Fin a < PInf" "MInf \<le> Fin a" "MInf \<le> PInf" "Fin a \<le> PInf"
  "\<not> Fin a < MInf" "\<not> PInf < x" "\<not> x < MInf" "\<not> PInf \<le> Fin a" "\<not> Fin a \<le> MInf" "\<not> PInf \<le> MInf"
  "\<not> NaN < x" "\<not> x < NaN" "\<not> NaN \<le> x" "\<not> x \<le> NaN" "MInf \<le> MInf" "PInf \<le> PInf"
  "- PInf = MInf" "- MInf = PInf" "- NaN = NaN"
  by (cases x; simp add: pynum_defs)+

lemma pn_inf_arith [simp]:
  "PInf + Fin a = PInf" "Fin a + PInf = PInf" "MInf + Fin a = MInf" "Fin a + MInf = MInf"
  "PInf - Fin a = PInf" "MInf - Fin a = MInf" "Fin a - PInf = MInf" "Fin a - MInf = PInf"
  "PInf - PInf = NaN" "NaN + x = NaN" "x + NaN = NaN" "NaN - x = NaN"
  "PInf + PInf = PInf" "MInf + MInf = MInf" "PInf - MInf = PInf" "MInf - PInf = MInf"
  by (cases x; simp add: pynum_defs)+

lemma pn_less_irrefl [simp]: "\<not> (x :: pynum) < x"
  by (cases x) simp_all

lemma pn_less_trans: "(x :: pynum) < y \<Longrightarrow> y < z \<Longrightarrow> x < z"
  by (cases x; cases y; cases z) auto

lemma pn_le_trans: "(x :: pynum) \<le> y \<Longrightarrow> y \<le> z \<Longrightarrow> x \<le> z"
  by (cases x; cases y; cases z) auto

lemma pn_less_le_trans: "(x :: pynum) < y \<Longrightarrow> y \<le> z \<Longrightarrow> x < z"
  by (cases x; cases y; cases z) auto

lemma pn_le_less_trans: "(x :: pynum) \<le> y \<Longrightarrow> y < z \<Longrightarrow> x < z"
  by (cases x; cases y; cases z) auto

lemma pn_less_imp_le: "(x :: pynum) < y \<Longrightarrow> x \<le> y"
  by (cases x; cases y) auto

lemma pn_le_not_less: "(x :: pynum) \<le> y \<Longrightarrow> \<not> y < x"
  by (cases x; cases y) auto

lemma pn_le_refl: "x \<le> x \<longleftrightarrow> x \<noteq> NaN"
  by (cases x) auto

lemma pn_not_less: "x \<noteq> NaN \<Longrightarrow> y \<noteq> NaN \<Longrightarrow> \<not> x < y \<longleftrightarrow> y \<le> x"
  by (cases x; cases y) auto

lemma pn_le_antisym: "(x :: pynum) \<le> y \<Longrightarrow> y \<le> x \<Longrightarrow> x = y"
  by (cases x; cases y) auto

lemma pn_less_not_nan: "(x :: pynum) < y \<Longrightarrow> x \<noteq> NaN \<and> y \<noteq> NaN"
  by (cases x; cases y) auto

text \<open>Python's two-argument \<open>max\<close> and \<open>min\<close> keep the first argument on ties.\<close>

definition py_max :: "pynum \<Rightarrow> pynum \<Rightarrow> pynum" where
  "py_max a b = (if b > a then b else a)"

definition py_min :: "pynum \<Rightarrow> pynum \<Rightarrow> pynum" where
  "py_min a b = (if b < a then b else a)"

subsection \<open>Selection and sorting\<close>

text \<open>
  \<open>max(xs, key=...)\<close> returns the first element whose key no later element exceeds;
  \<open>lt\<close> is the order on the elements' keys.
\<close>

fun py_best :: "('a \<Rightarrow> 'a \<Rightarrow> bool) \<Rightarrow> 'a \<Rightarrow> 'a list \<Rightarrow> 'a" where
  "py_best lt b [] = b"
| "py_best lt b (x # xs) = (if lt b x then py_best lt x xs else py_best lt b xs)"

definition py_max_by :: "('a \<Rightarrow> 'b :: ord) \<Rightarrow> 'a list \<Rightarrow> 'a res" where
  "py_max_by key xs = (case xs of [] \<Rightarrow> Inl ValueError | y # ys \<Rightarrow> Inr (py_best (\<lambda>b x. key b < key x) y ys))"

definition py_min_by :: "('a \<Rightarrow> 'b :: ord) \<Rightarrow> 'a list \<Rightarrow> 'a res" where
  "py_min_by key xs = (case xs of [] \<Rightarrow> Inl ValueError | y # ys \<Rightarrow> Inr (py_best (\<lambda>b x. key x < key b) y ys))"

fun insert_by :: "('a \<Rightarrow> 'a \<Rightarrow> bool) \<Rightarrow> 'a \<Rightarrow> 'a list \<Rightarrow> 'a list" where
  "insert_by lt x [] = [x]"
| "insert_by lt x (y # ys) = (if lt y x then y # insert_by lt x ys else x # y # ys)"

text \<open>The stable sort by the strict order \<open>lt\<close>.\<close>

definition stable_sort :: "('a \<Rightarrow> 'a \<Rightarrow> bool) \<Rightarrow> 'a list \<Rightarrow> 'a list" where
  "stable_sort lt xs = foldr (insert_by lt) xs []"

definition py_sorted :: "('a \<Rightarrow> 'b :: ord) \<Rightarrow> 'a list \<Rightarrow> 'a list" where
  "py_sorted key = stable_sort (\<lambda>a b. key a < key b)"

text \<open>\<open>sorted(..., reverse=True)\<close> keeps the order of equal elements.\<close>

definition py_sorted_desc :: "('a \<Rightarrow> 'b :: ord) \<Rightarrow> 'a list \<Rightarrow> 'a list" where
  "py_sorted_desc key = stable_sort (\<lambda>a b. key b < key a)"

text \<open>\<open>xs[:k]\<close>, where a negative \<open>k\<close> counts from the end.\<close>

definition py_take :: "int \<Rightarrow> 'a list \<Rightarrow> 'a list" where
  "py_take k xs = (if k \<ge> 0 then take (nat k) xs else take (length xs - nat (- k)) xs)"

text \<open>\<open>xs[k:]\<close>: a negative \<open>k\<close> keeps the last \<open>-k\<close> elements, and \<open>-0\<close> is \<open>0\<close>.\<close>

definition py_drop :: "int \<Rightarrow> 'a list \<Rightarrow> 'a list" where
  "py_drop k xs = (if k \<ge> 0 then drop (nat k) xs else drop (length xs - nat (- k)) xs)"

text \<open>\<open>random.choice\<close> draws any element; the draw is the argument \<open>rnd\<close>.\<close>

definition py_choice :: "nat \<Rightarrow> 'a list \<Rightarrow> 'a res" where
  "py_choice rnd xs = (if xs = [] then Inl IndexError else Inr (xs ! (rnd mod length xs)))"

lemma py_best_in: "py_best lt b xs \<in> set (b # xs)"
  by (induction xs arbitrary: b) auto

lemma py_best_upper:
  assumes "\<And>x y z. lt x y \<Longrightarrow> lt y z \<Longrightarrow> lt x z" and "\<And>x. \<not> lt x x"
    and "\<And>x y z. \<not> lt x y \<Longrightarrow> \<not> lt y z \<Longrightarrow> x \<in> set (b # xs) \<Longrightarrow> y \<in> set (b # xs)
      \<Longrightarrow> z \<in> set (b # xs) \<Longrightarrow> \<not> lt x z"
    and "x \<in> set (b # xs)"
  shows "\<not> lt (py_best lt b xs) x"
  using assms(3,4)
proof (induction xs arbitrary: b x)
  case Nil
  then show ?case using assms(2) by simp
next
  case (Cons a xs)
  let ?m = "if lt b a then a else b"
  have trans: "\<not> lt u v \<Longrightarrow> \<not> lt v w \<Longrightarrow> u \<in> set (?m # xs) \<Longrightarrow> v \<in> set (?m # xs)
    \<Longrightarrow> w \<in> set (?m # xs) \<Longrightarrow> \<not> lt u w" for u v w
    using Cons.prems(1)[of u v w] by (auto split: if_splits)
  have best: "\<not> lt (py_best lt ?m xs) y" if "y \<in> set (?m # xs)" for y
  proof (rule Cons.IH[OF _ that])
    fix u v w
    assume "\<not> lt u v" "\<not> lt v w" "u \<in> set (?m # xs)" "v \<in> set (?m # xs)" "w \<in> set (?m # xs)"
    then show "\<not> lt u w" by (rule trans)
  qed
  have mem: "py_best lt ?m xs \<in> set (b # a # xs)"
    using py_best_in[of lt ?m xs] by (auto split: if_splits)
  have m: "\<not> lt ?m b" "\<not> lt ?m a" using assms(1,2) by (auto split: if_splits)
  consider "x \<in> set (?m # xs)" | "x = a \<or> x = b" using Cons.prems(2) by auto
  then have "\<not> lt (py_best lt ?m xs) x"
  proof cases
    case 1
    then show ?thesis by (rule best)
  next
    case 2
    with m have "\<not> lt ?m x" by auto
    with best[of ?m] show ?thesis
      using Cons.prems(1)[of "py_best lt ?m xs" ?m x] mem 2 by (auto split: if_splits)
  qed
  then show ?case by (auto split: if_splits)
qed

lemma py_max_by_in: "py_max_by key xs = Inr x \<Longrightarrow> x \<in> set xs"
  using py_best_in[of _ "hd xs" "tl xs"] by (cases xs) (auto simp: py_max_by_def)

lemma py_min_by_in: "py_min_by key xs = Inr x \<Longrightarrow> x \<in> set xs"
  using py_best_in[of _ "hd xs" "tl xs"] by (cases xs) (auto simp: py_min_by_def)

lemma py_max_by_ok: "is_ok (py_max_by key xs) \<longleftrightarrow> xs \<noteq> []"
  by (cases xs) (auto simp: py_max_by_def)

lemma py_min_by_ok: "is_ok (py_min_by key xs) \<longleftrightarrow> xs \<noteq> []"
  by (cases xs) (auto simp: py_min_by_def)

lemma py_max_by_upper:
  fixes key :: "'a \<Rightarrow> 'b :: linorder"
  assumes "py_max_by key xs = Inr m" and "x \<in> set xs"
  shows "key x \<le> key m"
proof -
  obtain y ys where xs: "xs = y # ys" using assms(2) by (cases xs) auto
  have "\<not> key (py_best (\<lambda>b x. key b < key x) y ys) < key x"
    by (rule py_best_upper) (use assms(2) xs in auto)
  with assms(1) xs show ?thesis by (simp add: py_max_by_def)
qed

lemma py_min_by_lower:
  fixes key :: "'a \<Rightarrow> 'b :: linorder"
  assumes "py_min_by key xs = Inr m" and "x \<in> set xs"
  shows "key m \<le> key x"
proof -
  obtain y ys where xs: "xs = y # ys" using assms(2) by (cases xs) auto
  have "\<not> key x < key (py_best (\<lambda>b x. key x < key b) y ys)"
    by (rule py_best_upper[where lt = "\<lambda>b x. key x < key b"]) (use assms(2) xs in auto)
  with assms(1) xs show ?thesis by (simp add: py_min_by_def)
qed

lemma py_min_by_pynum_lower:
  fixes key :: "'a \<Rightarrow> pynum"
  assumes "py_min_by key xs = Inr m" and "x \<in> set xs" and "\<And>y. y \<in> set xs \<Longrightarrow> key y \<noteq> NaN"
  shows "key m \<le> key x"
proof -
  obtain y ys where xs: "xs = y # ys" using assms(2) by (cases xs) auto
  have "\<not> key x < key (py_best (\<lambda>b x. key x < key b) y ys)"
  proof (rule py_best_upper[where lt = "\<lambda>b x. key x < key b"])
    fix u v w
    assume "\<not> key v < key u" "\<not> key w < key v" "u \<in> set (y # ys)" "v \<in> set (y # ys)" "w \<in> set (y # ys)"
    with assms(3) xs show "\<not> key w < key u"
      by (metis pn_less_le_trans pn_not_less)
  qed (use assms(2) xs in \<open>auto dest: pn_less_trans\<close>)
  with assms xs py_min_by_in[OF assms(1)] show ?thesis
    by (simp add: py_min_by_def pn_not_less)
qed

lemma insert_by_mset [simp]: "mset (insert_by lt x xs) = add_mset x (mset xs)"
  by (induction xs) auto

lemma stable_sort_mset [simp]: "mset (stable_sort lt xs) = mset xs"
  by (induction xs) (auto simp: stable_sort_def)

lemma stable_sort_set [simp]: "set (stable_sort lt xs) = set xs"
  by (metis set_mset_mset stable_sort_mset)

lemma stable_sort_length [simp]: "length (stable_sort lt xs) = length xs"
  by (metis size_mset stable_sort_mset)

lemma py_sorted_simps [simp, py_simps]:
  "mset (py_sorted key xs) = mset xs" "set (py_sorted key xs) = set xs"
  "length (py_sorted key xs) = length xs"
  "mset (py_sorted_desc key xs) = mset xs" "set (py_sorted_desc key xs) = set xs"
  "length (py_sorted_desc key xs) = length xs"
  by (simp_all add: py_sorted_def py_sorted_desc_def)

lemma py_sorted_Nil_iff [simp, py_simps]:
  "py_sorted key xs = [] \<longleftrightarrow> xs = []" "py_sorted_desc key xs = [] \<longleftrightarrow> xs = []"
  by (metis length_0_conv py_sorted_simps(3), metis length_0_conv py_sorted_simps(6))

lemma filter_Cons_subset: "filter P xs = y # ys \<Longrightarrow> set (y # ys) \<subseteq> set xs"
  by (metis filter_is_subset)

lemma distinct_mset_cong: "mset xs = mset ys \<Longrightarrow> distinct xs = distinct ys"
  by (metis mset_eq_imp_distinct_iff)

lemma insert_by_sorted:
  assumes "sorted_wrt (\<lambda>a b. \<not> lt b a) xs"
    and "\<And>a b c. a \<in> set (x # xs) \<Longrightarrow> b \<in> set (x # xs) \<Longrightarrow> c \<in> set (x # xs)
      \<Longrightarrow> \<not> lt b a \<Longrightarrow> \<not> lt c b \<Longrightarrow> \<not> lt c a"
    and "\<And>a b. lt a b \<Longrightarrow> \<not> lt b a"
  shows "sorted_wrt (\<lambda>a b. \<not> lt b a) (insert_by lt x xs)"
  using assms(1,2)
proof (induction xs)
  case Nil
  then show ?case by simp
next
  case (Cons y ys)
  have mem: "set (insert_by lt x ys) = insert x (set ys)"
    by (metis insert_by_mset set_mset_add_mset_insert set_mset_mset)
  show ?case
  proof (cases "lt y x")
    case True
    have "sorted_wrt (\<lambda>a b. \<not> lt b a) (insert_by lt x ys)"
      by (rule Cons.IH) (use Cons.prems in \<open>auto\<close>)
    with True Cons.prems(1) assms(3)[OF True] show ?thesis by (auto simp: mem)
  next
    case False
    have "\<not> lt z x" if "z \<in> set ys" for z
      by (rule Cons.prems(2)[of x y z]) (use that False Cons.prems(1) in auto)
    with False Cons.prems(1) show ?thesis by auto
  qed
qed

lemma stable_sort_sorted:
  assumes "\<And>a b c. a \<in> set xs \<Longrightarrow> b \<in> set xs \<Longrightarrow> c \<in> set xs
      \<Longrightarrow> \<not> lt b a \<Longrightarrow> \<not> lt c b \<Longrightarrow> \<not> lt c a"
    and "\<And>a b. lt a b \<Longrightarrow> \<not> lt b a"
  shows "sorted_wrt (\<lambda>a b. \<not> lt b a) (stable_sort lt xs)"
  using assms(1)
proof (induction xs)
  case Nil
  then show ?case by (simp add: stable_sort_def)
next
  case (Cons x xs)
  have IH: "sorted_wrt (\<lambda>a b. \<not> lt b a) (stable_sort lt xs)"
    by (rule Cons.IH) (use Cons.prems in \<open>auto\<close>)
  have "sorted_wrt (\<lambda>a b. \<not> lt b a) (insert_by lt x (stable_sort lt xs))"
  proof (rule insert_by_sorted[OF IH])
    fix a b c
    assume "a \<in> set (x # stable_sort lt xs)" "b \<in> set (x # stable_sort lt xs)"
      "c \<in> set (x # stable_sort lt xs)" "\<not> lt b a" "\<not> lt c b"
    with Cons.prems[of a b c] show "\<not> lt c a" by simp
  qed (rule assms(2))
  then show ?case by (simp add: stable_sort_def)
qed

lemma py_sorted_pynum:
  fixes key :: "'a \<Rightarrow> pynum"
  assumes "\<And>x. x \<in> set xs \<Longrightarrow> key x \<noteq> NaN"
  shows "sorted_wrt (\<lambda>a b. key a \<le> key b) (py_sorted key xs)"
proof -
  have "sorted_wrt (\<lambda>a b. \<not> key b < key a) (py_sorted key xs)"
    unfolding py_sorted_def
  proof (rule stable_sort_sorted)
    fix a b c assume "a \<in> set xs" "b \<in> set xs" "c \<in> set xs" "\<not> key b < key a" "\<not> key c < key b"
    then show "\<not> key c < key a" using assms by (metis pn_le_trans pn_not_less)
  qed (auto dest: pn_less_trans)
  then show ?thesis
    by (rule sorted_wrt_mono_rel[rotated]) (use assms in \<open>auto simp: pn_not_less\<close>)
qed

lemma py_sorted_desc_pynum:
  fixes key :: "'a \<Rightarrow> pynum"
  assumes "\<And>x. x \<in> set xs \<Longrightarrow> key x \<noteq> NaN"
  shows "sorted_wrt (\<lambda>a b. key b \<le> key a) (py_sorted_desc key xs)"
proof -
  have "sorted_wrt (\<lambda>a b. \<not> key a < key b) (py_sorted_desc key xs)"
    unfolding py_sorted_desc_def
  proof (rule stable_sort_sorted)
    fix a b c assume "a \<in> set xs" "b \<in> set xs" "c \<in> set xs" "\<not> key a < key b" "\<not> key b < key c"
    then show "\<not> key a < key c" using assms by (metis pn_le_trans pn_not_less)
  qed (auto dest: pn_less_trans)
  then show ?thesis
    by (rule sorted_wrt_mono_rel[rotated]) (use assms in \<open>auto simp: pn_not_less\<close>)
qed

lemma py_sorted_linorder:
  fixes key :: "'a \<Rightarrow> 'b :: linorder"
  shows "sorted (map key (py_sorted key xs))"
proof -
  have "sorted_wrt (\<lambda>a b. \<not> key b < key a) (py_sorted key xs)"
    unfolding py_sorted_def by (rule stable_sort_sorted) auto
  then show ?thesis by (simp add: sorted_wrt_map not_less)
qed

lemma py_take_subset: "set (py_take k xs) \<subseteq> set xs"
  by (auto simp: py_take_def dest: in_set_takeD)

lemma py_choice_in: "py_choice r xs = Inr x \<Longrightarrow> x \<in> set xs"
  by (auto simp: py_choice_def split: if_splits)

lemma py_choice_ok: "is_ok (py_choice r xs) \<longleftrightarrow> xs \<noteq> []"
  by (auto simp: py_choice_def)

end
