(* ===== verification/Instance_Info.thy ===== *)
theory Instance_Info
  imports Py_Numbers
begin

text \<open>
  The load report of one instance and the load metrics computed from it
  (\<open>llumnix/instance_info.py\<close>). Block counts are numbers that may be infinite, because a
  freshly launched instance is described by an empty report with \<open>np.inf\<close> free blocks.
  \<open>numpy.exp\<close> is the parameter \<open>np_exp\<close>.
\<close>

datatype InstanceType = NO_CONSTRAINTS | PREFILL | DECODE

datatype RequestInferenceType = Inference_PREFILL | Inference_DECODE

text \<open>A prefix-cache block hash is a byte string or an integer.\<close>

datatype block_hash = HashBytes "nat list" | HashInt int

record InstanceInfo =
  instance_id :: string
  instance_type :: "InstanceType option"
  node_id :: string
  node_ip :: string
  gpu_count :: int
  step_id :: "int option"
  timestamp :: "rat option"
  num_batched_tokens :: "int option"
  num_seqs :: "int option"
  max_num_seqs :: int
  running_seq_lens :: "int list"
  waiting_seq_lens :: "int list"
  last_inference_latency :: "rat option"
  inference_type :: "RequestInferenceType option"
  num_total_gpu_blocks :: pynum
  num_watermark_blocks :: pynum
  num_used_gpu_blocks :: pynum
  num_free_gpu_blocks :: pynum
  gpu_cache_usage :: pynum
  gpu_memory_total_bytes :: int
  gpu_memory_free_bytes :: int
  compute_capacity :: pynum
  num_running_requests :: int
  num_waiting_requests :: int
  num_killed_requests :: int
  num_blocks_first_waiting_request :: pynum
  waiting_time_first_waiting_request :: pynum
  num_blocks_all_waiting_requests :: pynum
  num_blocks_last_running_request :: pynum
  kv_cache_block_hashes :: "block_hash set"
  kv_endpoint :: "string option"
  migration_capabilities :: "string set"
  migration_protocol_version :: int
  migration_kv_layout_version :: string
  device_class :: string
  corex_stack :: string
  dispatch_load_metric :: pynum
  migration_load_metric :: pynum
  migration_load_metric_after_migrate_in :: pynum
  migration_load_metric_after_migrate_out :: pynum
  num_available_gpu_blocks :: pynum
  num_available_gpu_blocks_waiting :: pynum
  profiling_data :: "(string \<times> int option \<times> int \<times> rat) option"

text \<open>The field defaults of the data class.\<close>

definition default_InstanceInfo :: InstanceInfo where
  "default_InstanceInfo = \<lparr>
    instance_id = '''', instance_type = None, node_id = '''', node_ip = '''', gpu_count = 1,
    step_id = None, timestamp = None, num_batched_tokens = None, num_seqs = None,
    max_num_seqs = 0, running_seq_lens = [], waiting_seq_lens = [],
    last_inference_latency = None, inference_type = None,
    num_total_gpu_blocks = 0, num_watermark_blocks = 0, num_used_gpu_blocks = 0,
    num_free_gpu_blocks = 0, gpu_cache_usage = 0,
    gpu_memory_total_bytes = 0, gpu_memory_free_bytes = 0, compute_capacity = 1,
    num_running_requests = 0, num_waiting_requests = 0, num_killed_requests = 0,
    num_blocks_first_waiting_request = 0, waiting_time_first_waiting_request = 0,
    num_blocks_all_waiting_requests = 0, num_blocks_last_running_request = 0,
    kv_cache_block_hashes = {}, kv_endpoint = None, migration_capabilities = {},
    migration_protocol_version = 0, migration_kv_layout_version = '''',
    device_class = '''', corex_stack = '''',
    dispatch_load_metric = MInf, migration_load_metric = PInf,
    migration_load_metric_after_migrate_in = MInf,
    migration_load_metric_after_migrate_out = PInf,
    num_available_gpu_blocks = 0, num_available_gpu_blocks_waiting = 0, profiling_data = None\<rparr>"

definition post_init :: "InstanceInfo \<Rightarrow> InstanceInfo" where
  "post_init i =
    (let available = num_free_gpu_blocks i - num_watermark_blocks i in
     i\<lparr>num_available_gpu_blocks := available,
       num_available_gpu_blocks_waiting := available - num_blocks_all_waiting_requests i\<rparr>)"

text \<open>A load strategy: the metric's name and, for migration, the defragmentation flag.\<close>

record LoadComputationStrategy =
  load_metric :: string
  enable_defrag :: bool

abbreviation num_requests :: "InstanceInfo \<Rightarrow> int" where
  "num_requests i \<equiv> num_running_requests i + num_waiting_requests i"

text \<open>\<open>max(float(compute_capacity), 1e-6)\<close>.\<close>

definition effective_capacity :: "InstanceInfo \<Rightarrow> pynum" where
  "effective_capacity i = py_max (compute_capacity i) (Fin (1 / 1000000))"

text \<open>The branch \<open>virtual_usage\<close> from the memory ratio on.\<close>

definition memory_use_ratio :: "InstanceInfo \<Rightarrow> pynum res" where
  "memory_use_ratio i =
    (if 0 < gpu_memory_total_bytes i \<and> 0 \<le> gpu_memory_free_bytes i
        \<and> gpu_memory_free_bytes i \<le> gpu_memory_total_bytes i
     then res_bind (py_div (of_py_int (gpu_memory_free_bytes i)) (of_py_int (gpu_memory_total_bytes i)))
            (\<lambda>q. Inr (1 - q))
     else if num_total_gpu_blocks i > 0
     then py_div (num_used_gpu_blocks i + num_blocks_all_waiting_requests i) (num_total_gpu_blocks i)
     else Inr 0)"

definition memory_component :: "(rat \<Rightarrow> rat) \<Rightarrow> pynum \<Rightarrow> pynum" where
  "memory_component np_exp ratio =
    (let memory_load = py_min (py_max ratio 0) 1;
         memory_weight = pn_quot 1 (1 + pn_exp np_exp (Fin (- 5) * (memory_load - Fin (2 / 5))))
     in memory_weight * memory_load)"

definition dispatch_compute_instance_load ::
  "(rat \<Rightarrow> rat) \<Rightarrow> LoadComputationStrategy \<Rightarrow> InstanceInfo \<Rightarrow> pynum res" where
  "dispatch_compute_instance_load np_exp c i =
    (if load_metric c = ''usage_ratio'' then
       (if num_total_gpu_blocks i > 0
        then py_div (num_used_gpu_blocks i + num_blocks_all_waiting_requests i) (num_total_gpu_blocks i)
        else Inr MInf)
     else if load_metric c = ''remaining_steps'' then
       (let available = num_available_gpu_blocks i - num_blocks_all_waiting_requests i;
            available =
              (if available = 0 \<and> gpu_memory_total_bytes i > 0
               then pn_quot (py_max 0 (of_py_int (gpu_memory_free_bytes i))) (Fin (1024 ^ 3))
                    * effective_capacity i
               else available)
        in if num_requests i = 0 then Inr MInf
           else res_bind (py_div available (of_py_int (num_requests i))) (\<lambda>q. Inr (q * Fin (- 1))))
     else if load_metric c = ''virtual_usage'' then
       (if num_requests i = 0 then Inr MInf
        else res_bind (py_div (of_py_int (num_requests i)) (Fin 256 * effective_capacity i))
          (\<lambda>compute_load. res_bind (memory_use_ratio i)
          (\<lambda>ratio. Inr (compute_load * 1 + memory_component np_exp ratio))))
     else Inr MInf)"

definition migration_compute_instance_load ::
  "LoadComputationStrategy \<Rightarrow> InstanceInfo \<Rightarrow> pynum res" where
  "migration_compute_instance_load c i =
    (if load_metric c = ''usage_ratio'' then
       (if num_total_gpu_blocks i > 0
        then py_div (num_used_gpu_blocks i + num_blocks_first_waiting_request i) (num_total_gpu_blocks i)
        else Inr MInf)
     else if load_metric c = ''remaining_steps'' then
       (let (requests, available) =
          (if \<not> enable_defrag c then (num_running_requests i, num_available_gpu_blocks i)
           else (num_running_requests i + (if num_waiting_requests i \<noteq> 0 then 1 else 0),
                 num_available_gpu_blocks i - num_blocks_first_waiting_request i))
        in if requests = 0 then Inr MInf
           else res_bind (py_div available (of_py_int requests)) (\<lambda>q. Inr (q * Fin (- 1))))
     else if load_metric c = ''remaining_tokens'' then Inr (num_available_gpu_blocks i)
     else Inr MInf)"

definition compute_instance_load_after_migrate ::
  "LoadComputationStrategy \<Rightarrow> InstanceInfo \<Rightarrow> bool \<Rightarrow> pynum res" where
  "compute_instance_load_after_migrate c i is_migrate_in =
    (let blocks = num_blocks_last_running_request i in
     migration_compute_instance_load c
       (if is_migrate_in
        then i\<lparr>num_running_requests := num_running_requests i + 1,
               num_available_gpu_blocks := num_available_gpu_blocks i - blocks\<rparr>
        else i\<lparr>num_running_requests := num_running_requests i - 1,
               num_available_gpu_blocks := num_available_gpu_blocks i + blocks\<rparr>))"

definition scaling_compute_instance_load ::
  "(rat \<Rightarrow> rat) \<Rightarrow> string \<Rightarrow> InstanceInfo \<Rightarrow> pynum res" where
  "scaling_compute_instance_load np_exp metric i =
    dispatch_compute_instance_load np_exp \<lparr>load_metric = metric, enable_defrag = False\<rparr> i"

record InstanceLoadCalculator =
  dispatch_load_calculator :: LoadComputationStrategy
  migration_load_calculator :: LoadComputationStrategy

definition init_InstanceLoadCalculator :: "string \<Rightarrow> string \<Rightarrow> bool \<Rightarrow> InstanceLoadCalculator" where
  "init_InstanceLoadCalculator dispatch_metric migration_metric defrag =
    \<lparr>dispatch_load_calculator = \<lparr>load_metric = dispatch_metric, enable_defrag = False\<rparr>,
     migration_load_calculator = \<lparr>load_metric = migration_metric, enable_defrag = defrag\<rparr>\<rparr>"

definition compute_instance_load ::
  "(rat \<Rightarrow> rat) \<Rightarrow> InstanceLoadCalculator \<Rightarrow> InstanceInfo \<Rightarrow> InstanceInfo res" where
  "compute_instance_load np_exp c i =
    res_bind (dispatch_compute_instance_load np_exp (dispatch_load_calculator c) i) (\<lambda>d.
    let i = i\<lparr>dispatch_load_metric := d\<rparr> in
    res_bind (migration_compute_instance_load (migration_load_calculator c) i) (\<lambda>m.
    let i = i\<lparr>migration_load_metric := m\<rparr> in
    res_bind (compute_instance_load_after_migrate (migration_load_calculator c) i False) (\<lambda>out.
    let i = i\<lparr>migration_load_metric_after_migrate_out := out\<rparr> in
    res_bind (compute_instance_load_after_migrate (migration_load_calculator c) i True) (\<lambda>inn.
    Inr (i\<lparr>migration_load_metric_after_migrate_in := inn\<rparr>)))))"


text \<open>A table of reports in which every report is stored under its own id.\<close>

definition keyed :: "(string, InstanceInfo) dict \<Rightarrow> bool" where
  "keyed infos \<longleftrightarrow> distinct (dkeys infos) \<and> (\<forall>(x, i) \<in> set infos. instance_id i = x)"

lemma keyed_ids: "keyed infos \<Longrightarrow> map instance_id (dvalues infos) = dkeys infos"
  by (auto simp: keyed_def)

lemma keyed_distinct_ids: "keyed infos \<Longrightarrow> distinct (map instance_id (dvalues infos))"
  by (subst keyed_ids) (simp_all add: keyed_def)

lemma keyed_Nil [simp]: "keyed []"
  by (simp add: keyed_def)

lemma keyed_dset: "keyed infos \<Longrightarrow> instance_id i = x \<Longrightarrow> keyed (dset x i infos)"
  by (auto simp: keyed_def distinct_dset dest: dset_entries)

lemma keyed_dpop: "keyed infos \<Longrightarrow> keyed (dpop x infos)"
  by (auto simp: keyed_def distinct_dpop dest: dpop_entries)

lemma keyed_filter: "keyed infos \<Longrightarrow> keyed (filter Q infos)"
  by (auto simp: keyed_def distinct_map_filter)

lemma keyed_dupdate: "keyed d \<Longrightarrow> keyed e \<Longrightarrow> keyed (dupdate d e)"
proof (induction d e rule: dupdate.induct)
  case (2 d k v e)
  then have "instance_id v = k" "keyed e" by (auto simp: keyed_def)
  with 2 show ?case by (simp add: keyed_dset)
qed simp

subsection \<open>Lemmas on the load metrics\<close>

lemma py_div_ok: "b \<noteq> Fin 0 \<Longrightarrow> py_div a b = Inr (pn_quot a b)"
  by (simp add: py_div_def)

lemma pos_not_zero: "(0 :: pynum) < b \<Longrightarrow> b \<noteq> Fin 0"
  by (auto simp: zero_pynum_def)

lemma effective_capacity_not_zero: "Fin 256 * effective_capacity i \<noteq> Fin 0"
  by (cases "compute_capacity i")
    (auto simp: effective_capacity_def py_max_def times_pynum_def pn_inf_def split: if_splits)

lemma memory_use_ratio_ok: "\<exists>r. memory_use_ratio i = Inr r"
  by (auto simp: memory_use_ratio_def py_div_ok pos_not_zero)

lemma dispatch_load_ok: "\<exists>l. dispatch_compute_instance_load np_exp c i = Inr l"
  using memory_use_ratio_ok[of i]
  by (auto simp: dispatch_compute_instance_load_def py_div_ok pos_not_zero
      effective_capacity_not_zero Let_def)

lemma migration_load_ok: "\<exists>l. migration_compute_instance_load c i = Inr l"
  by (auto simp: migration_compute_instance_load_def py_div_ok pos_not_zero Let_def)

lemma migration_load_frame:
  "migration_compute_instance_load c (i\<lparr>dispatch_load_metric := d\<rparr>) = migration_compute_instance_load c i"
  "migration_compute_instance_load c (i\<lparr>migration_load_metric := m\<rparr>) = migration_compute_instance_load c i"
  "compute_instance_load_after_migrate c (i\<lparr>dispatch_load_metric := d\<rparr>) b
    = compute_instance_load_after_migrate c i b"
  "compute_instance_load_after_migrate c (i\<lparr>migration_load_metric := d\<rparr>) b
    = compute_instance_load_after_migrate c i b"
  "compute_instance_load_after_migrate c (i\<lparr>migration_load_metric_after_migrate_out := d\<rparr>) b
    = compute_instance_load_after_migrate c i b"
  by (simp_all add: migration_compute_instance_load_def compute_instance_load_after_migrate_def
      Let_def)

lemma after_migrate_ok: "\<exists>l. compute_instance_load_after_migrate c i b = Inr l"
  by (simp add: compute_instance_load_after_migrate_def migration_load_ok Let_def)

lemma clamp_unit: "ratio \<noteq> NaN \<Longrightarrow> \<exists>x. py_min (py_max ratio 0) 1 = Fin x \<and> 0 \<le> x \<and> x \<le> 1"
  by (cases ratio) (auto simp: py_min_def py_max_def zero_pynum_def one_pynum_def)

lemma memory_component_bounds:
  assumes "ratio \<noteq> NaN" and "\<And>x. 0 \<le> np_exp x"
  shows "\<exists>y. memory_component np_exp ratio = Fin y \<and> 0 \<le> y \<and> y \<le> 1"
proof -
  obtain x where x: "py_min (py_max ratio 0) 1 = Fin x" "0 \<le> x" "x \<le> 1"
    using clamp_unit[OF assms(1)] by blast
  define e where "e = np_exp (- 5 * (x - 2 / 5))"
  have e: "0 \<le> e" using assms(2) by (simp add: e_def)
  have "memory_component np_exp ratio = Fin (1 / (1 + e) * x)"
    by (simp add: memory_component_def x(1)[unfolded one_pynum_def] one_pynum_def e_def Let_def)
  moreover have "0 \<le> 1 / (1 + e) * x" using e x by simp
  moreover have "1 / (1 + e) * x \<le> 1 * 1"
    by (rule mult_mono) (use e x in auto)
  ultimately show ?thesis by auto
qed

text \<open>A report whose block counters in use are finite, with a finite capacity.\<close>

definition finite_report :: "InstanceInfo \<Rightarrow> bool" where
  "finite_report i \<longleftrightarrow>
    (\<exists>u w cap. num_used_gpu_blocks i = Fin u \<and> num_blocks_all_waiting_requests i = Fin w
      \<and> compute_capacity i = Fin cap \<and> 1 / 1000000 \<le> cap)"

lemma memory_use_ratio_not_nan:
  assumes "finite_report i"
  shows "\<exists>r. memory_use_ratio i = Inr r \<and> r \<noteq> NaN"
  using assms
  by (cases "num_total_gpu_blocks i")
    (auto simp: memory_use_ratio_def finite_report_def py_div_ok pos_not_zero zero_pynum_def
      one_pynum_def)


subsection \<open>Properties of the load metrics\<close>

text \<open>
  Computing the loads of an instance never raises, whatever its report and the
  configured metrics: every division is guarded. Of the report, exactly the four load
  fields change, each to the value of its strategy on the original report.
\<close>

theorem compute_instance_load_total:
  "\<exists>d m out inn.
     compute_instance_load np_exp c i =
       Inr (i\<lparr>dispatch_load_metric := d, migration_load_metric := m,
              migration_load_metric_after_migrate_out := out,
              migration_load_metric_after_migrate_in := inn\<rparr>)
   \<and> dispatch_compute_instance_load np_exp (dispatch_load_calculator c) i = Inr d
   \<and> migration_compute_instance_load (migration_load_calculator c) i = Inr m
   \<and> compute_instance_load_after_migrate (migration_load_calculator c) i False = Inr out
   \<and> compute_instance_load_after_migrate (migration_load_calculator c) i True = Inr inn"
proof -
  obtain d where d: "dispatch_compute_instance_load np_exp (dispatch_load_calculator c) i = Inr d"
    using dispatch_load_ok by blast
  obtain m where m: "migration_compute_instance_load (migration_load_calculator c) i = Inr m"
    using migration_load_ok by blast
  obtain out inn where
    "compute_instance_load_after_migrate (migration_load_calculator c) i False = Inr out"
    "compute_instance_load_after_migrate (migration_load_calculator c) i True = Inr inn"
    using after_migrate_ok by metis
  with d m show ?thesis
    by (simp add: compute_instance_load_def migration_load_frame Let_def)
qed

text \<open>
  The \<open>virtual_usage\<close> load of a busy instance is finite and lies between its request
  pressure \<open>n / (256 * capacity)\<close> and that pressure plus one, because the memory term is a
  clamped ratio weighted by a logistic value. \<open>numpy.exp\<close> is only assumed non-negative.
\<close>

theorem virtual_usage_bounds:
  assumes "load_metric c = ''virtual_usage''" and "0 < num_requests i" and "finite_report i"
    and "compute_capacity i = Fin cap" and "\<And>x. 0 \<le> np_exp x"
  shows "\<exists>l. dispatch_compute_instance_load np_exp c i = Inr (Fin l)
    \<and> of_int (num_requests i) / (256 * cap) \<le> l
    \<and> l \<le> of_int (num_requests i) / (256 * cap) + 1"
proof -
  obtain r where r: "memory_use_ratio i = Inr r" "r \<noteq> NaN"
    using memory_use_ratio_not_nan[OF assms(3)] by blast
  obtain y where y: "memory_component np_exp r = Fin y" "0 \<le> y" "y \<le> 1"
    using memory_component_bounds[of r np_exp] r(2) assms(5) by blast
  have cap: "effective_capacity i = Fin cap" "0 < cap"
    using assms(3,4) by (auto simp: effective_capacity_def finite_report_def py_max_def)
  have "dispatch_compute_instance_load np_exp c i
      = Inr (Fin (of_int (num_requests i) / (256 * cap) + y))"
    using assms(1,2) r y cap
    by (simp add: dispatch_compute_instance_load_def py_div_def one_pynum_def)
  with y show ?thesis by auto
qed

theorem virtual_usage_bounds_witness:
  "\<exists>l. dispatch_compute_instance_load (\<lambda>_. 1) \<lparr>load_metric = ''virtual_usage'', enable_defrag = False\<rparr>
      (default_InstanceInfo\<lparr>num_running_requests := 3, num_waiting_requests := 1\<rparr>) = Inr (Fin l)
    \<and> 4 / 256 \<le> l \<and> l \<le> 4 / 256 + 1"
  using virtual_usage_bounds[of "\<lparr>load_metric = ''virtual_usage'', enable_defrag = False\<rparr>"
      "default_InstanceInfo\<lparr>num_running_requests := 3, num_waiting_requests := 1\<rparr>" 1 "\<lambda>_. 1"]
  by (simp add: default_InstanceInfo_def finite_report_def zero_pynum_def one_pynum_def)

text \<open>
  Under \<open>remaining_steps\<close> without defragmentation, for an instance with at least two
  running requests and non-negative headroom, the load after a request leaves is at most
  the current load, which is at most the load after a request of that size arrives.
\<close>

theorem remaining_steps_migration_brackets:
  assumes "load_metric c = ''remaining_steps''" and "\<not> enable_defrag c"
    and "1 < num_running_requests i"
    and "num_available_gpu_blocks i = Fin a" "0 \<le> a"
    and "num_blocks_last_running_request i = Fin b" "0 \<le> b"
  shows "\<exists>out load inn.
    compute_instance_load_after_migrate c i False = Inr out
    \<and> migration_compute_instance_load c i = Inr load
    \<and> compute_instance_load_after_migrate c i True = Inr inn
    \<and> out \<le> load \<and> load \<le> inn"
proof -
  define n :: rat where "n = of_int (num_running_requests i)"
  have n: "1 < n" using assms(3) by (simp add: n_def)
  have "a / n \<le> (a + b) / (n - 1)"
    by (rule frac_le) (use n assms in auto)
  moreover have "(a - b) / (n + 1) \<le> a / n"
  proof -
    have "(a - b) / (n + 1) \<le> a / (n + 1)"
      by (rule divide_right_mono) (use n assms in auto)
    also have "\<dots> \<le> a / n" by (rule frac_le) (use n assms in auto)
    finally show ?thesis .
  qed
  ultimately show ?thesis
    using assms n
    by (simp add: compute_instance_load_after_migrate_def migration_compute_instance_load_def
        py_div_def n_def)
qed

theorem remaining_steps_migration_brackets_witness:
  "\<exists>out load inn.
    compute_instance_load_after_migrate \<lparr>load_metric = ''remaining_steps'', enable_defrag = False\<rparr>
      (default_InstanceInfo\<lparr>num_running_requests := 4, num_available_gpu_blocks := Fin 20,
        num_blocks_last_running_request := Fin 5\<rparr>) False = Inr out
    \<and> migration_compute_instance_load \<lparr>load_metric = ''remaining_steps'', enable_defrag = False\<rparr>
      (default_InstanceInfo\<lparr>num_running_requests := 4, num_available_gpu_blocks := Fin 20,
        num_blocks_last_running_request := Fin 5\<rparr>) = Inr load
    \<and> compute_instance_load_after_migrate \<lparr>load_metric = ''remaining_steps'', enable_defrag = False\<rparr>
      (default_InstanceInfo\<lparr>num_running_requests := 4, num_available_gpu_blocks := Fin 20,
        num_blocks_last_running_request := Fin 5\<rparr>) True = Inr inn
    \<and> out \<le> load \<and> load \<le> inn"
  by (rule remaining_steps_migration_brackets[where a = 20 and b = 5])
    (simp_all add: default_InstanceInfo_def)

end
