(* ===== verification/Dispatch.thy ===== *)
theory Dispatch
  imports Instance_Info
begin

text \<open>
  Request dispatch: the policies of \<open>global_scheduler/dispatch_policy.py\<close> and the
  \<open>DispatchScheduler\<close> of \<open>global_scheduler/dispatch_scheduler.py\<close>. A call returns its
  result and the state it leaves, also when it raises. \<open>random.choice\<close> draws with the
  argument \<open>rnd\<close>. Ids registered before the first report are passed to the policy as
  strings, which the load-based policies cannot read.
\<close>

datatype DispatchPolicy = Flood | Balanced | Load | Queue | RoundRobin (prev_instance_idx: int)

datatype dispatch_pool = Infos "InstanceInfo list" | Ids "string set"

definition sort_instance_infos :: "InstanceInfo list \<Rightarrow> (InstanceInfo \<Rightarrow> 'b :: ord) \<Rightarrow> bool \<Rightarrow> InstanceInfo list" where
  "sort_instance_infos available key_attr descending =
    (if descending then py_sorted_desc key_attr available else py_sorted key_attr available)"

definition random_choice_from_top_k :: "InstanceInfo list \<Rightarrow> int \<Rightarrow> nat \<Rightarrow> InstanceInfo res" where
  "random_choice_from_top_k sorted_infos topk rnd =
    (let k = min topk (int (length sorted_infos)) in py_choice rnd (py_take k sorted_infos))"

definition dispatch_by :: "(InstanceInfo \<Rightarrow> 'b :: ord) \<Rightarrow> dispatch_pool \<Rightarrow> int \<Rightarrow> nat \<Rightarrow> string res" where
  "dispatch_by key pool topk rnd =
    (case pool of
       Infos available \<Rightarrow>
         res_bind (random_choice_from_top_k (sort_instance_infos available key False) topk rnd)
           (\<lambda>i. Inr (instance_id i))
     | Ids ids \<Rightarrow> if ids = {} then Inl IndexError else Inl AttributeError)"

fun policy_dispatch ::
  "DispatchPolicy \<Rightarrow> (string, int) dict \<Rightarrow> dispatch_pool \<Rightarrow> int \<Rightarrow> nat \<Rightarrow> string res \<times> DispatchPolicy" where
  "policy_dispatch Flood counts pool topk rnd =
    (py_max_by (\<lambda>k. dget_default counts k 0) (dkeys counts), Flood)"
| "policy_dispatch Balanced counts pool topk rnd =
    (py_min_by (\<lambda>k. dget_default counts k 0) (dkeys counts), Balanced)"
| "policy_dispatch Load counts pool topk rnd = (dispatch_by dispatch_load_metric pool topk rnd, Load)"
| "policy_dispatch Queue counts pool topk rnd = (dispatch_by num_waiting_requests pool topk rnd, Queue)"
| "policy_dispatch (RoundRobin prev) counts pool topk rnd =
    (let ids = py_sorted id (dkeys counts) in
     if ids = [] then (Inl ZeroDivisionError, RoundRobin prev)
     else let cur = (prev + 1) mod int (length ids)
          in (Inr (ids ! nat cur), RoundRobin cur))"

definition get_dispatch_policy :: "string \<Rightarrow> DispatchPolicy res" where
  "get_dispatch_policy name =
    (if name = ''flood'' then Inr Flood
     else if name = ''balanced'' then Inr Balanced
     else if name = ''load'' then Inr Load
     else if name = ''queue'' then Inr Queue
     else if name = ''rr'' then Inr (RoundRobin (- 1))
     else Inl KeyError)"

record DispatchScheduler =
  dispatch_policy :: DispatchPolicy
  topk_random_dispatch :: int
  available_dispatch_instance_set :: "string set"
  ds_instance_info :: "(string, InstanceInfo) dict"
  total_num_requests :: int
  instance_num_requests :: "(string, int) dict"

definition init_DispatchScheduler :: "string \<Rightarrow> int \<Rightarrow> DispatchScheduler res" where
  "init_DispatchScheduler policy topk =
    res_bind (get_dispatch_policy policy) (\<lambda>p.
      Inr \<lparr>dispatch_policy = p, topk_random_dispatch = topk, available_dispatch_instance_set = {},
           ds_instance_info = [], total_num_requests = 0, instance_num_requests = []\<rparr>)"

definition affinity :: "block_hash list \<Rightarrow> InstanceInfo \<Rightarrow> nat" where
  "affinity block_hashes i = card (set block_hashes \<inter> kv_cache_block_hashes i)"

text \<open>The order of the tuples \<open>(affinity, -load, id)\<close>: the first components that differ decide.\<close>

definition hit_less :: "block_hash list \<Rightarrow> InstanceInfo \<Rightarrow> InstanceInfo \<Rightarrow> bool" where
  "hit_less h a b =
    (let la = - dispatch_load_metric a; lb = - dispatch_load_metric b in
     if affinity h a \<noteq> affinity h b then affinity h a < affinity h b
     else if \<not> (la = lb \<and> la \<noteq> NaN) then la < lb
     else instance_id a < instance_id b)"

text \<open>
  Where the candidate is chosen: \<open>Inl\<close> is the pool handed to the policy, \<open>Inr\<close> an
  instance chosen for its cached prefix.
\<close>

definition affinity_choice :: "InstanceInfo list \<Rightarrow> block_hash list option \<Rightarrow> (InstanceInfo list + InstanceInfo)" where
  "affinity_choice available block_hashes =
    (case block_hashes of
       None \<Rightarrow> Inl available
     | Some [] \<Rightarrow> Inl available
     | Some h \<Rightarrow>
        (if filter (\<lambda>i. kv_cache_block_hashes i \<noteq> {}) available = [] then Inl available
         else (case py_min_by dispatch_load_metric available of
            Inl _ \<Rightarrow> Inl available
          | Inr b \<Rightarrow>
             (case filter (\<lambda>i. dispatch_load_metric i \<le> dispatch_load_metric b + Fin (1 / 10)) available of
                [] \<Rightarrow> Inl available
              | n # ns \<Rightarrow>
                 (let hit = py_best (hit_less h) n ns
                  in if affinity h hit > 0 then Inr hit else Inl (n # ns))))))"

definition dispatch_candidates ::
  "DispatchScheduler \<Rightarrow> string set \<Rightarrow> block_hash list option \<Rightarrow> nat \<Rightarrow> string res \<times> DispatchScheduler" where
  "dispatch_candidates s candidate_ids block_hashes rnd =
    (let available = filter (\<lambda>i. instance_id i \<in> candidate_ids) (dvalues (ds_instance_info s)) in
     if available = [] then (Inl (RuntimeError ''no dispatch candidates are available''), s)
     else
       let s = s\<lparr>total_num_requests := total_num_requests s + 1\<rparr>;
           (chosen, policy) =
             (case affinity_choice available block_hashes of
                Inr hit \<Rightarrow> (Inr (instance_id hit), dispatch_policy s)
              | Inl pool \<Rightarrow> policy_dispatch (dispatch_policy s) (instance_num_requests s) (Infos pool)
                            (topk_random_dispatch s) rnd);
           s = s\<lparr>dispatch_policy := policy\<rparr>
       in case chosen of
            Inl e \<Rightarrow> (Inl e, s)
          | Inr x \<Rightarrow> (Inr x, s\<lparr>instance_num_requests :=
                dset x (dget_default (instance_num_requests s) x 0 + 1) (instance_num_requests s)\<rparr>))"

definition ds_dispatch ::
  "DispatchScheduler \<Rightarrow> block_hash list option \<Rightarrow> nat \<Rightarrow> string res \<times> DispatchScheduler" where
  "ds_dispatch s block_hashes rnd =
    (let available = filter (\<lambda>i. instance_id i \<in> available_dispatch_instance_set s)
                       (dvalues (ds_instance_info s)) in
     if available = [] then
       (let (r, policy) = policy_dispatch (dispatch_policy s) (instance_num_requests s)
              (Ids (available_dispatch_instance_set s)) (topk_random_dispatch s) rnd
        in (r, s\<lparr>dispatch_policy := policy\<rparr>))
     else dispatch_candidates s (instance_id ` set available) block_hashes rnd)"

definition ds_update_instance_infos :: "DispatchScheduler \<Rightarrow> (string, InstanceInfo) dict \<Rightarrow> DispatchScheduler" where
  "ds_update_instance_infos s infos =
    s\<lparr>ds_instance_info :=
        dupdate (ds_instance_info s) (filter (\<lambda>(k, _). k \<in> available_dispatch_instance_set s) infos)\<rparr>"

definition ds_add_instance :: "DispatchScheduler \<Rightarrow> string \<Rightarrow> InstanceType \<Rightarrow> DispatchScheduler" where
  "ds_add_instance s x t =
    (if t \<in> {NO_CONSTRAINTS, PREFILL}
     then s\<lparr>available_dispatch_instance_set := insert x (available_dispatch_instance_set s),
            instance_num_requests := dset x 0 (instance_num_requests s)\<rparr>
     else s)"

definition ds_remove_instance :: "DispatchScheduler \<Rightarrow> string \<Rightarrow> DispatchScheduler" where
  "ds_remove_instance s x =
    (let s = s\<lparr>ds_instance_info := dpop x (ds_instance_info s)\<rparr> in
     if x \<in> available_dispatch_instance_set s
     then s\<lparr>available_dispatch_instance_set := available_dispatch_instance_set s - {x},
            instance_num_requests := dpop x (instance_num_requests s)\<rparr>
     else s)"


subsection \<open>The policies\<close>

lemma random_choice_from_top_k_in:
  "random_choice_from_top_k xs k r = Inr i \<Longrightarrow> i \<in> set xs"
  using py_take_subset by (force simp: random_choice_from_top_k_def Let_def dest: py_choice_in)

lemma random_choice_from_top_k_ok:
  "xs \<noteq> [] \<Longrightarrow> 0 < k \<Longrightarrow> is_ok (random_choice_from_top_k xs k r)"
  by (cases xs) (auto simp: random_choice_from_top_k_def Let_def py_choice_ok py_take_def min_def)

lemma dispatch_by_in: "dispatch_by key (Infos p) k r = Inr x \<Longrightarrow> x \<in> instance_id ` set p"
  by (auto simp: dispatch_by_def res_bind_Inr_iff sort_instance_infos_def
      dest!: random_choice_from_top_k_in)

lemma dispatch_by_ok: "p \<noteq> [] \<Longrightarrow> 0 < k \<Longrightarrow> is_ok (dispatch_by key (Infos p) k r)"
proof -
  assume "p \<noteq> []" "0 < k"
  then have "is_ok (random_choice_from_top_k (sort_instance_infos p key False) k r)"
    by (intro random_choice_from_top_k_ok) (simp_all add: sort_instance_infos_def)
  then show ?thesis by (auto simp: dispatch_by_def is_ok_iff)
qed

text \<open>
  The contract of a policy that reads the candidates' reports: it picks one of them, and
  picks one whenever there is one.
\<close>

locale pool_policy =
  fixes P :: DispatchPolicy
  assumes pick_in_pool:
      "fst (policy_dispatch P counts (Infos p) k r) = Inr x \<Longrightarrow> x \<in> instance_id ` set p"
    and pick_ok: "p \<noteq> [] \<Longrightarrow> 0 < k \<Longrightarrow> is_ok (fst (policy_dispatch P counts (Infos p) k r))"
    and pick_keeps: "snd (policy_dispatch P counts pool k r) = P"

interpretation load_policy: pool_policy Load
  by unfold_locales (auto dest: dispatch_by_in intro: dispatch_by_ok)

interpretation queue_policy: pool_policy Queue
  by unfold_locales (auto dest: dispatch_by_in intro: dispatch_by_ok)

text \<open>The contract of a policy that reads only the dispatch counters.\<close>

locale counter_policy =
  fixes P :: DispatchPolicy
  assumes pick_in_counts: "fst (policy_dispatch P counts pool k r) = Inr x \<Longrightarrow> dmem x counts"
    and pick_ok: "counts \<noteq> [] \<Longrightarrow> is_ok (fst (policy_dispatch P counts pool k r))"

lemma round_robin_in_counts:
  "fst (policy_dispatch (RoundRobin j) counts pool k r) = Inr x \<Longrightarrow> dmem x counts"
proof -
  assume pick: "fst (policy_dispatch (RoundRobin j) counts pool k r) = Inr x"
  let ?ids = "py_sorted id (dkeys counts)"
  from pick have ne: "?ids \<noteq> []" and x: "x = ?ids ! nat ((j + 1) mod int (length ?ids))"
    by (auto simp: Let_def split: if_splits)
  then have "nat ((j + 1) mod int (length ?ids)) < length ?ids"
    by (simp add: nat_less_iff del: py_sorted_simps)
  with x have "x \<in> set ?ids" by (simp only: nth_mem)
  then show ?thesis by simp
qed

lemma round_robin_ok:
  "counts \<noteq> [] \<Longrightarrow> is_ok (fst (policy_dispatch (RoundRobin j) counts pool k r))"
  by (simp add: Let_def)

interpretation flood_policy: counter_policy Flood
  by unfold_locales (auto dest: py_max_by_in simp: py_max_by_ok)

interpretation balanced_policy: counter_policy Balanced
  by unfold_locales (auto dest: py_min_by_in simp: py_min_by_ok)

interpretation round_robin_policy: counter_policy "RoundRobin j" for j
  by unfold_locales (fact round_robin_in_counts, fact round_robin_ok)

subsection \<open>Affinity\<close>

lemma affinity_choice_pool:
  "affinity_choice available h = Inl pool \<Longrightarrow> set pool \<subseteq> set available \<and> (available \<noteq> [] \<longrightarrow> pool \<noteq> [])"
  by (auto simp: affinity_choice_def Let_def split: option.splits list.splits if_splits sum.splits
      dest: filter_Cons_subset)

lemma affinity_choice_hit: "affinity_choice available h = Inr hit \<Longrightarrow> hit \<in> set available"
  by (auto simp: affinity_choice_def Let_def split: option.splits list.splits if_splits sum.splits
      dest!: filter_Cons_subset subsetD[OF _ py_best_in])

lemma py_best_weak_upper:
  fixes f :: "'a \<Rightarrow> 'b :: linorder"
  assumes "\<And>a b. lt a b \<Longrightarrow> f a \<le> f b" and "\<And>a b. f a < f b \<Longrightarrow> lt a b" and "x \<in> set (b # xs)"
  shows "f x \<le> f (py_best lt b xs)"
  using assms(3)
proof (induction xs arbitrary: b x)
  case Nil
  then show ?case by simp
next
  case (Cons a xs)
  let ?m = "if lt b a then a else b"
  have "f a \<le> f ?m" "f b \<le> f ?m" using assms(1,2) by (auto simp: not_less[symmetric])
  moreover have "f ?m \<le> f (py_best lt ?m xs)" by (rule Cons.IH) simp
  moreover have "x \<in> set xs \<Longrightarrow> f x \<le> f (py_best lt ?m xs)" by (rule Cons.IH) simp
  ultimately show ?case using Cons.prems by auto
qed

lemma hit_less_affinity:
  "hit_less h a b \<Longrightarrow> affinity h a \<le> affinity h b" "affinity h a < affinity h b \<Longrightarrow> hit_less h a b"
  by (auto simp: hit_less_def Let_def split: if_splits)

definition near_best :: "InstanceInfo list \<Rightarrow> InstanceInfo \<Rightarrow> bool" where
  "near_best available i \<longleftrightarrow>
    (\<forall>j \<in> set available. dispatch_load_metric i \<le> dispatch_load_metric j + Fin (1 / 10))"

lemma le_add_tenth:
  "a \<le> b + Fin t \<Longrightarrow> b \<le> c \<Longrightarrow> a \<le> c + Fin t"
  by (cases a; cases b; cases c) auto

lemma affinity_choice_near_best:
  assumes "\<And>i. i \<in> set available \<Longrightarrow> dispatch_load_metric i \<noteq> NaN" and "h \<noteq> []"
    and "i \<in> set available" and "near_best available i" and "0 < affinity h i"
  shows "\<exists>hit. affinity_choice available (Some h) = Inr hit \<and> near_best available hit
    \<and> (\<forall>j \<in> set available. near_best available j \<longrightarrow> affinity h j \<le> affinity h hit)"
proof -
  have cached: "filter (\<lambda>i. kv_cache_block_hashes i \<noteq> {}) available \<noteq> []"
    using assms(3,5) by (force simp: affinity_def filter_empty_conv card_gt_0_iff)
  obtain b where b: "py_min_by dispatch_load_metric available = Inr b"
    using assms(3) py_min_by_ok[of dispatch_load_metric available] by (auto simp: is_ok_iff)
  have b_in: "b \<in> set available" using py_min_by_in[OF b] .
  let ?near = "\<lambda>i. dispatch_load_metric i \<le> dispatch_load_metric b + Fin (1 / 10)"
  have near: "near_best available j \<longleftrightarrow> ?near j" for j
    using b_in py_min_by_pynum_lower[OF b _ assms(1)] le_add_tenth by (auto simp: near_best_def)
  obtain n ns where ns: "filter ?near available = n # ns"
    using assms(3,4) near by (cases "filter ?near available") (auto simp: filter_empty_conv)
  define hit where "hit = py_best (hit_less h) n ns"
  have upper: "affinity h j \<le> affinity h hit" if "j \<in> set available" "near_best available j" for j
  proof -
    have "j \<in> set (n # ns)" using that near by (simp flip: ns)
    then show ?thesis unfolding hit_def by (intro py_best_weak_upper) (auto dest: hit_less_affinity)
  qed
  have "hit \<in> set (filter ?near available)" unfolding ns hit_def by (rule py_best_in)
  then have "near_best available hit" using near by simp
  moreover have "0 < affinity h hit" using upper[OF assms(3,4)] assms(5) by simp
  moreover have "affinity_choice available (Some h) = Inr hit"
    using assms(2) cached b ns \<open>0 < affinity h hit\<close>
    by (cases h) (auto simp: affinity_choice_def hit_def Let_def)
  ultimately show ?thesis using upper by blast
qed

subsection \<open>The scheduler\<close>

abbreviation pool_infos :: "DispatchScheduler \<Rightarrow> string set \<Rightarrow> InstanceInfo list" where
  "pool_infos s ids \<equiv> filter (\<lambda>i. instance_id i \<in> ids) (dvalues (ds_instance_info s))"

text \<open>The state after a successful dispatch to \<open>x\<close>: one request more, in total and for \<open>x\<close>.\<close>

definition counted :: "DispatchScheduler \<Rightarrow> DispatchPolicy \<Rightarrow> string \<Rightarrow> DispatchScheduler" where
  "counted s policy x = s\<lparr>total_num_requests := total_num_requests s + 1, dispatch_policy := policy,
     instance_num_requests := dset x (dget_default (instance_num_requests s) x 0 + 1)
       (instance_num_requests s)\<rparr>"

lemma dispatch_candidates_empty:
  "pool_infos s ids = [] \<Longrightarrow>
    dispatch_candidates s ids h r = (Inl (RuntimeError ''no dispatch candidates are available''), s)"
  by (simp add: dispatch_candidates_def Let_def)

lemma dispatch_candidates_hit:
  "pool_infos s ids \<noteq> [] \<Longrightarrow> affinity_choice (pool_infos s ids) h = Inr hit \<Longrightarrow>
    dispatch_candidates s ids h r = (Inr (instance_id hit), counted s (dispatch_policy s) (instance_id hit))"
  by (simp add: dispatch_candidates_def Let_def counted_def)

lemma dispatch_candidates_policy:
  "pool_infos s ids \<noteq> [] \<Longrightarrow> affinity_choice (pool_infos s ids) h = Inl pool \<Longrightarrow>
    policy_dispatch (dispatch_policy s) (instance_num_requests s) (Infos pool) (topk_random_dispatch s) r
      = (res, policy) \<Longrightarrow>
    dispatch_candidates s ids h r =
      (case res of Inl e \<Rightarrow> (Inl e, s\<lparr>total_num_requests := total_num_requests s + 1, dispatch_policy := policy\<rparr>)
       | Inr x \<Rightarrow> (Inr x, counted s policy x))"
  by (simp add: dispatch_candidates_def Let_def counted_def split: sum.split)

context pool_policy
begin

lemma candidates_outcome:
  assumes "dispatch_policy s = P" and "0 < topk_random_dispatch s" and "pool_infos s ids \<noteq> []"
  shows "\<exists>x. x \<in> instance_id ` set (pool_infos s ids)
    \<and> dispatch_candidates s ids h r = (Inr x, counted s P x)"
proof (cases "affinity_choice (pool_infos s ids) h")
  case (Inr hit)
  then show ?thesis
    using affinity_choice_hit[OF Inr] dispatch_candidates_hit[OF assms(3) Inr] assms(1) by auto
next
  case (Inl pool)
  obtain res policy where pd: "policy_dispatch (dispatch_policy s) (instance_num_requests s) (Infos pool)
      (topk_random_dispatch s) r = (res, policy)" by fastforce
  have pool: "set pool \<subseteq> set (pool_infos s ids)" "pool \<noteq> []"
    using affinity_choice_pool[OF Inl] assms(3) by auto
  have "policy = P" using pick_keeps pd assms(1) by (metis snd_conv)
  moreover obtain x where "res = Inr x"
    using pick_ok[OF pool(2) assms(2)] pd assms(1) by (metis fst_conv is_ok_iff)
  moreover from this have "x \<in> instance_id ` set pool"
    using pick_in_pool pd assms(1) by (metis fst_conv)
  ultimately show ?thesis
    using dispatch_candidates_policy[OF assms(3) Inl pd] pool(1) by auto
qed

end

lemma pool_candidates_succeed:
  assumes "dispatch_policy s \<in> {Load, Queue}" and "0 < topk_random_dispatch s" and "pool_infos s ids \<noteq> []"
  shows "\<exists>x. x \<in> instance_id ` set (pool_infos s ids)
    \<and> dispatch_candidates s ids h r = (Inr x, counted s (dispatch_policy s) x)"
  using load_policy.candidates_outcome[OF _ assms(2,3)] queue_policy.candidates_outcome[OF _ assms(2,3)]
    assms(1) by auto

context counter_policy
begin

lemma candidates_in_counts:
  assumes "dispatch_policy s = P" and "fst (dispatch_candidates s ids None r) = Inr x"
  shows "dmem x (instance_num_requests s)"
proof -
  have ne: "pool_infos s ids \<noteq> []" using assms(2) dispatch_candidates_empty by fastforce
  obtain res policy where pd: "policy_dispatch (dispatch_policy s) (instance_num_requests s)
      (Infos (pool_infos s ids)) (topk_random_dispatch s) r = (res, policy)" by fastforce
  have "res = Inr x"
    using dispatch_candidates_policy[OF ne _ pd, of None] assms(2)
    by (auto simp: affinity_choice_def split: sum.splits)
  then show ?thesis using pick_in_counts[of "instance_num_requests s"] pd assms(1) by (metis fst_conv)
qed

end

lemma sorted_filter_less:
  fixes key :: "'a \<Rightarrow> pynum"
  assumes "sorted_wrt (\<lambda>a b. key a \<le> key b) ys" and "m < length ys"
  shows "length (filter (\<lambda>j. key j < key (ys ! m)) ys) \<le> m"
proof -
  have "\<not> key j < key (ys ! m)" if j: "j \<in> set (drop m ys)" for j
  proof -
    obtain n where "n < length (drop m ys)" "j = drop m ys ! n" using j by (auto simp: in_set_conv_nth)
    then have n: "m + n < length ys" "j = ys ! (m + n)" by auto
    show ?thesis
    proof (cases n)
      case 0
      with n show ?thesis by simp
    next
      case (Suc _)
      then have "key (ys ! m) \<le> key j"
        using sorted_wrt_nth_less[OF assms(1), of m "m + n"] n by simp
      then show ?thesis by (rule pn_le_not_less)
    qed
  qed
  then have "filter (\<lambda>j. key j < key (ys ! m)) (drop m ys) = []" by (simp add: filter_empty_conv)
  then have "filter (\<lambda>j. key j < key (ys ! m)) ys = filter (\<lambda>j. key j < key (ys ! m)) (take m ys)"
    by (metis append_Nil2 append_take_drop_id filter_append)
  then have "length (filter (\<lambda>j. key j < key (ys ! m)) ys) \<le> length (take m ys)"
    by (metis length_filter_le)
  then show ?thesis by simp
qed

lemma length_filter_py_sorted: "length (filter P (py_sorted key xs)) = length (filter P xs)"
  by (metis mset_filter py_sorted_simps(1) size_mset)

lemma random_choice_rank:
  assumes "random_choice_from_top_k ys k r = Inr i" and "0 \<le> k"
  shows "\<exists>m. int m < k \<and> m < length ys \<and> i = ys ! m"
proof -
  let ?n = "nat (min k (int (length ys)))"
  have i: "i = take ?n ys ! (r mod length (take ?n ys))" and ne: "take ?n ys \<noteq> []"
    using assms
    by (auto simp: random_choice_from_top_k_def py_choice_def py_take_def Let_def split: if_splits)
  have m: "r mod length (take ?n ys) < length (take ?n ys)"
    using ne by (metis length_greater_0_conv mod_less_divisor)
  then have "r mod length (take ?n ys) < ?n" "r mod length (take ?n ys) < length ys" by simp_all
  moreover have "int ?n \<le> k" using assms(2) by simp
  moreover have "i = ys ! (r mod length (take ?n ys))" using i m by simp
  ultimately show ?thesis by (intro exI[of _ "r mod length (take ?n ys)"]) linarith
qed

lemma dispatch_load_rank:
  assumes "dispatch_by dispatch_load_metric (Infos p) k r = Inr x" and "0 \<le> k"
    and "\<And>i. i \<in> set p \<Longrightarrow> dispatch_load_metric i \<noteq> NaN"
  shows "\<exists>i \<in> set p. x = instance_id i
    \<and> int (length (filter (\<lambda>j. dispatch_load_metric j < dispatch_load_metric i) p)) < k"
proof -
  let ?ys = "py_sorted dispatch_load_metric p"
  obtain i where i: "random_choice_from_top_k ?ys k r = Inr i" "x = instance_id i"
    using assms(1) by (auto simp: dispatch_by_def sort_instance_infos_def res_bind_Inr_iff)
  obtain m where m: "int m < k" "m < length ?ys" "i = ?ys ! m"
    using random_choice_rank[OF i(1) assms(2)] by blast
  have "length (filter (\<lambda>j. dispatch_load_metric j < dispatch_load_metric i) ?ys) \<le> m"
    unfolding m(3) by (rule sorted_filter_less) (use py_sorted_pynum assms(3) m in auto)
  then have "int (length (filter (\<lambda>j. dispatch_load_metric j < dispatch_load_metric i) p)) < k"
    using m(1) by (simp add: length_filter_py_sorted)
  moreover have "i \<in> set p" using random_choice_from_top_k_in[OF i(1)] by simp
  ultimately show ?thesis using i(2) by blast
qed

text \<open>Repeated constrained dispatch with no cached prefix, one draw per request.\<close>

fun dispatch_run :: "DispatchScheduler \<Rightarrow> string set \<Rightarrow> nat list \<Rightarrow> string res list \<times> DispatchScheduler" where
  "dispatch_run s ids [] = ([], s)"
| "dispatch_run s ids (r # rs) =
    (let (x, s) = dispatch_candidates s ids None r;
         (xs, s) = dispatch_run s ids rs in (x # xs, s))"

lemma dset_keys_present: "dmem x d \<Longrightarrow> dkeys (dset x v d) = dkeys d"
  by (induction d) auto

lemma round_robin_step:
  assumes "dispatch_policy s = RoundRobin prev" and "pool_infos s ids \<noteq> []"
    and "instance_num_requests s \<noteq> []"
  defines "names \<equiv> py_sorted id (dkeys (instance_num_requests s))"
  defines "cur \<equiv> (prev + 1) mod int (length names)"
  shows "dispatch_candidates s ids None r = (Inr (names ! nat cur), counted s (RoundRobin cur) (names ! nat cur))"
    and "dkeys (instance_num_requests (counted s (RoundRobin cur) (names ! nat cur)))
       = dkeys (instance_num_requests s)"
proof -
  have pd: "policy_dispatch (dispatch_policy s) (instance_num_requests s) (Infos (pool_infos s ids))
      (topk_random_dispatch s) r = (Inr (names ! nat cur), RoundRobin cur)"
    using assms by (simp add: Let_def)
  then show "dispatch_candidates s ids None r = (Inr (names ! nat cur), counted s (RoundRobin cur) (names ! nat cur))"
    using dispatch_candidates_policy[OF assms(2) _ pd, of None] by (simp add: affinity_choice_def)
  have "dmem (names ! nat cur) (instance_num_requests s)"
    using round_robin_in_counts[of prev "instance_num_requests s"] pd assms(1) by (metis fst_conv)
  then show "dkeys (instance_num_requests (counted s (RoundRobin cur) (names ! nat cur)))
       = dkeys (instance_num_requests s)"
    by (simp add: counted_def dset_keys_present)
qed

lemma round_robin_run:
  assumes "dispatch_policy s = RoundRobin prev" and "pool_infos s ids \<noteq> []"
    and "instance_num_requests s \<noteq> []"
  defines "names \<equiv> py_sorted id (dkeys (instance_num_requests s))"
  shows "fst (dispatch_run s ids rs) =
    map (\<lambda>j. Inr (names ! nat ((prev + 1 + int j) mod int (length names)))) [0..<length rs]"
  using assms(1-3) unfolding names_def
proof (induction rs arbitrary: s prev)
  case Nil
  then show ?case by simp
next
  case (Cons r rs)
  let ?names = "py_sorted id (dkeys (instance_num_requests s))"
  let ?n = "int (length ?names)"
  let ?cur = "(prev + 1) mod ?n"
  let ?t = "counted s (RoundRobin ?cur) (?names ! nat ?cur)"
  note step = round_robin_step[OF Cons.prems]
  have keys: "dkeys (instance_num_requests ?t) = dkeys (instance_num_requests s)" by (rule step(2))
  have pol: "dispatch_policy ?t = RoundRobin ?cur" by (simp add: counted_def)
  have pool: "pool_infos ?t ids \<noteq> []" using Cons.prems(2) by (simp add: counted_def)
  have ne: "instance_num_requests ?t \<noteq> []" using Cons.prems(3) keys by (metis map_is_Nil_conv)
  have IH: "fst (dispatch_run ?t ids rs) =
      map (\<lambda>j. Inr (?names ! nat ((?cur + 1 + int j) mod ?n))) [0..<length rs]"
    by (rule Cons.IH[OF pol pool ne, unfolded keys])
  have shift: "(?cur + 1 + int j) mod ?n = (prev + 1 + int (Suc j)) mod ?n" for j
    using mod_add_left_eq[of "prev + 1" ?n "1 + int j"] by (simp only: of_nat_Suc add.assoc)
  have "fst (dispatch_run s ids (r # rs)) = Inr (?names ! nat ?cur) # fst (dispatch_run ?t ids rs)"
    using step(1)[of r] by (simp add: case_prod_unfold Let_def)
  also have "\<dots> = map (\<lambda>j. Inr (?names ! nat ((prev + 1 + int j) mod ?n))) [0..<length (r # rs)]"
    unfolding IH shift by (simp add: upt_conv_Cons map_Suc_upt[symmetric] del: upt_Suc)
  finally show ?case .
qed

lemma cyclic_indices:
  assumes "xs \<noteq> []"
  shows "map (\<lambda>j. xs ! nat ((a + int j) mod int (length xs))) [0..<length xs]
    = rotate (nat (a mod int (length xs))) xs"
proof (rule nth_equalityI)
  fix j assume "j < length (map (\<lambda>j. xs ! nat ((a + int j) mod int (length xs))) [0..<length xs])"
  then have j: "j < length xs" by simp
  have "nat ((a + int j) mod int (length xs)) = (nat (a mod int (length xs)) + j) mod length xs"
  proof -
    have "int (nat ((a + int j) mod int (length xs))) = (a mod int (length xs) + int j) mod int (length xs)"
      using assms by (simp add: mod_simps)
    also have "\<dots> = int ((nat (a mod int (length xs)) + j) mod length xs)"
      using assms by (simp add: zmod_int)
    finally show ?thesis by (simp only: of_nat_eq_iff)
  qed
  then show "map (\<lambda>j. xs ! nat ((a + int j) mod int (length xs))) [0..<length xs] ! j
      = rotate (nat (a mod int (length xs))) xs ! j"
    using j by (simp add: nth_rotate)
qed simp

lemma mset_rotate': "mset (rotate n xs) = mset xs"
  by (metis append_take_drop_id mset_append rotate_drop_take union_commute)

subsection \<open>The accounting invariant\<close>

datatype ds_event =
    EvDispatch "block_hash list option" nat
  | EvCandidates "string set" "block_hash list option" nat
  | EvUpdate "(string, InstanceInfo) dict"
  | EvAdd string InstanceType
  | EvRemove string

fun ds_step :: "DispatchScheduler \<Rightarrow> ds_event \<Rightarrow> DispatchScheduler" where
  "ds_step s (EvDispatch h r) = snd (ds_dispatch s h r)"
| "ds_step s (EvCandidates ids h r) = snd (dispatch_candidates s ids h r)"
| "ds_step s (EvUpdate infos) = ds_update_instance_infos s infos"
| "ds_step s (EvAdd x t) = ds_add_instance s x t"
| "ds_step s (EvRemove x) = ds_remove_instance s x"

definition ds_inv :: "DispatchScheduler \<Rightarrow> bool" where
  "ds_inv s \<longleftrightarrow>
     distinct (dkeys (ds_instance_info s)) \<and> distinct (dkeys (instance_num_requests s))
   \<and> available_dispatch_instance_set s \<subseteq> set (dkeys (instance_num_requests s))
   \<and> (\<forall>v \<in> set (dvalues (instance_num_requests s)). 0 \<le> v)
   \<and> sum_list (dvalues (instance_num_requests s)) \<le> total_num_requests s"

lemma sum_dset: "sum_list (dvalues (dset x (dget_default d x 0 + n) d)) = sum_list (dvalues d) + (n :: int)"
  by (induction d) (auto simp: dget_default_def)

lemma sum_dset_le:
  "\<forall>v \<in> set (dvalues d). 0 \<le> v \<Longrightarrow> sum_list (dvalues (dset x 0 d)) \<le> (sum_list (dvalues d) :: int)"
  by (induction d) auto

lemma sum_dpop_le:
  "\<forall>v \<in> set (dvalues d). 0 \<le> v \<Longrightarrow> sum_list (dvalues (dpop x d)) \<le> (sum_list (dvalues d) :: int)"
  by (induction d) auto

lemma dset_nonneg:
  "\<forall>p \<in> set d. 0 \<le> snd p \<Longrightarrow> 0 \<le> v \<Longrightarrow> p \<in> set (dset x v d) \<Longrightarrow> 0 \<le> (snd p :: int)"
  by (induction d) (auto split: if_splits)

lemma dpop_nonneg:
  "\<forall>p \<in> set d. 0 \<le> snd p \<Longrightarrow> p \<in> set (dpop x d) \<Longrightarrow> 0 \<le> (snd p :: int)"
  by (induction d) (auto split: if_splits)

lemma dget_default_nonneg:
  "\<forall>v \<in> set (dvalues d). 0 \<le> v \<Longrightarrow> 0 \<le> dget_default d x (0 :: int)"
  by (auto simp: dget_default_def split: option.split dest!: map_of_SomeD)

lemma counted_inv: "ds_inv s \<Longrightarrow> ds_inv (counted s p x)"
  using dget_default_nonneg[of "instance_num_requests s" x]
  unfolding ds_inv_def counted_def
  by (auto simp: distinct_dset sum_dset dkeys_dset dest: dset_nonneg[rotated 2])

lemma ds_inv_policy: "ds_inv s \<Longrightarrow> ds_inv (s\<lparr>dispatch_policy := p\<rparr>)"
  by (simp add: ds_inv_def)

lemma ds_inv_total: "ds_inv s \<Longrightarrow>
  ds_inv (s\<lparr>total_num_requests := total_num_requests s + 1, dispatch_policy := p\<rparr>)"
  by (simp add: ds_inv_def)

lemma dispatch_candidates_inv: "ds_inv s \<Longrightarrow> ds_inv (snd (dispatch_candidates s ids h r))"
proof (cases "pool_infos s ids = []")
  case False
  assume inv: "ds_inv s"
  show ?thesis
  proof (cases "affinity_choice (pool_infos s ids) h")
    case (Inr hit)
    then show ?thesis using dispatch_candidates_hit[OF False Inr] inv counted_inv by simp
  next
    case (Inl pool)
    obtain res policy where pd: "policy_dispatch (dispatch_policy s) (instance_num_requests s) (Infos pool)
      (topk_random_dispatch s) r = (res, policy)" by fastforce
    then show ?thesis
      using dispatch_candidates_policy[OF False Inl pd] inv counted_inv ds_inv_total
      by (simp split: sum.split)
  qed
qed (simp add: dispatch_candidates_empty)

lemma ds_dispatch_inv: "ds_inv s \<Longrightarrow> ds_inv (snd (ds_dispatch s h r))"
  by (simp add: ds_dispatch_def dispatch_candidates_inv ds_inv_policy Let_def case_prod_unfold)

lemma ds_update_inv: "ds_inv s \<Longrightarrow> ds_inv (ds_update_instance_infos s infos)"
  by (simp add: ds_inv_def ds_update_instance_infos_def distinct_dupdate)

lemma ds_add_inv: "ds_inv s \<Longrightarrow> ds_inv (ds_add_instance s x t)"
  using sum_dset_le[of "instance_num_requests s" x]
  unfolding ds_inv_def ds_add_instance_def
  by (auto simp: distinct_dset dkeys_dset dest: dset_nonneg[rotated 2])

lemma ds_remove_inv: "ds_inv s \<Longrightarrow> ds_inv (ds_remove_instance s x)"
  using sum_dpop_le[of "instance_num_requests s" x]
  unfolding ds_inv_def ds_remove_instance_def Let_def
  by (auto simp: distinct_dpop dkeys_dpop dest: dpop_nonneg[rotated])

interpretation ds_machine: invariant_machine ds_step ds_inv
proof unfold_locales
  fix s e assume "ds_inv s"
  then show "ds_inv (ds_step s e)"
    by (cases e) (auto intro: ds_dispatch_inv dispatch_candidates_inv ds_update_inv ds_add_inv ds_remove_inv)
qed

lemma init_ds_inv: "init_DispatchScheduler policy topk = Inr s \<Longrightarrow> ds_inv s"
  by (auto simp: init_DispatchScheduler_def ds_inv_def res_bind_Inr_iff)

subsection \<open>Properties\<close>

text \<open>
  Under the policies that read the candidates' reports (load, queue), a constrained
  dispatch either finds no report in the pool, raises and changes nothing, or returns an
  id of the pool that has a report, and counts exactly one request for it.
\<close>

theorem dispatch_candidates_outcome:
  assumes "dispatch_policy s \<in> {Load, Queue}" and "0 < topk_random_dispatch s"
  shows "(pool_infos s ids = [] \<and> dispatch_candidates s ids h r
            = (Inl (RuntimeError ''no dispatch candidates are available''), s))
       \<or> (\<exists>x. x \<in> ids \<and> x \<in> instance_id ` set (dvalues (ds_instance_info s))
            \<and> dispatch_candidates s ids h r = (Inr x, counted s (dispatch_policy s) x))"
proof (cases "pool_infos s ids = []")
  case True
  then show ?thesis by (simp add: dispatch_candidates_empty)
next
  case False
  from pool_candidates_succeed[OF assms False, of h r] obtain x where
    "x \<in> instance_id ` set (pool_infos s ids)"
    "dispatch_candidates s ids h r = (Inr x, counted s (dispatch_policy s) x)" by blast
  then show ?thesis by auto
qed

theorem dispatch_candidates_outcome_witness:
  "let s = \<lparr>dispatch_policy = Load, topk_random_dispatch = 1, available_dispatch_instance_set = {''a'', ''b''},
        ds_instance_info = [(''a'', default_InstanceInfo\<lparr>instance_id := ''a''\<rparr>),
          (''b'', default_InstanceInfo\<lparr>instance_id := ''b''\<rparr>)],
        total_num_requests = 0, instance_num_requests = [(''a'', 0), (''b'', 0)]\<rparr>
   in \<exists>x. x \<in> {''b''} \<and> dispatch_candidates s {''b''} None 0 = (Inr x, counted s Load x)"
  using dispatch_candidates_outcome[of
      "\<lparr>dispatch_policy = Load, topk_random_dispatch = 1, available_dispatch_instance_set = {''a'', ''b''},
        ds_instance_info = [(''a'', default_InstanceInfo\<lparr>instance_id := ''a''\<rparr>),
          (''b'', default_InstanceInfo\<lparr>instance_id := ''b''\<rparr>)],
        total_num_requests = 0, instance_num_requests = [(''a'', 0), (''b'', 0)]\<rparr>" "{''b''}" None 0]
  by (auto simp: Let_def)



text \<open>
  The load policy with no cached prefix sends the request to an instance of the pool
  that fewer than \<open>topk_random_dispatch\<close> instances of the pool are strictly less loaded
  than; with the default of one it is a least loaded instance.
\<close>

theorem dispatch_load_among_least_loaded:
  assumes "dispatch_policy s = Load" and "0 \<le> topk_random_dispatch s"
    and "\<forall>i \<in> set (pool_infos s ids). dispatch_load_metric i \<noteq> NaN"
    and "fst (dispatch_candidates s ids None r) = Inr x"
  shows "\<exists>i \<in> set (pool_infos s ids). x = instance_id i
    \<and> int (length (filter (\<lambda>j. dispatch_load_metric j < dispatch_load_metric i) (pool_infos s ids)))
        < topk_random_dispatch s"
proof -
  have ne: "pool_infos s ids \<noteq> []" using assms(4) dispatch_candidates_empty by fastforce
  have "dispatch_by dispatch_load_metric (Infos (pool_infos s ids)) (topk_random_dispatch s) r = Inr x"
    using dispatch_candidates_policy[OF ne, of None "pool_infos s ids" r] assms(1,4)
    by (auto simp: affinity_choice_def split: sum.splits)
  then show ?thesis using dispatch_load_rank[OF _ assms(2)] assms(3) by blast
qed

theorem dispatch_load_among_least_loaded_witness:
  "let a = default_InstanceInfo\<lparr>instance_id := ''a'', dispatch_load_metric := Fin 2\<rparr>;
       b = default_InstanceInfo\<lparr>instance_id := ''b'', dispatch_load_metric := Fin 1\<rparr>;
       s = \<lparr>dispatch_policy = Load, topk_random_dispatch = 1, available_dispatch_instance_set = {''a'', ''b''},
         ds_instance_info = [(''a'', a), (''b'', b)], total_num_requests = 0,
         instance_num_requests = [(''a'', 0), (''b'', 0)]\<rparr>
   in \<exists>i \<in> set [a, b]. ''b'' = instance_id i
     \<and> length (filter (\<lambda>j. dispatch_load_metric j < dispatch_load_metric i) [a, b]) < 1"
  using dispatch_load_among_least_loaded[of
      "\<lparr>dispatch_policy = Load, topk_random_dispatch = 1, available_dispatch_instance_set = {''a'', ''b''},
        ds_instance_info = [(''a'', default_InstanceInfo\<lparr>instance_id := ''a'', dispatch_load_metric := Fin 2\<rparr>),
          (''b'', default_InstanceInfo\<lparr>instance_id := ''b'', dispatch_load_metric := Fin 1\<rparr>)],
        total_num_requests = 0, instance_num_requests = [(''a'', 0), (''b'', 0)]\<rparr>" "{''a'', ''b''}" 0 "''b''"]
  by (simp add: Let_def dispatch_candidates_def affinity_choice_def dispatch_by_def
      sort_instance_infos_def py_sorted_def stable_sort_def random_choice_from_top_k_def
      py_take_def py_choice_def)





text \<open>
  The policies that only read the dispatch counters (flood, balanced, round robin)
  ignore the pool of a constrained dispatch. When no candidate has a counter, as for
  decode instances, which registration does not count, every result lies outside the
  pool that was asked for.
\<close>

theorem counter_policies_escape_pool:
  assumes "dispatch_policy s \<in> {Flood, Balanced} \<union> range RoundRobin"
    and "ids \<inter> set (dkeys (instance_num_requests s)) = {}"
    and "fst (dispatch_candidates s ids None r) = Inr x"
  shows "x \<notin> ids"
proof -
  have "dmem x (instance_num_requests s)"
    using assms(1,3) flood_policy.candidates_in_counts balanced_policy.candidates_in_counts
      round_robin_policy.candidates_in_counts by (auto simp del: set_map)
  with assms(2) show ?thesis by auto
qed

theorem counter_policies_escape_pool_witness:
  "let s = \<lparr>dispatch_policy = Balanced, topk_random_dispatch = 1, available_dispatch_instance_set = {''p''},
        ds_instance_info = [(''p'', default_InstanceInfo\<lparr>instance_id := ''p''\<rparr>),
          (''d'', default_InstanceInfo\<lparr>instance_id := ''d''\<rparr>)],
        total_num_requests = 0, instance_num_requests = [(''p'', 0)]\<rparr>
   in fst (dispatch_candidates s {''d''} None 0) = Inr ''p'' \<and> ''p'' \<notin> {''d''}"
  using counter_policies_escape_pool[of "\<lparr>dispatch_policy = Balanced, topk_random_dispatch = 1,
        available_dispatch_instance_set = {''p''},
        ds_instance_info = [(''p'', default_InstanceInfo\<lparr>instance_id := ''p''\<rparr>),
          (''d'', default_InstanceInfo\<lparr>instance_id := ''d''\<rparr>)],
        total_num_requests = 0, instance_num_requests = [(''p'', 0)]\<rparr>" "{''d''}" 0 "''p''"]
  by (simp add: Let_def dispatch_candidates_def affinity_choice_def py_min_by_def)

text \<open>
  A decode instance that was once chosen for a cached prefix keeps its counter after
  it is removed, so a counter-based policy can dispatch the next ordinary request to an
  instance that no longer exists.
\<close>

theorem removed_decode_instance_dispatched:
  "let s = \<lparr>dispatch_policy = RoundRobin 1, topk_random_dispatch = 1, available_dispatch_instance_set = {''p''},
        ds_instance_info = [(''p'', default_InstanceInfo\<lparr>instance_id := ''p''\<rparr>),
          (''d'', default_InstanceInfo\<lparr>instance_id := ''d'', kv_cache_block_hashes := {HashInt 7}\<rparr>)],
        total_num_requests = 0, instance_num_requests = [(''p'', 0)]\<rparr>;
       s = snd (dispatch_candidates s {''d''} (Some [HashInt 7]) 0);
       s = ds_remove_instance s ''d''
   in fst (ds_dispatch s None 0) = Inr ''d'' \<and> \<not> dmem ''d'' (ds_instance_info s)
      \<and> ''d'' \<notin> available_dispatch_instance_set s"
  by (simp add: Let_def dispatch_candidates_def affinity_choice_def affinity_def py_min_by_def
      ds_remove_instance_def ds_dispatch_def py_sorted_def stable_sort_def default_InstanceInfo_def)

end
