(* ===== verification/Migration_Pairing.thy ===== *)
theory Migration_Pairing
  imports Instance_Info
begin

text \<open>
  Which instances exchange requests: the filters of \<open>global_scheduler/migration_filter.py\<close>,
  the pairing policies of \<open>migration_policy.py\<close>, the \<open>MigrationScheduler\<close> and the
  capability gate \<open>V1MigrationScheduler\<close> in front of it.
\<close>

datatype PairMigrationConstraints = PM_NO_CONSTRAINTS | DECODING_2_DECODING | PREFILL_2_DECODING

subsection \<open>Filters\<close>

datatype MigrationFilterPolicy =
    LoadFilter
  | PddFilter
  | CustomFilter (src_filter: "InstanceInfo \<Rightarrow> bool") (dst_filter: "InstanceInfo \<Rightarrow> bool")

type_synonym MigrationFilterConfig = pynum

definition load_src_condition :: "MigrationFilterConfig \<Rightarrow> InstanceInfo \<Rightarrow> bool" where
  "load_src_condition threshold i \<longleftrightarrow> num_killed_requests i > 0 \<or> migration_load_metric i > threshold"

definition load_dst_condition :: "MigrationFilterConfig \<Rightarrow> InstanceInfo \<Rightarrow> bool" where
  "load_dst_condition threshold i \<longleftrightarrow> num_killed_requests i = 0 \<and> migration_load_metric i < threshold"

fun instance_filter_rules :: "PairMigrationConstraints \<Rightarrow> (InstanceType \<times> InstanceType) res" where
  "instance_filter_rules DECODING_2_DECODING = Inr (DECODE, DECODE)"
| "instance_filter_rules PREFILL_2_DECODING = Inr (PREFILL, DECODE)"
| "instance_filter_rules PM_NO_CONSTRAINTS = Inl KeyError"

fun filter_src_condition ::
  "MigrationFilterPolicy \<Rightarrow> MigrationFilterConfig \<Rightarrow> PairMigrationConstraints \<Rightarrow> (InstanceInfo \<Rightarrow> bool) res" where
  "filter_src_condition LoadFilter cfg t = Inr (load_src_condition cfg)"
| "filter_src_condition PddFilter cfg t =
    res_bind (instance_filter_rules t) (\<lambda>(src_type, _).
      Inr (\<lambda>i. instance_type i = Some src_type
        \<and> (if t = DECODING_2_DECODING then load_src_condition cfg i else True)))"
| "filter_src_condition (CustomFilter src dst) cfg t = Inr src"

fun filter_dst_condition ::
  "MigrationFilterPolicy \<Rightarrow> MigrationFilterConfig \<Rightarrow> PairMigrationConstraints \<Rightarrow> (InstanceInfo \<Rightarrow> bool) res" where
  "filter_dst_condition LoadFilter cfg t = Inr (load_dst_condition cfg)"
| "filter_dst_condition PddFilter cfg t =
    res_bind (instance_filter_rules t) (\<lambda>(_, dst_type).
      Inr (\<lambda>i. instance_type i = Some dst_type
        \<and> (if t = DECODING_2_DECODING then load_dst_condition cfg i else num_killed_requests i = 0)))"
| "filter_dst_condition (CustomFilter src dst) cfg t = Inr dst"

definition init_CustomFilter :: MigrationFilterPolicy where
  "init_CustomFilter = CustomFilter (\<lambda>_. True) (\<lambda>_. True)"

text \<open>Only a custom filter has conditions to set; the other classes have no such method.\<close>

fun set_filter_condtition ::
  "MigrationFilterPolicy \<Rightarrow> (InstanceInfo \<Rightarrow> bool) option \<Rightarrow> (InstanceInfo \<Rightarrow> bool) option \<Rightarrow> MigrationFilterPolicy res" where
  "set_filter_condtition (CustomFilter src dst) new_src new_dst =
    Inr (CustomFilter (case new_src of None \<Rightarrow> src | Some f \<Rightarrow> f)
                      (case new_dst of None \<Rightarrow> dst | Some f \<Rightarrow> f))"
| "set_filter_condtition _ _ _ = Inl AttributeError"

definition get_filter_policy :: "string \<Rightarrow> MigrationFilterPolicy res" where
  "get_filter_policy name =
    (if name = ''load'' then Inr LoadFilter
     else if name = ''pdd'' then Inr PddFilter
     else if name = ''custom'' then Inr init_CustomFilter
     else Inl KeyError)"

record MigrationInstanceFilter =
  filter_config :: MigrationFilterConfig
  registered_filters :: "(string, MigrationFilterPolicy) dict"

definition register_filter ::
  "MigrationInstanceFilter \<Rightarrow> string \<Rightarrow> MigrationFilterPolicy \<Rightarrow> bool \<times> MigrationInstanceFilter" where
  "register_filter f name p =
    (if dmem name (registered_filters f) then (False, f)
     else (True, f\<lparr>registered_filters := dset name p (registered_filters f)\<rparr>))"

definition unregister_filter :: "MigrationInstanceFilter \<Rightarrow> string \<Rightarrow> MigrationInstanceFilter" where
  "unregister_filter f name = f\<lparr>registered_filters := dpop name (registered_filters f)\<rparr>"

definition get_filter :: "MigrationInstanceFilter \<Rightarrow> string \<Rightarrow> MigrationFilterPolicy option" where
  "get_filter f name = dget (registered_filters f) name"

definition policy_filter_name :: "PairMigrationConstraints \<Rightarrow> string" where
  "policy_filter_name t = (if t = PM_NO_CONSTRAINTS then ''load'' else ''pdd'')"

definition filter_instances ::
  "MigrationInstanceFilter \<Rightarrow> InstanceInfo list \<Rightarrow> PairMigrationConstraints \<Rightarrow>
    (InstanceInfo list \<times> InstanceInfo list) res" where
  "filter_instances f infos t =
    res_bind (res_map (\<lambda>p. filter_src_condition p (filter_config f) t) (dvalues (registered_filters f))) (\<lambda>srcs.
    res_bind (res_map (\<lambda>p. filter_dst_condition p (filter_config f) t) (dvalues (registered_filters f))) (\<lambda>dsts.
    res_bind (get_filter_policy (policy_filter_name t)) (\<lambda>p.
    res_bind (filter_src_condition p (filter_config f) t) (\<lambda>src.
    res_bind (filter_dst_condition p (filter_config f) t) (\<lambda>dst.
    Inr (filter (\<lambda>i. \<forall>c \<in> set (srcs @ [src]). c i) infos,
         filter (\<lambda>i. \<forall>c \<in> set (dsts @ [dst]). c i) infos))))))"

subsection \<open>Pairing policies\<close>

datatype PairMigrationPolicy = PairBalanced pynum | PairDefrag pynum

definition get_pair_policy :: "string \<Rightarrow> pynum \<Rightarrow> PairMigrationPolicy res" where
  "get_pair_policy name threshold =
    (if name = ''balanced'' then Inr (PairBalanced threshold)
     else if name = ''defrag'' then Inr (PairDefrag threshold)
     else Inl KeyError)"

definition sort_migration_infos :: "InstanceInfo list \<Rightarrow> bool \<Rightarrow> InstanceInfo list" where
  "sort_migration_infos infos descending =
    (if descending then py_sorted_desc migration_load_metric infos
     else py_sorted migration_load_metric infos)"

definition balanced_pair :: "pynum \<Rightarrow> InstanceInfo \<Rightarrow> InstanceInfo \<Rightarrow> bool" where
  "balanced_pair threshold src dst =
    (let load_diff_before_mig = migration_load_metric src - migration_load_metric dst;
         left_load_after_mig = migration_load_metric_after_migrate_out src;
         right_load_after_mig = migration_load_metric_after_migrate_in dst
     in if right_load_after_mig > threshold then False
        else let load_diff_after_mig = left_load_after_mig - right_load_after_mig
             in (0 < load_diff_after_mig \<and> load_diff_after_mig < load_diff_before_mig)
                \<or> migration_load_metric dst = MInf)"

fun pair_migration ::
  "PairMigrationPolicy \<Rightarrow> InstanceInfo list \<Rightarrow> InstanceInfo list \<Rightarrow> (string \<times> string) list" where
  "pair_migration (PairBalanced threshold) src_infos dst_infos =
    map (\<lambda>(a, b). (instance_id a, instance_id b))
      (filter (\<lambda>(a, b). balanced_pair threshold a b)
        (zip (sort_migration_infos src_infos True) (sort_migration_infos dst_infos False)))"
| "pair_migration (PairDefrag threshold) src_infos dst_infos =
    map (\<lambda>(a, b). (instance_id a, instance_id b))
      (zip (sort_migration_infos src_infos True) (sort_migration_infos dst_infos False))"

subsection \<open>The migration scheduler\<close>

record MigrationScheduler =
  migration_filter :: MigrationInstanceFilter
  pair_migration_policy :: PairMigrationPolicy
  ms_num_instances :: nat
  ms_instance_id_set :: "string set"
  ms_instance_info :: "(string, InstanceInfo) dict option"

definition register_migration_backend_init_filter :: "bool \<Rightarrow> MigrationInstanceFilter \<Rightarrow> MigrationInstanceFilter res" where
  "register_migration_backend_init_filter is_group_kind f =
    res_bind (set_filter_condtition init_CustomFilter (Some (\<lambda>_. \<not> is_group_kind)) (Some (\<lambda>_. \<not> is_group_kind)))
      (\<lambda>p. Inr (snd (register_filter f ''migration_backend_init_filter'' p)))"

definition init_MigrationScheduler :: "string \<Rightarrow> pynum \<Rightarrow> bool \<Rightarrow> MigrationScheduler res" where
  "init_MigrationScheduler policy threshold is_group_kind =
    res_bind (register_migration_backend_init_filter is_group_kind
        \<lparr>filter_config = threshold, registered_filters = []\<rparr>) (\<lambda>f.
    res_bind (get_pair_policy policy threshold) (\<lambda>p.
      Inr \<lparr>migration_filter = f, pair_migration_policy = p, ms_num_instances = 0,
           ms_instance_id_set = {}, ms_instance_info = None\<rparr>))"

definition ms_pair_migration :: "MigrationScheduler \<Rightarrow> PairMigrationConstraints \<Rightarrow> (string \<times> string) list res" where
  "ms_pair_migration s t =
    (case ms_instance_info s of
       None \<Rightarrow> Inl AttributeError
     | Some infos \<Rightarrow>
        res_bind (filter_instances (migration_filter s) (dvalues infos) t)
          (\<lambda>(srcs, dsts). Inr (pair_migration (pair_migration_policy s) srcs dsts)))"

definition ms_update_instance_infos :: "MigrationScheduler \<Rightarrow> (string, InstanceInfo) dict \<Rightarrow> MigrationScheduler" where
  "ms_update_instance_infos s infos = s\<lparr>ms_instance_info := Some infos\<rparr>"

definition ms_add_instance :: "MigrationScheduler \<Rightarrow> string \<Rightarrow> InstanceType \<Rightarrow> MigrationScheduler" where
  "ms_add_instance s x t =
    (let ids = insert x (ms_instance_id_set s)
     in s\<lparr>ms_instance_id_set := ids, ms_num_instances := card ids\<rparr>)"

definition ms_remove_instance :: "MigrationScheduler \<Rightarrow> string \<Rightarrow> MigrationScheduler" where
  "ms_remove_instance s x =
    (let ids = ms_instance_id_set s - {x}
     in s\<lparr>ms_instance_id_set := ids, ms_num_instances := card ids\<rparr>)"

text \<open>
  What the manager does to the backend filter after it has rebuilt a group-kind migration
  backend: only the instances of the new group may migrate.
\<close>

definition ms_allow_only :: "MigrationScheduler \<Rightarrow> string set \<Rightarrow> MigrationScheduler res" where
  "ms_allow_only s alive =
    (case get_filter (migration_filter s) ''migration_backend_init_filter'' of
       None \<Rightarrow> Inl AttributeError
     | Some f \<Rightarrow>
        res_bind (set_filter_condtition f (Some (\<lambda>i. instance_id i \<in> alive)) (Some (\<lambda>i. instance_id i \<in> alive)))
          (\<lambda>g. Inr (s\<lparr>migration_filter := (migration_filter s)\<lparr>registered_filters :=
                 dset ''migration_backend_init_filter'' g (registered_filters (migration_filter s))\<rparr>\<rparr>)))"

subsection \<open>The V1 capability gate\<close>

definition v1_required_migration_capabilities :: "string set" where
  "v1_required_migration_capabilities = {''token_boundary_freeze'', ''kv_snapshot'', ''native_nccl''}"

definition v1_migration_capable :: "InstanceInfo \<Rightarrow> string set \<Rightarrow> bool" where
  "v1_migration_capable i required =
    ((if required = {} then v1_required_migration_capabilities else required) \<subseteq> migration_capabilities i)"

definition v1_migration_compatibility_key :: "InstanceInfo \<Rightarrow> int \<times> string \<times> string \<times> string" where
  "v1_migration_compatibility_key i =
    (migration_protocol_version i, migration_kv_layout_version i, device_class i, corex_stack i)"

type_synonym compatibility_key = "int \<times> string \<times> string \<times> string"

record V1MigrationScheduler =
  v1_pair_migration_policy :: string
  v1_migrate_out_load_threshold :: pynum
  required_capabilities :: "string set"
  group_schedulers :: "(compatibility_key, MigrationScheduler) dict"

definition init_V1MigrationScheduler :: "string \<Rightarrow> pynum \<Rightarrow> string set \<Rightarrow> V1MigrationScheduler" where
  "init_V1MigrationScheduler policy threshold required =
    \<lparr>v1_pair_migration_policy = policy, v1_migrate_out_load_threshold = threshold,
     required_capabilities = (if required = {} then v1_required_migration_capabilities else required),
     group_schedulers = []\<rparr>"

fun v1_group :: "(compatibility_key, (string, InstanceInfo) dict) dict \<Rightarrow> (string, InstanceInfo) dict \<Rightarrow>
    (compatibility_key, (string, InstanceInfo) dict) dict" where
  "v1_group grouped [] = grouped"
| "v1_group grouped ((x, i) # infos) =
    (let key = v1_migration_compatibility_key i
     in v1_group (dset key (dset x i (dget_default grouped key [])) grouped) infos)"

definition v1_update_instance_infos ::
  "V1MigrationScheduler \<Rightarrow> (string, InstanceInfo) dict \<Rightarrow> V1MigrationScheduler res" where
  "v1_update_instance_infos s infos =
    (let capable = filter (\<lambda>(_, i). v1_migration_capable i (required_capabilities s)) infos;
         grouped = v1_group [] capable
     in res_bind (res_map (\<lambda>(key, group_infos).
            res_bind (init_MigrationScheduler (v1_pair_migration_policy s) (v1_migrate_out_load_threshold s) False)
              (\<lambda>m. Inr (key, ms_update_instance_infos m group_infos))) grouped)
          (\<lambda>groups. Inr (s\<lparr>group_schedulers := groups\<rparr>)))"

definition v1_pair_migration :: "V1MigrationScheduler \<Rightarrow> PairMigrationConstraints \<Rightarrow> (string \<times> string) list res" where
  "v1_pair_migration s t =
    res_bind (res_map (\<lambda>m. ms_pair_migration m t) (dvalues (group_schedulers s)))
      (\<lambda>pairs. Inr (concat pairs))"

subsection \<open>Contracts\<close>

text \<open>
  A filter policy whose source and destination conditions exclude each other, which is
  what the migration scheduler requires of it.
\<close>

locale exclusive_filter =
  fixes P :: MigrationFilterPolicy and t :: PairMigrationConstraints
  assumes exclusive:
    "filter_src_condition P cfg t = Inr src \<Longrightarrow> filter_dst_condition P cfg t = Inr dst \<Longrightarrow> \<not> (src i \<and> dst i)"
begin

lemma filtered_disjoint:
  assumes "filter_src_condition P cfg t = Inr src" and "filter_dst_condition P cfg t = Inr dst"
  shows "set (filter (\<lambda>i. \<forall>c \<in> set (srcs @ [src]). c i) infos)
    \<inter> set (filter (\<lambda>i. \<forall>c \<in> set (dsts @ [dst]). c i) infos) = {}"
  using exclusive[OF assms] by auto

end

lemma load_conditions_exclusive: "\<not> (load_src_condition cfg i \<and> load_dst_condition cfg i)"
  by (auto simp: load_src_condition_def load_dst_condition_def dest: pn_less_trans)

interpretation load_filter: exclusive_filter LoadFilter t for t
  by unfold_locales (use load_conditions_exclusive in auto)

interpretation pdd_filter: exclusive_filter PddFilter t for t
  by unfold_locales (use load_conditions_exclusive in \<open>cases t; auto\<close>)

text \<open>
  A pairing policy keeps some of the pairs that join the sources, most loaded first, with
  the destinations, least loaded first.
\<close>

locale pairing =
  fixes P :: PairMigrationPolicy and keep :: "InstanceInfo \<times> InstanceInfo \<Rightarrow> bool"
  assumes pairs: "pair_migration P ss ds = map (\<lambda>(a, b). (instance_id a, instance_id b))
    (filter keep (zip (sort_migration_infos ss True) (sort_migration_infos ds False)))"
begin

lemma pair_members:
  assumes "(x, y) \<in> set (pair_migration P ss ds)"
  shows "\<exists>a \<in> set ss. \<exists>b \<in> set ds. x = instance_id a \<and> y = instance_id b \<and> keep (a, b)"
proof -
  obtain a b where ab: "(a, b) \<in> set (zip (sort_migration_infos ss True) (sort_migration_infos ds False))"
    "x = instance_id a" "y = instance_id b" "keep (a, b)"
    using assms by (auto simp: pairs)
  have "a \<in> set ss" "b \<in> set ds"
    using set_zip_leftD[OF ab(1)] set_zip_rightD[OF ab(1)] by (simp_all add: sort_migration_infos_def)
  with ab show ?thesis by blast
qed

lemma sources_distinct:
  assumes "distinct (map instance_id ss)"
  shows "distinct (map fst (pair_migration P ss ds))"
proof -
  let ?xs = "sort_migration_infos ss True" and ?ys = "sort_migration_infos ds False"
  have "mset (map instance_id ?xs) = mset (map instance_id ss)"
    by (simp add: sort_migration_infos_def)
  then have "distinct (map instance_id ?xs)" using assms distinct_mset_cong by blast
  then have "distinct (map instance_id (map fst (zip ?xs ?ys)))"
    by (simp add: map_fst_zip_take distinct_take take_map[symmetric])
  then have "distinct (map (instance_id \<circ> fst) (filter keep (zip ?xs ?ys)))"
    by (intro distinct_map_filter) simp
  then show ?thesis by (simp add: pairs case_prod_unfold comp_def)
qed

lemma destinations_distinct:
  assumes "distinct (map instance_id ds)"
  shows "distinct (map snd (pair_migration P ss ds))"
proof -
  let ?xs = "sort_migration_infos ss True" and ?ys = "sort_migration_infos ds False"
  have "mset (map instance_id ?ys) = mset (map instance_id ds)"
    by (simp add: sort_migration_infos_def)
  then have "distinct (map instance_id ?ys)" using assms distinct_mset_cong by blast
  then have "distinct (map instance_id (map snd (zip ?xs ?ys)))"
    by (simp add: map_snd_zip_take distinct_take take_map[symmetric])
  then have "distinct (map (instance_id \<circ> snd) (filter keep (zip ?xs ?ys)))"
    by (intro distinct_map_filter) simp
  then show ?thesis by (simp add: pairs case_prod_unfold comp_def)
qed

end

interpretation balanced_pairing: pairing "PairBalanced threshold" "\<lambda>(a, b). balanced_pair threshold a b"
  for threshold
  by unfold_locales simp

interpretation defrag_pairing: pairing "PairDefrag threshold" "\<lambda>_. True" for threshold
  by unfold_locales simp

lemma pair_ends:
  "(x, y) \<in> set (pair_migration P ss ds) \<Longrightarrow> \<exists>a \<in> set ss. \<exists>b \<in> set ds. x = instance_id a \<and> y = instance_id b"
  using balanced_pairing.pair_members defrag_pairing.pair_members by (cases P) blast+

lemma pair_end_sets:
  "fst ` set (pair_migration P ss ds) \<subseteq> instance_id ` set ss"
  "snd ` set (pair_migration P ss ds) \<subseteq> instance_id ` set ds"
  by (auto dest!: pair_ends)

lemma pair_ends_distinct:
  "distinct (map instance_id ss) \<Longrightarrow> distinct (map fst (pair_migration P ss ds))"
  "distinct (map instance_id ds) \<Longrightarrow> distinct (map snd (pair_migration P ss ds))"
  using balanced_pairing.sources_distinct defrag_pairing.sources_distinct
    balanced_pairing.destinations_distinct defrag_pairing.destinations_distinct by (cases P; blast)+

text \<open>The conditions of the constraint's own filter on both ends of a pair.\<close>

definition src_ok :: "MigrationFilterConfig \<Rightarrow> PairMigrationConstraints \<Rightarrow> InstanceInfo \<Rightarrow> bool" where
  "src_ok cfg t a = (case t of
     PM_NO_CONSTRAINTS \<Rightarrow> load_src_condition cfg a
   | DECODING_2_DECODING \<Rightarrow> instance_type a = Some DECODE \<and> load_src_condition cfg a
   | PREFILL_2_DECODING \<Rightarrow> instance_type a = Some PREFILL)"

definition dst_ok :: "MigrationFilterConfig \<Rightarrow> PairMigrationConstraints \<Rightarrow> InstanceInfo \<Rightarrow> bool" where
  "dst_ok cfg t b = (case t of
     PM_NO_CONSTRAINTS \<Rightarrow> load_dst_condition cfg b
   | DECODING_2_DECODING \<Rightarrow> instance_type b = Some DECODE \<and> load_dst_condition cfg b
   | PREFILL_2_DECODING \<Rightarrow> instance_type b = Some DECODE \<and> num_killed_requests b = 0)"

definition constraint_filter :: "PairMigrationConstraints \<Rightarrow> MigrationFilterPolicy" where
  "constraint_filter t = (if t = PM_NO_CONSTRAINTS then LoadFilter else PddFilter)"

lemma constraint_filter_conditions:
  "get_filter_policy (policy_filter_name t) = Inr (constraint_filter t)"
  "filter_src_condition (constraint_filter t) cfg t = Inr (src_ok cfg t)"
  "filter_dst_condition (constraint_filter t) cfg t = Inr (dst_ok cfg t)"
  by (cases t; auto simp: get_filter_policy_def policy_filter_name_def constraint_filter_def
      src_ok_def dst_ok_def)+

lemma ends_exclusive: "\<not> (src_ok cfg t a \<and> dst_ok cfg t a)"
  using load_filter.exclusive pdd_filter.exclusive constraint_filter_conditions(2,3)
  by (metis constraint_filter_def)

lemma filter_instancesE:
  assumes "filter_instances f infos t = Inr (ss, ds)"
  obtains srcs dsts where
    "res_map (\<lambda>p. filter_src_condition p (filter_config f) t) (dvalues (registered_filters f)) = Inr srcs"
    "res_map (\<lambda>p. filter_dst_condition p (filter_config f) t) (dvalues (registered_filters f)) = Inr dsts"
    "ss = filter (\<lambda>i. src_ok (filter_config f) t i \<and> (\<forall>c \<in> set srcs. c i)) infos"
    "ds = filter (\<lambda>i. dst_ok (filter_config f) t i \<and> (\<forall>c \<in> set dsts. c i)) infos"
  using assms by (auto simp: filter_instances_def res_bind_Inr_iff constraint_filter_conditions)

lemma distinct_map_filterD: "distinct (map f xs) \<Longrightarrow> distinct (map f (filter Q xs))"
  by (rule distinct_map_filter)

lemma ms_pair_migrationE:
  assumes "ms_pair_migration s t = Inr pairs" and "ms_instance_info s = Some infos"
  obtains ss ds where "filter_instances (migration_filter s) (dvalues infos) t = Inr (ss, ds)"
    "pairs = pair_migration (pair_migration_policy s) ss ds"
  using assms by (auto simp: ms_pair_migration_def res_bind_Inr_iff)

lemma ms_pairs_matching:
  assumes "ms_pair_migration s t = Inr pairs" and "ms_instance_info s = Some infos"
    and ids: "distinct (map instance_id (dvalues infos))"
  shows "distinct (map fst pairs @ map snd pairs)"
    and "set (map fst pairs @ map snd pairs) \<subseteq> instance_id ` set (dvalues infos)"
proof -
  obtain ss ds where f: "filter_instances (migration_filter s) (dvalues infos) t = Inr (ss, ds)"
    and pairs: "pairs = pair_migration (pair_migration_policy s) ss ds"
    using ms_pair_migrationE[OF assms(1,2)] .
  let ?cfg = "filter_config (migration_filter s)"
  have sub: "set ss \<subseteq> set (dvalues infos)" "set ds \<subseteq> set (dvalues infos)"
    and ok: "\<And>a. a \<in> set ss \<Longrightarrow> src_ok ?cfg t a" "\<And>a. a \<in> set ds \<Longrightarrow> dst_ok ?cfg t a"
    and dist: "distinct (map instance_id ss)" "distinct (map instance_id ds)"
    using f ids by (auto elim!: filter_instancesE intro!: distinct_map_filterD)
  have disj: "a \<in> set ss \<Longrightarrow> b \<in> set ds \<Longrightarrow> instance_id a \<noteq> instance_id b" for a b
    using sub ok ids ends_exclusive by (metis distinct_map inj_onD subsetD)
  have ends: "fst ` set pairs \<subseteq> instance_id ` set ss" "snd ` set pairs \<subseteq> instance_id ` set ds"
    using pair_end_sets pairs by blast+
  have "instance_id ` set ss \<inter> instance_id ` set ds = {}" using disj by blast
  with ends have "set (map fst pairs) \<inter> set (map snd pairs) = {}" unfolding set_map by blast
  then show "distinct (map fst pairs @ map snd pairs)"
    unfolding distinct_append using pair_ends_distinct dist pairs by blast
  show "set (map fst pairs @ map snd pairs) \<subseteq> instance_id ` set (dvalues infos)"
    using ends image_mono[OF sub(1), of instance_id] image_mono[OF sub(2), of instance_id]
    unfolding set_append set_map by blast
qed

lemma ms_pair_conditions:
  assumes "ms_pair_migration s t = Inr pairs" and "ms_instance_info s = Some infos"
    and "(x, y) \<in> set pairs"
  obtains a b where "a \<in> set (dvalues infos)" "b \<in> set (dvalues infos)" "x = instance_id a" "y = instance_id b"
    "src_ok (filter_config (migration_filter s)) t a" "dst_ok (filter_config (migration_filter s)) t b"
    "\<forall>src dst. CustomFilter src dst \<in> set (dvalues (registered_filters (migration_filter s))) \<longrightarrow> src a \<and> dst b"
    "\<forall>threshold. pair_migration_policy s = PairBalanced threshold \<longrightarrow> balanced_pair threshold a b"
proof -
  obtain ss ds where f: "filter_instances (migration_filter s) (dvalues infos) t = Inr (ss, ds)"
    and pairs: "pairs = pair_migration (pair_migration_policy s) ss ds"
    using ms_pair_migrationE[OF assms(1,2)] .
  obtain srcs dsts where c:
    "res_map (\<lambda>p. filter_src_condition p (filter_config (migration_filter s)) t)
       (dvalues (registered_filters (migration_filter s))) = Inr srcs"
    "res_map (\<lambda>p. filter_dst_condition p (filter_config (migration_filter s)) t)
       (dvalues (registered_filters (migration_filter s))) = Inr dsts"
    "ss = filter (\<lambda>i. src_ok (filter_config (migration_filter s)) t i \<and> (\<forall>c \<in> set srcs. c i)) (dvalues infos)"
    "ds = filter (\<lambda>i. dst_ok (filter_config (migration_filter s)) t i \<and> (\<forall>c \<in> set dsts. c i)) (dvalues infos)"
    using filter_instancesE[OF f] .
  obtain a b where ab: "a \<in> set ss" "b \<in> set ds" "x = instance_id a" "y = instance_id b"
    "\<And>threshold. pair_migration_policy s = PairBalanced threshold \<Longrightarrow> balanced_pair threshold a b"
  proof (cases "pair_migration_policy s")
    case (PairBalanced threshold)
    then show ?thesis
      using that balanced_pairing.pair_members[of x y threshold ss ds] assms(3) pairs by auto
  next
    case (PairDefrag threshold)
    then show ?thesis using that pair_ends[of x y _ ss ds] assms(3) pairs by (metis PairMigrationPolicy.distinct(1))
  qed
  have custom: "src \<in> set srcs \<and> dst \<in> set dsts"
    if "CustomFilter src dst \<in> set (dvalues (registered_filters (migration_filter s)))" for src dst
    using res_map_mem[OF c(1) that] res_map_mem[OF c(2) that] by simp
  have a: "a \<in> set (dvalues infos)" "\<forall>c \<in> set srcs. c a" "src_ok (filter_config (migration_filter s)) t a"
    using ab(1) unfolding c(3) set_filter by blast+
  have b: "b \<in> set (dvalues infos)" "\<forall>c \<in> set dsts. c b" "dst_ok (filter_config (migration_filter s)) t b"
    using ab(2) unfolding c(4) set_filter by blast+
  show ?thesis
    by (rule that[OF a(1) b(1) ab(3,4) a(3) b(3)]) (use a(2) b(2) custom ab(5) in blast)+
qed

lemma v1_group_entries:
  assumes "\<And>key g x i. (key, g) \<in> set grouped \<Longrightarrow> (x, i) \<in> set g \<Longrightarrow> Q i \<and> v1_migration_compatibility_key i = key"
    and "\<And>x i. (x, i) \<in> set infos \<Longrightarrow> Q i"
    and "(key, g) \<in> set (v1_group grouped infos)" and "(x, i) \<in> set g"
  shows "Q i \<and> v1_migration_compatibility_key i = key"
  using assms
proof (induction grouped infos rule: v1_group.induct)
  case (1 grouped)
  then show ?case by (metis v1_group.simps(1))
next
  case (2 grouped y j infos)
  note prem = 2(2)
  let ?k = "v1_migration_compatibility_key j"
  let ?g = "dset ?k (dset y j (dget_default grouped ?k [])) grouped"
  have mem: "Q i' \<and> v1_migration_compatibility_key i' = key'"
    if "(key', g') \<in> set ?g" "(x', i') \<in> set g'" for key' g' x' i'
  proof (cases "(key', g') \<in> set grouped")
    case True
    then show ?thesis using 2(2) that(2) by blast
  next
    case False
    then have k: "key' = ?k" "g' = dset y j (dget_default grouped ?k [])"
      using that(1) dset_entries by fastforce+
    have "(x', i') = (y, j) \<or> (x', i') \<in> set (dget_default grouped ?k [])"
      using that(2) dset_entries unfolding k(2) by fastforce
    then consider "x' = y" "i' = j" | g0 where "dget grouped ?k = Some g0" "(x', i') \<in> set g0"
      by (cases "dget grouped ?k") (auto simp: dget_default_def)
    then show ?thesis
    proof cases
      case 1
      then show ?thesis using 2(3)[of y j] k(1) by simp
    next
      case (2 g0)
      then have "(?k, g0) \<in> set grouped" by (simp add: map_of_SomeD)
      then show ?thesis using prem 2(2) k(1) by blast
    qed
  qed
  show ?case
    by (rule 2(1)[OF refl mem]) (use 2(3-5) in \<open>auto simp: Let_def\<close>)
qed

lemma v1_group_keyed:
  assumes "\<And>key g. (key, g) \<in> set grouped \<Longrightarrow> keyed g" and "keyed infos"
    and "(key, g) \<in> set (v1_group grouped infos)"
  shows "keyed g"
  using assms
proof (induction grouped infos rule: v1_group.induct)
  case (1 grouped)
  then show ?case by (metis v1_group.simps(1))
next
  case (2 grouped y j infos)
  let ?k = "v1_migration_compatibility_key j"
  let ?h = "dset y j (dget_default grouped ?k [])"
  have "keyed (dget_default grouped ?k [])"
  proof (cases "dget grouped ?k")
    case (Some g0)
    then have "(?k, g0) \<in> set grouped" by (rule map_of_SomeD)
    with Some show ?thesis using 2(2) by (simp add: dget_default_def)
  qed (simp add: dget_default_def)
  then have "keyed ?h" using 2(3) by (intro keyed_dset) (auto simp: keyed_def)
  then have mem: "keyed g'" if "(key', g') \<in> set (dset ?k ?h grouped)" for key' g'
    using dset_entries[OF that] 2(2) by blast
  show ?case
    by (rule 2(1)[OF refl mem]) (use 2(3,4) in \<open>auto simp: Let_def keyed_def\<close>)
qed

lemma v1_group_distinct_keys: "distinct (dkeys grouped) \<Longrightarrow> distinct (dkeys (v1_group grouped infos))"
  by (induction grouped infos rule: v1_group.induct) (simp_all add: Let_def distinct_dset)

lemma concat_matching:
  assumes "list_all2 (\<lambda>ps I. distinct (map fst ps @ map snd ps) \<and> set (map fst ps @ map snd ps) \<subseteq> I) pss Is"
    and "sorted_wrt (\<lambda>A B. A \<inter> B = {}) Is"
  shows "distinct (map fst (concat pss) @ map snd (concat pss))
    \<and> set (map fst (concat pss) @ map snd (concat pss)) \<subseteq> \<Union> (set Is)"
  using assms
proof (induction rule: list_all2_induct)
  case Nil
  then show ?case by simp
next
  case (Cons ps pss I Is)
  then have IH: "distinct (map fst (concat pss) @ map snd (concat pss))"
    "set (map fst (concat pss) @ map snd (concat pss)) \<subseteq> \<Union> (set Is)" by auto
  have "I \<inter> \<Union> (set Is) = {}" using Cons.prems by auto
  with IH Cons.hyps(1) show ?case
    unfolding concat.simps map_append distinct_append set_append list.set Union_insert by blast
qed

lemma res_map_list_all2:
  "res_map f xs = Inr ys \<Longrightarrow> list_all2 (\<lambda>x y. f x = Inr y) xs ys"
  by (induction xs arbitrary: ys) (auto simp: res_bind_Inr_iff)

lemma v1_groups_scheduled:
  assumes "v1_update_instance_infos s infos = Inr s'"
  shows "list_all2 (\<lambda>(key, g) (key', m). key' = key \<and> ms_instance_info m = Some g)
    (v1_group [] (filter (\<lambda>(_, i). v1_migration_capable i (required_capabilities s)) infos))
    (group_schedulers s')"
proof -
  let ?f = "\<lambda>(key, group_infos).
     res_bind (init_MigrationScheduler (v1_pair_migration_policy s) (v1_migrate_out_load_threshold s) False)
       (\<lambda>m. Inr (key, ms_update_instance_infos m group_infos))"
  have "res_map ?f (v1_group [] (filter (\<lambda>(_, i). v1_migration_capable i (required_capabilities s)) infos))
      = Inr (group_schedulers s')"
    using assms by (auto simp: v1_update_instance_infos_def Let_def res_bind_Inr_iff)
  then show ?thesis
    by (rule list_all2_mono[OF res_map_list_all2])
      (auto simp: res_bind_Inr_iff ms_update_instance_infos_def)
qed

abbreviation v1_groups :: "V1MigrationScheduler \<Rightarrow> (string, InstanceInfo) dict \<Rightarrow>
    (compatibility_key, (string, InstanceInfo) dict) dict" where
  "v1_groups s infos \<equiv>
    v1_group [] (filter (\<lambda>(_, i). v1_migration_capable i (required_capabilities s)) infos)"

lemma v1_group_pairs:
  assumes "v1_update_instance_infos s infos = Inr s'" and "v1_pair_migration s' t = Inr pairs"
  obtains pss where "pairs = concat pss"
    "list_all2 (\<lambda>(key, g) ps. \<exists>m. ms_instance_info m = Some g \<and> ms_pair_migration m t = Inr ps)
      (v1_groups s infos) pss"
proof -
  obtain pss where pss: "res_map (\<lambda>m. ms_pair_migration m t) (dvalues (group_schedulers s')) = Inr pss"
    "pairs = concat pss"
    using assms(2) by (auto simp: v1_pair_migration_def res_bind_Inr_iff)
  have per_group: "list_all2 (\<lambda>(_, m) ps. ms_pair_migration m t = Inr ps) (group_schedulers s') pss"
    using res_map_list_all2[OF pss(1)] by (simp add: list_all2_map1 case_prod_unfold)
  have "list_all2 (\<lambda>(key, g) ps. \<exists>m. ms_instance_info m = Some g \<and> ms_pair_migration m t = Inr ps)
      (v1_groups s infos) pss"
    by (rule list_all2_trans[OF _ v1_groups_scheduled[OF assms(1)] per_group]) auto
  with pss(2) show ?thesis by (rule that)
qed

lemma v1_groups_facts:
  assumes "keyed infos" and "(key, g) \<in> set (v1_groups s infos)"
  shows "keyed g" and "i \<in> set (dvalues g) \<Longrightarrow>
    v1_migration_capable i (required_capabilities s) \<and> v1_migration_compatibility_key i = key
    \<and> i \<in> set (dvalues infos)"
proof -
  show "keyed g" by (rule v1_group_keyed[OF _ keyed_filter[OF assms(1)] assms(2)]) simp
  assume "i \<in> set (dvalues g)"
  then obtain x where x: "(x, i) \<in> set g" by auto
  have "(v1_migration_capable i (required_capabilities s) \<and> i \<in> set (dvalues infos))
      \<and> v1_migration_compatibility_key i = key"
    by (rule v1_group_entries[OF _ _ assms(2) x]) force+
  then show "v1_migration_capable i (required_capabilities s) \<and> v1_migration_compatibility_key i = key
    \<and> i \<in> set (dvalues infos)" by blast
qed

lemma v1_group_ids_disjoint:
  assumes "keyed infos"
  shows "sorted_wrt (\<lambda>A B. A \<inter> B = {}) (map (\<lambda>(_, g). instance_id ` set (dvalues g)) (v1_groups s infos))"
proof (rule sorted_wrt_map[THEN iffD2], rule sorted_wrt_iff_nth_less[THEN iffD2], intro allI impI)
  fix a b assume ab: "a < b" "b < length (v1_groups s infos)"
  obtain ka ga where a: "v1_groups s infos ! a = (ka, ga)" by fastforce
  obtain kb gb where b: "v1_groups s infos ! b = (kb, gb)" by fastforce
  have mem: "(ka, ga) \<in> set (v1_groups s infos)" "(kb, gb) \<in> set (v1_groups s infos)"
    using nth_mem[of a "v1_groups s infos"] nth_mem[of b "v1_groups s infos"] ab a b by simp_all
  have "dkeys (v1_groups s infos) ! a \<noteq> dkeys (v1_groups s infos) ! b"
    using v1_group_distinct_keys[of "[]"] ab by (simp add: nth_eq_iff_index_eq del: nth_map)
  then have keys: "ka \<noteq> kb" using ab a b by simp
  have "instance_id i \<noteq> instance_id j" if ij: "i \<in> set (dvalues ga)" "j \<in> set (dvalues gb)" for i j
  proof
    assume eq: "instance_id i = instance_id j"
    have "inj_on instance_id (set (dvalues infos))"
      using keyed_distinct_ids[OF assms] by (simp only: distinct_map)
    then have "i = j"
      using eq v1_groups_facts(2)[OF assms mem(1) ij(1)] v1_groups_facts(2)[OF assms mem(2) ij(2)]
      by (meson inj_onD)
    then show False
      using keys v1_groups_facts(2)[OF assms mem(1) ij(1)] v1_groups_facts(2)[OF assms mem(2) ij(2)]
      by simp
  qed
  then show "(case v1_groups s infos ! a of (_, g) \<Rightarrow> instance_id ` set (dvalues g))
      \<inter> (case v1_groups s infos ! b of (_, g) \<Rightarrow> instance_id ` set (dvalues g)) = {}"
    unfolding a b prod.case by blast
qed

lemma v1_pairs_matching:
  assumes "v1_update_instance_infos s infos = Inr s'" and "v1_pair_migration s' t = Inr pairs" and "keyed infos"
  shows "distinct (map fst pairs @ map snd pairs)"
proof -
  obtain pss where pss: "pairs = concat pss"
    "list_all2 (\<lambda>(key, g) ps. \<exists>m. ms_instance_info m = Some g \<and> ms_pair_migration m t = Inr ps)
      (v1_groups s infos) pss"
    using v1_group_pairs[OF assms(1,2)] .
  let ?good = "\<lambda>(key :: compatibility_key, g :: (string, InstanceInfo) dict) ps.
    distinct (map fst ps @ map snd ps) \<and> set (map fst ps @ map snd ps) \<subseteq> instance_id ` set (dvalues g)"
  have "list_all2 ?good (v1_groups s infos) pss"
  proof (rule list.rel_mono_strong[OF pss(2)])
    fix kg ps assume kg: "kg \<in> set (v1_groups s infos)" and "ps \<in> set pss"
      and "(\<lambda>(key, g) ps. \<exists>m. ms_instance_info m = Some g \<and> ms_pair_migration m t = Inr ps) kg ps"
    then obtain key g m where m: "kg = (key, g)" "ms_instance_info m = Some g" "ms_pair_migration m t = Inr ps"
      by auto
    have "distinct (map instance_id (dvalues g))"
      using v1_groups_facts(1)[OF assms(3)] kg m(1) keyed_distinct_ids by blast
    from ms_pairs_matching[OF m(3,2) this] show "?good kg ps" using m(1) by simp
  qed
  then have "list_all2 (\<lambda>ps I. distinct (map fst ps @ map snd ps) \<and> set (map fst ps @ map snd ps) \<subseteq> I)
      pss (map (\<lambda>(_, g). instance_id ` set (dvalues g)) (v1_groups s infos))"
    by (auto simp: list_all2_map2 list_all2_conv_all_nth case_prod_unfold)
  from concat_matching[OF this v1_group_ids_disjoint[OF assms(3)]] show ?thesis using pss(1) by blast
qed

lemma init_ms_filters:
  assumes "init_MigrationScheduler policy th g = Inr s"
  shows "registered_filters (migration_filter s)
      = [(''migration_backend_init_filter'', CustomFilter (\<lambda>_. \<not> g) (\<lambda>_. \<not> g))]"
    and "filter_config (migration_filter s) = th"
  using assms
  by (auto simp: init_MigrationScheduler_def register_migration_backend_init_filter_def
      init_CustomFilter_def register_filter_def res_bind_Inr_iff)

lemma ms_pair_migration_ok:
  assumes "ms_instance_info s = Some infos"
    and "registered_filters (migration_filter s) = [(name, CustomFilter src dst)]"
  shows "\<exists>pairs. ms_pair_migration s t = Inr pairs"
  using assms by (auto simp: ms_pair_migration_def filter_instances_def constraint_filter_conditions)

lemma pair_migration_Nil: "pair_migration P [] ds = []"
  by (cases P) (simp_all add: sort_migration_infos_def py_sorted_desc_def stable_sort_def)

subsection \<open>Properties\<close>

text \<open>
  C11: migration pairs form a matching. For every constraint, every set of registered
  filters and both pairing policies, no instance takes part in two pairs or migrates to
  itself, and both ends of every pair are reported instances.
\<close>

theorem pair_migration_matching:
  assumes "ms_instance_info s = Some infos" and "keyed infos" and "ms_pair_migration s t = Inr pairs"
  shows "distinct (map fst pairs @ map snd pairs)
    \<and> set (map fst pairs @ map snd pairs) \<subseteq> set (dkeys infos)"
  using ms_pairs_matching[OF assms(3,1) keyed_distinct_ids[OF assms(2)]] keyed_ids[OF assms(2)]
  by (metis set_map)

text \<open>Two instances: one over the threshold, one idle.\<close>

definition busy_idle :: "(string, InstanceInfo) dict" where
  "busy_idle =
    [(''a'', default_InstanceInfo\<lparr>instance_id := ''a'', instance_type := Some DECODE,
        migration_load_metric := Fin 5, migration_load_metric_after_migrate_out := Fin 4,
        migration_capabilities := v1_required_migration_capabilities\<rparr>),
     (''b'', default_InstanceInfo\<lparr>instance_id := ''b'', instance_type := Some DECODE,
        migration_load_metric := MInf, migration_load_metric_after_migrate_in := Fin 1,
        migration_capabilities := v1_required_migration_capabilities\<rparr>)]"

definition busy_idle_scheduler :: MigrationScheduler where
  "busy_idle_scheduler = \<lparr>
     migration_filter = \<lparr>filter_config = Fin 3, registered_filters =
       [(''migration_backend_init_filter'', CustomFilter (\<lambda>_. True) (\<lambda>_. True))]\<rparr>,
     pair_migration_policy = PairBalanced (Fin 3), ms_num_instances = 2,
     ms_instance_id_set = {''a'', ''b''}, ms_instance_info = Some busy_idle\<rparr>"

lemma busy_idle_pairs:
  "ms_instance_info busy_idle_scheduler = Some busy_idle" "keyed busy_idle"
  "ms_pair_migration busy_idle_scheduler DECODING_2_DECODING = Inr [(''a'', ''b'')]"
  by (simp_all add: busy_idle_scheduler_def busy_idle_def keyed_def ms_pair_migration_def
      filter_instances_def constraint_filter_conditions src_ok_def dst_ok_def
      load_src_condition_def load_dst_condition_def default_InstanceInfo_def
      sort_migration_infos_def py_sorted_def py_sorted_desc_def stable_sort_def balanced_pair_def)

theorem pair_migration_matching_witness:
  "distinct (map fst [(''a'', ''b'')] @ map snd [(''a'', ''b'')])
    \<and> set (map fst [(''a'', ''b'')] @ map snd [(''a'', ''b'')]) \<subseteq> set (dkeys busy_idle)"
  by (rule pair_migration_matching[OF busy_idle_pairs])

text \<open>
  What the constraint demands of a pair. Without constraints the source is over the
  threshold or has killed requests and the destination is under it with none; for
  decode-to-decode both are also decode instances; for prefill-to-decode the source is a
  prefill and the destination a decode instance without killed requests. Every custom
  filter holds of both ends. Under the balanced policy the destination stays at or below
  the threshold and the migration shrinks the load gap without reversing it, unless the
  destination is idle.
\<close>

theorem pair_migration_conditions:
  assumes "ms_instance_info s = Some infos" and "ms_pair_migration s t = Inr pairs"
    and "(x, y) \<in> set pairs"
  shows "\<exists>a b. a \<in> set (dvalues infos) \<and> b \<in> set (dvalues infos) \<and> x = instance_id a \<and> y = instance_id b
    \<and> src_ok (filter_config (migration_filter s)) t a \<and> dst_ok (filter_config (migration_filter s)) t b
    \<and> (\<forall>src dst. CustomFilter src dst \<in> set (dvalues (registered_filters (migration_filter s)))
          \<longrightarrow> src a \<and> dst b)
    \<and> (\<forall>threshold. pair_migration_policy s = PairBalanced threshold
          \<longrightarrow> \<not> migration_load_metric_after_migrate_in b > threshold
            \<and> (let before = migration_load_metric a - migration_load_metric b;
                    after = migration_load_metric_after_migrate_out a - migration_load_metric_after_migrate_in b
               in 0 < after \<and> after < before \<or> migration_load_metric b = MInf))"
proof -
  obtain a b where "a \<in> set (dvalues infos)" "b \<in> set (dvalues infos)" "x = instance_id a" "y = instance_id b"
    "src_ok (filter_config (migration_filter s)) t a" "dst_ok (filter_config (migration_filter s)) t b"
    "\<forall>src dst. CustomFilter src dst \<in> set (dvalues (registered_filters (migration_filter s))) \<longrightarrow> src a \<and> dst b"
    and bal: "\<forall>threshold. pair_migration_policy s = PairBalanced threshold \<longrightarrow> balanced_pair threshold a b"
    using ms_pair_conditions[OF assms(2,1,3)] .
  moreover have "\<forall>threshold. pair_migration_policy s = PairBalanced threshold
      \<longrightarrow> \<not> migration_load_metric_after_migrate_in b > threshold
        \<and> (let before = migration_load_metric a - migration_load_metric b;
                after = migration_load_metric_after_migrate_out a - migration_load_metric_after_migrate_in b
           in 0 < after \<and> after < before \<or> migration_load_metric b = MInf)"
    using bal by (auto simp: balanced_pair_def Let_def split: if_splits)
  ultimately show ?thesis by blast
qed

theorem pair_migration_conditions_witness:
  "\<exists>a b. a \<in> set (dvalues busy_idle) \<and> b \<in> set (dvalues busy_idle)
    \<and> ''a'' = instance_id a \<and> ''b'' = instance_id b
    \<and> src_ok (Fin 3) DECODING_2_DECODING a \<and> dst_ok (Fin 3) DECODING_2_DECODING b"
  using pair_migration_conditions[OF busy_idle_pairs(1,3), of "''a''" "''b''"]
  by (force simp: busy_idle_scheduler_def)

text \<open>
  With a group-kind migration backend (gloo, nccl) nothing migrates until the backend
  is rebuilt; after the manager has restricted the backend filter to the instances of the
  new group, every pair lies inside that group.
\<close>

theorem group_backend_gates_migration:
  assumes "init_MigrationScheduler policy th True = Inr s"
  shows "ms_pair_migration (ms_update_instance_infos s infos) t = Inr []
    \<and> (\<exists>s' pairs. ms_allow_only s alive = Inr s'
        \<and> ms_pair_migration (ms_update_instance_infos s' infos) t = Inr pairs
        \<and> set pairs \<subseteq> alive \<times> alive)"
proof (intro conjI)
  note f = init_ms_filters[OF assms]
  show "ms_pair_migration (ms_update_instance_infos s infos) t = Inr []"
    by (simp add: ms_pair_migration_def ms_update_instance_infos_def filter_instances_def f
        constraint_filter_conditions pair_migration_Nil)
  let ?c = "CustomFilter (\<lambda>i. instance_id i \<in> alive) (\<lambda>i. instance_id i \<in> alive)"
  let ?s = "s\<lparr>migration_filter := (migration_filter s)\<lparr>registered_filters :=
      [(''migration_backend_init_filter'', ?c)]\<rparr>\<rparr>"
  let ?u = "ms_update_instance_infos ?s infos"
  have allow: "ms_allow_only s alive = Inr ?s"
    by (simp add: ms_allow_only_def get_filter_def f)
  have u: "ms_instance_info ?u = Some infos" "registered_filters (migration_filter ?u)
      = [(''migration_backend_init_filter'', ?c)]"
    by (simp_all add: ms_update_instance_infos_def)
  obtain pairs where pairs: "ms_pair_migration ?u t = Inr pairs"
    using ms_pair_migration_ok[OF u] by blast
  have "x \<in> alive \<and> y \<in> alive" if "(x, y) \<in> set pairs" for x y
    by (rule ms_pair_conditions[OF pairs u(1) that]) (use u(2) in auto)
  then show "\<exists>s' pairs. ms_allow_only s alive = Inr s'
      \<and> ms_pair_migration (ms_update_instance_infos s' infos) t = Inr pairs \<and> set pairs \<subseteq> alive \<times> alive"
    using allow pairs by auto
qed

theorem group_backend_gates_migration_witness:
  "\<exists>s. init_MigrationScheduler ''balanced'' (Fin 3) True = Inr s
    \<and> ms_pair_migration (ms_update_instance_infos s busy_idle) DECODING_2_DECODING = Inr []"
proof -
  obtain s where s: "init_MigrationScheduler ''balanced'' (Fin 3) True = Inr s"
    by (simp add: init_MigrationScheduler_def register_migration_backend_init_filter_def
        init_CustomFilter_def get_pair_policy_def)
  then show ?thesis using group_backend_gates_migration[OF s] by blast
qed

text \<open>
  C12: the V1 gate is safe. Pairs form a matching over the whole cluster, and both ends
  of every pair advertise every required capability and have the same protocol version,
  KV layout, device class and CoreX stack.
\<close>

theorem v1_pair_migration_compatible:
  assumes "keyed infos" and "v1_update_instance_infos s infos = Inr s'"
    and "v1_pair_migration s' t = Inr pairs"
  shows "distinct (map fst pairs @ map snd pairs)
    \<and> (\<forall>(x, y) \<in> set pairs. \<exists>a \<in> set (dvalues infos). \<exists>b \<in> set (dvalues infos).
          x = instance_id a \<and> y = instance_id b
        \<and> v1_migration_capable a (required_capabilities s) \<and> v1_migration_capable b (required_capabilities s)
        \<and> v1_migration_compatibility_key a = v1_migration_compatibility_key b)"
proof (intro conjI ballI, rule v1_pairs_matching[OF assms(2,3,1)])
  fix xy assume mem: "xy \<in> set pairs"
  obtain x y where "xy = (x, y)" by fastforce
  with mem have xy: "xy = (x, y)" "(x, y) \<in> set pairs" by simp_all
  obtain pss where pss: "pairs = concat pss"
    "list_all2 (\<lambda>(key, g) ps. \<exists>m. ms_instance_info m = Some g \<and> ms_pair_migration m t = Inr ps)
      (v1_groups s infos) pss"
    using v1_group_pairs[OF assms(2,3)] .
  obtain ps where ps: "ps \<in> set pss" "(x, y) \<in> set ps" using xy(2) pss(1) by auto
  obtain key g m where g: "(key, g) \<in> set (v1_groups s infos)" "ms_instance_info m = Some g"
    "ms_pair_migration m t = Inr ps"
    using list_all2_mem2[OF pss(2) ps(1)] by auto
  obtain a b where ab: "a \<in> set (dvalues g)" "b \<in> set (dvalues g)" "x = instance_id a" "y = instance_id b"
    using ms_pair_conditions[OF g(3,2) ps(2)] by metis
  note facts = v1_groups_facts(2)[OF assms(1) g(1)]
  show "case xy of (x, y) \<Rightarrow> \<exists>a \<in> set (dvalues infos). \<exists>b \<in> set (dvalues infos).
          x = instance_id a \<and> y = instance_id b
        \<and> v1_migration_capable a (required_capabilities s) \<and> v1_migration_capable b (required_capabilities s)
        \<and> v1_migration_compatibility_key a = v1_migration_compatibility_key b"
    unfolding xy(1) prod.case
    by (intro bexI[of _ a] bexI[of _ b]) (use facts[OF ab(1)] facts[OF ab(2)] ab(3,4) in simp_all)
qed

theorem v1_pair_migration_compatible_witness:
  "\<exists>s'. v1_update_instance_infos (init_V1MigrationScheduler ''defrag'' (Fin 3) {}) busy_idle = Inr s'
    \<and> v1_pair_migration s' DECODING_2_DECODING = Inr [(''a'', ''b'')]
    \<and> distinct (map fst [(''a'', ''b'')] @ map snd [(''a'', ''b'')])"
proof -
  obtain s' where s': "v1_update_instance_infos (init_V1MigrationScheduler ''defrag'' (Fin 3) {}) busy_idle = Inr s'"
    "v1_pair_migration s' DECODING_2_DECODING = Inr [(''a'', ''b'')]"
    by (simp add: v1_update_instance_infos_def init_V1MigrationScheduler_def busy_idle_def
        v1_migration_capable_def v1_migration_compatibility_key_def dget_default_def Let_def
        default_InstanceInfo_def init_MigrationScheduler_def register_migration_backend_init_filter_def
        init_CustomFilter_def get_pair_policy_def register_filter_def ms_update_instance_infos_def
        v1_pair_migration_def ms_pair_migration_def filter_instances_def constraint_filter_conditions
        src_ok_def dst_ok_def load_src_condition_def load_dst_condition_def
        sort_migration_infos_def py_sorted_def py_sorted_desc_def stable_sort_def)
  then show ?thesis
    using v1_pair_migration_compatible[OF busy_idle_pairs(2) s'] by blast
qed

end
