(* ===== verification/Scaling.thy ===== *)
theory Scaling
  imports Instance_Info
begin

text \<open>
  Auto-scaling decisions: the policies of \<open>global_scheduler/scaling_policy.py\<close> and the
  \<open>ScalingScheduler\<close>. A set has no fixed iteration order, so \<open>check_scale\<close> takes the order
  in which the registered ids are enumerated.
\<close>

text \<open>A policy with the load metric of its calculator.\<close>

datatype ScalePolicy = MaxLoad string | MinLoad string | AvgLoad string

fun scaling_metric :: "ScalePolicy \<Rightarrow> string" where
  "scaling_metric (MaxLoad m) = m"
| "scaling_metric (MinLoad m) = m"
| "scaling_metric (AvgLoad m) = m"

definition scaling_loads :: "(rat \<Rightarrow> rat) \<Rightarrow> string \<Rightarrow> InstanceInfo list \<Rightarrow> pynum list res" where
  "scaling_loads np_exp metric infos = res_map (scaling_compute_instance_load np_exp metric) infos"

definition compute_load_metric_avg :: "(rat \<Rightarrow> rat) \<Rightarrow> string \<Rightarrow> InstanceInfo list \<Rightarrow> pynum res" where
  "compute_load_metric_avg np_exp metric infos =
    (if infos = [] then Inr MInf
     else res_bind (scaling_loads np_exp metric infos)
            (\<lambda>loads. py_div (foldl (+) 0 loads) (of_py_nat (length infos))))"

fun compute_load_metric_up :: "(rat \<Rightarrow> rat) \<Rightarrow> ScalePolicy \<Rightarrow> InstanceInfo list \<Rightarrow> pynum res" where
  "compute_load_metric_up np_exp (MaxLoad m) infos = res_bind (scaling_loads np_exp m infos) (py_max_by id)"
| "compute_load_metric_up np_exp (MinLoad m) infos = res_bind (scaling_loads np_exp m infos) (py_min_by id)"
| "compute_load_metric_up np_exp (AvgLoad m) infos = compute_load_metric_avg np_exp m infos"

fun compute_load_metric_down :: "(rat \<Rightarrow> rat) \<Rightarrow> ScalePolicy \<Rightarrow> InstanceInfo list \<Rightarrow> pynum res" where
  "compute_load_metric_down np_exp (MaxLoad m) infos = res_bind (scaling_loads np_exp m infos) (py_max_by id)"
| "compute_load_metric_down np_exp (MinLoad m) infos = res_bind (scaling_loads np_exp m infos) (py_min_by id)"
| "compute_load_metric_down np_exp (AvgLoad m) infos =
    (if length infos \<le> 1 then Inr PInf
     else res_bind (scaling_loads np_exp m infos) (\<lambda>loads.
          res_bind (py_min_by fst (zip loads [0..<length infos])) (\<lambda>(_, k).
          compute_load_metric_avg np_exp m (take k infos @ drop (Suc k) infos))))"

definition get_scale_policy :: "string \<Rightarrow> string \<Rightarrow> ScalePolicy res" where
  "get_scale_policy name metric =
    (if name = ''max_load'' then Inr (MaxLoad metric)
     else if name = ''min_load'' then Inr (MinLoad metric)
     else if name = ''avg_load'' then Inr (AvgLoad metric)
     else Inl KeyError)"

record ScalingScheduler =
  scale_up_threshold :: pynum
  scale_down_threshold :: pynum
  scaling_policy :: ScalePolicy
  ss_num_instances :: nat
  ss_instance_id_set :: "string set"
  ss_enable_pd_disagg :: bool
  ss_instance_info :: "(string, InstanceInfo) dict option"
  instance_type_id_set :: "InstanceType \<Rightarrow> string set"

definition init_ScalingScheduler :: "pynum \<Rightarrow> pynum \<Rightarrow> string \<Rightarrow> string \<Rightarrow> bool \<Rightarrow> ScalingScheduler res" where
  "init_ScalingScheduler up down policy metric pd =
    res_bind (get_scale_policy policy metric) (\<lambda>p.
      Inr \<lparr>scale_up_threshold = up, scale_down_threshold = down, scaling_policy = p,
           ss_num_instances = 0, ss_instance_id_set = {}, ss_enable_pd_disagg = pd,
           ss_instance_info = None, instance_type_id_set = (\<lambda>_. {})\<rparr>)"

definition ss_check_scale :: "(rat \<Rightarrow> rat) \<Rightarrow> ScalingScheduler \<Rightarrow> string list \<Rightarrow> (nat \<times> nat) res" where
  "ss_check_scale np_exp s order =
    (case ss_instance_info s of
       None \<Rightarrow> Inr (0, 0)
     | Some infos \<Rightarrow>
        if infos = [] \<or> ss_num_instances s = 0 then Inr (0, 0)
        else if length infos < ss_num_instances s then Inr (0, 0)
        else
          let now_instances = List.map_filter (dget infos) order in
          if length now_instances < ss_num_instances s then Inr (0, 0)
          else res_bind (compute_load_metric_up np_exp (scaling_policy s) now_instances) (\<lambda>up.
               res_bind (compute_load_metric_down np_exp (scaling_policy s) now_instances) (\<lambda>down.
               Inr (if up > scale_up_threshold s then (1, 0)
                    else if down < scale_down_threshold s then (0, 1)
                    else (0, 0)))))"

definition ss_update_instance_infos :: "ScalingScheduler \<Rightarrow> (string, InstanceInfo) dict \<Rightarrow> ScalingScheduler" where
  "ss_update_instance_infos s infos = s\<lparr>ss_instance_info := Some infos\<rparr>"

definition ss_add_instance :: "ScalingScheduler \<Rightarrow> string \<Rightarrow> InstanceType \<Rightarrow> ScalingScheduler" where
  "ss_add_instance s x t =
    (let ids = insert x (ss_instance_id_set s)
     in s\<lparr>ss_instance_id_set := ids, ss_num_instances := card ids,
          instance_type_id_set := (instance_type_id_set s)(t := insert x (instance_type_id_set s t))\<rparr>)"

text \<open>The loop over the types removes the id from the first set that holds it.\<close>

fun remove_from_types ::
  "(InstanceType \<Rightarrow> string set) \<Rightarrow> string \<Rightarrow> InstanceType list \<Rightarrow> (InstanceType \<Rightarrow> string set)" where
  "remove_from_types sets x [] = sets"
| "remove_from_types sets x (t # ts) =
    (if x \<in> sets t then sets(t := sets t - {x}) else remove_from_types sets x ts)"

definition ss_remove_instance :: "ScalingScheduler \<Rightarrow> string \<Rightarrow> ScalingScheduler" where
  "ss_remove_instance s x =
    (let ids = ss_instance_id_set s - {x}
     in s\<lparr>ss_instance_id_set := ids,
          instance_type_id_set :=
            remove_from_types (instance_type_id_set s) x [NO_CONSTRAINTS, PREFILL, DECODE],
          ss_num_instances := card ids\<rparr>)"

text \<open>
  The report of an instance that has just been launched. The code stores the integer
  \<open>-1\<close> as a placeholder id, which the caller overwrites at once; here it is a string.
\<close>

definition get_empty_instance_info :: InstanceInfo where
  "get_empty_instance_info =
    (post_init default_InstanceInfo)\<lparr>instance_id := ''-1'', step_id := Some (- 1),
       num_total_gpu_blocks := PInf, num_available_gpu_blocks := PInf,
       num_free_gpu_blocks := PInf, num_available_gpu_blocks_waiting := PInf\<rparr>"

subsection \<open>Lemmas\<close>

definition scaling_load :: "(rat \<Rightarrow> rat) \<Rightarrow> string \<Rightarrow> InstanceInfo \<Rightarrow> pynum" where
  "scaling_load np_exp m i = (case scaling_compute_instance_load np_exp m i of Inr l \<Rightarrow> l | Inl _ \<Rightarrow> NaN)"

lemma scaling_loads_ok: "scaling_loads np_exp m infos = Inr (map (scaling_load np_exp m) infos)"
  unfolding scaling_loads_def
proof (rule res_map_total)
  fix i
  show "scaling_compute_instance_load np_exp m i = Inr (scaling_load np_exp m i)"
    using dispatch_load_ok[of np_exp "\<lparr>load_metric = m, enable_defrag = False\<rparr>" i]
    by (auto simp: scaling_load_def scaling_compute_instance_load_def)
qed

lemma compute_load_metric_avg_ok: "is_ok (compute_load_metric_avg np_exp m infos)"
  by (auto simp: compute_load_metric_avg_def scaling_loads_ok py_div_def)

lemma compute_load_metric_ok:
  assumes "infos \<noteq> []"
  shows "is_ok (compute_load_metric_up np_exp p infos)" and "is_ok (compute_load_metric_down np_exp p infos)"
proof -
  show "is_ok (compute_load_metric_up np_exp p infos)"
    using assms by (cases p) (simp_all add: scaling_loads_ok py_max_by_ok py_min_by_ok compute_load_metric_avg_ok)
  show "is_ok (compute_load_metric_down np_exp p infos)"
  proof (cases p)
    case (AvgLoad m)
    have "is_ok (py_min_by fst (zip (map (scaling_load np_exp m) infos) [0..<length infos]))"
      using assms by (simp add: py_min_by_ok)
    then show ?thesis
      using AvgLoad by (auto simp: scaling_loads_ok is_ok_iff[of "py_min_by _ _"] compute_load_metric_avg_ok)
  qed (use assms in \<open>simp_all add: scaling_loads_ok py_max_by_ok\<close>, simp add: py_min_by_ok)
qed

lemma foldl_add_Fin: "foldl (+) (Fin a) (map Fin xs) = Fin (a + sum_list xs)"
  by (induction xs arbitrary: a) (simp_all add: add.assoc)

lemma avg_finite:
  assumes "map (scaling_load np_exp m) infos = map Fin ls" and "infos \<noteq> []"
  shows "compute_load_metric_avg np_exp m infos = Inr (Fin (sum_list ls / of_nat (length ls)))"
proof -
  have "length ls = length infos" using assms(1) by (metis length_map)
  then show ?thesis
    using assms by (simp add: compute_load_metric_avg_def scaling_loads_ok py_div_def zero_pynum_def foldl_add_Fin)
qed

lemma remove_from_types_mem:
  "remove_from_types sets x ts t \<subseteq> sets t"
  by (induction ts) auto

lemma remove_from_types_removes:
  assumes "\<And>t t'. t \<noteq> t' \<Longrightarrow> sets t \<inter> sets t' = {}"
  shows "remove_from_types sets x [NO_CONSTRAINTS, PREFILL, DECODE] = (\<lambda>t. sets t - {x})"
proof (rule ext)
  fix t
  have "x \<in> sets t1 \<Longrightarrow> x \<in> sets t2 \<Longrightarrow> t1 = t2" for t1 t2 using assms by blast
  then show "remove_from_types sets x [NO_CONSTRAINTS, PREFILL, DECODE] t = sets t - {x}"
    by (cases t) auto
qed

lemma map_filter_complete:
  assumes "length xs \<le> length (List.map_filter f xs)" and "x \<in> set xs"
  shows "f x \<noteq> None"
proof -
  have "length (List.map_filter f xs) = length (filter (\<lambda>x. f x \<noteq> None) xs)"
    by (simp add: List.map_filter_def)
  with assms(1) have "filter (\<lambda>x. f x \<noteq> None) xs = xs"
    by (metis filter_id_conv length_filter_less less_le_not_le)
  with assms(2) show ?thesis by (auto simp: filter_id_conv)
qed

lemma check_scale_decides:
  assumes "ss_instance_info s = Some infos" and "infos \<noteq> []" and "ss_num_instances s \<noteq> 0"
    and "ss_num_instances s \<le> length infos"
    and "ss_num_instances s \<le> length (List.map_filter (dget infos) order)"
  shows "\<exists>r \<in> {(0, 0), (1, 0), (0, 1)}. ss_check_scale np_exp s order = Inr r"
proof -
  let ?now = "List.map_filter (dget infos) order"
  have ne: "?now \<noteq> []" using assms(3,5) by auto
  obtain up down where "compute_load_metric_up np_exp (scaling_policy s) ?now = Inr up"
    "compute_load_metric_down np_exp (scaling_policy s) ?now = Inr down"
    using compute_load_metric_ok[OF ne, of np_exp "scaling_policy s"] by (auto simp: is_ok_iff)
  then show ?thesis using assms by (simp add: ss_check_scale_def Let_def)
qed

text \<open>Removing the least element does not lower the average.\<close>

lemma average_without_least:
  fixes xs ys :: "rat list"
  assumes "\<And>y. y \<in> set (xs @ m # ys) \<Longrightarrow> m \<le> y" and "xs @ ys \<noteq> []"
  shows "sum_list (xs @ m # ys) / of_nat (length (xs @ m # ys)) \<le> sum_list (xs @ ys) / of_nat (length (xs @ ys))"
proof -
  let ?zs = "xs @ ys"
  have "of_nat (length zs) * m \<le> sum_list zs" if "\<And>y. y \<in> set zs \<Longrightarrow> m \<le> y" for zs :: "rat list"
    using that by (induction zs) (auto simp: algebra_simps intro: add_mono)
  from this[of ?zs] have le: "of_nat (length ?zs) * m \<le> sum_list ?zs" using assms(1) by fastforce
  have pos: "0 < (of_nat (length ?zs) :: rat)"
    using assms(2) by (simp only: of_nat_0_less_iff length_greater_0_conv not_False_eq_True)
  have "(sum_list ?zs + m) * of_nat (length ?zs) \<le> sum_list ?zs * (of_nat (length ?zs) + 1)"
    using le by (simp add: algebra_simps)
  then have "(sum_list ?zs + m) / (of_nat (length ?zs) + 1) \<le> sum_list ?zs / of_nat (length ?zs)"
    using pos by (simp add: divide_le_eq le_divide_eq mult.commute)
  then show ?thesis by (simp add: algebra_simps)
qed

lemma split_at_nth: "k < length xs \<Longrightarrow> xs = take k xs @ xs ! k # drop (Suc k) xs"
  by (rule id_take_nth_drop)

lemma avg_down_at_least_up:
  assumes loads: "map (scaling_load np_exp m) infos = map Fin ls" and len: "1 < length infos"
  shows "\<exists>up down. compute_load_metric_up np_exp (AvgLoad m) infos = Inr up
    \<and> compute_load_metric_down np_exp (AvgLoad m) infos = Inr down \<and> up \<le> down"
proof -
  have n: "length ls = length infos" using loads by (metis length_map)
  let ?zip = "zip (map Fin ls) [0..<length infos]"
  obtain q where q: "py_min_by fst ?zip = Inr q"
    using len n py_min_by_ok[of fst ?zip] by (auto simp: is_ok_iff simp flip: length_0_conv)
  then obtain k where k: "k < length ls" "q = (Fin (ls ! k), k)"
    using py_min_by_in[OF q] n by (auto simp: in_set_zip)
  have least: "ls ! k \<le> y" if y: "y \<in> set ls" for y
  proof -
    obtain j where "j < length ls" "y = ls ! j" using y by (metis in_set_conv_nth)
    then have "(Fin y, j) \<in> set ?zip" using n by (force simp: in_set_zip)
    then have "fst q \<le> Fin y"
      using py_min_by_pynum_lower[OF q, of "(Fin y, j)"] by (force dest: set_zip_leftD)
    then show ?thesis using k(2) by simp
  qed
  let ?rest = "take k infos @ drop (Suc k) infos" and ?ls = "take k ls @ drop (Suc k) ls"
  have rest: "map (scaling_load np_exp m) ?rest = map Fin ?ls"
    using loads by (simp add: take_map[symmetric] drop_map[symmetric])
  have ne: "?rest \<noteq> []" "?ls \<noteq> []" using len n k(1) by auto
  have "Fin (sum_list ls / of_nat (length ls)) \<le> Fin (sum_list ?ls / of_nat (length ?ls))"
    using average_without_least[of "take k ls" "ls ! k" "drop (Suc k) ls"] least ne(2)
    by (simp flip: split_at_nth[OF k(1)])
  then show ?thesis
    using len avg_finite[OF loads] avg_finite[OF rest ne(1)] q k(2)
    by (auto simp: scaling_loads_ok loads simp flip: length_0_conv)
qed

subsection \<open>Properties\<close>

text \<open>
  A scaling decision never raises, asks for at most one instance more or one fewer
  and never both, and asks for a change only when every registered instance has reported.
\<close>

theorem check_scale_decision:
  assumes "ss_num_instances s = card (ss_instance_id_set s)"
    and "distinct order" and "set order = ss_instance_id_set s"
  shows "\<exists>r \<in> {(0, 0), (1, 0), (0, 1)}. ss_check_scale np_exp s order = Inr r
    \<and> (r \<noteq> (0, 0) \<longrightarrow> ss_instance_id_set s \<noteq> {}
        \<and> (\<exists>infos. ss_instance_info s = Some infos \<and> ss_instance_id_set s \<subseteq> set (dkeys infos)))"
proof (cases "\<exists>infos. ss_instance_info s = Some infos \<and> infos \<noteq> [] \<and> ss_num_instances s \<noteq> 0
    \<and> ss_num_instances s \<le> length infos
    \<and> ss_num_instances s \<le> length (List.map_filter (dget infos) order)")
  case True
  then obtain infos where infos: "ss_instance_info s = Some infos" "infos \<noteq> []" "ss_num_instances s \<noteq> 0"
    "ss_num_instances s \<le> length infos"
    "ss_num_instances s \<le> length (List.map_filter (dget infos) order)" by blast
  have "length order = ss_num_instances s" using assms distinct_card by metis
  then have "dget infos x \<noteq> None" if "x \<in> ss_instance_id_set s" for x
    using map_filter_complete[of order "dget infos" x] infos(5) that assms(3) by simp
  then have "ss_instance_id_set s \<subseteq> set (dkeys infos)" by (auto simp: dmem_iff)
  moreover have "ss_instance_id_set s \<noteq> {}" using infos(3) assms(1) by auto
  ultimately show ?thesis using check_scale_decides[OF infos, of np_exp] infos(1) by blast
next
  case False
  then have "ss_check_scale np_exp s order = Inr (0, 0)"
    by (auto simp: ss_check_scale_def Let_def not_le split: option.split)
  then show ?thesis by blast
qed

theorem check_scale_decision_witness:
  "\<exists>r \<in> {(0, 0), (1, 0), (0, 1)}.
    ss_check_scale (\<lambda>_. 1) \<lparr>scale_up_threshold = Fin (- 10), scale_down_threshold = Fin (- 60),
      scaling_policy = AvgLoad ''remaining_steps'', ss_num_instances = 1, ss_instance_id_set = {''a''},
      ss_enable_pd_disagg = False, ss_instance_info = Some [(''a'', default_InstanceInfo)],
      instance_type_id_set = (\<lambda>_. {})\<rparr> [''a''] = Inr r"
  using check_scale_decision[of "\<lparr>scale_up_threshold = Fin (- 10), scale_down_threshold = Fin (- 60),
      scaling_policy = AvgLoad ''remaining_steps'', ss_num_instances = 1, ss_instance_id_set = {''a''},
      ss_enable_pd_disagg = False, ss_instance_info = Some [(''a'', default_InstanceInfo)],
      instance_type_id_set = (\<lambda>_. {})\<rparr>" "[''a'']" "\<lambda>_. 1"]
  by fastforce

text \<open>
  The average-load policy is conservative. On finite loads the metric it compares
  with the scale-down threshold, the average after removing the least loaded instance, is
  at least the current average; a single instance is never given up.
\<close>

theorem avg_load_scale_down_conservative:
  assumes "\<forall>i \<in> set infos. \<exists>l. scaling_load np_exp m i = Fin l" and "infos \<noteq> []"
  shows "\<exists>up down. compute_load_metric_up np_exp (AvgLoad m) infos = Inr up
    \<and> compute_load_metric_down np_exp (AvgLoad m) infos = Inr down \<and> up \<le> down
    \<and> (length infos = 1 \<longrightarrow> down = PInf)"
proof -
  have "\<exists>ls. map (scaling_load np_exp m) infos = map Fin ls"
    using assms(1) by (induction infos) (auto, metis list.simps(9))
  then obtain ls where ls: "map (scaling_load np_exp m) infos = map Fin ls" ..
  show ?thesis
  proof (cases "length infos = 1")
    case True
    then show ?thesis using avg_finite[OF ls assms(2)] by simp
  next
    case False
    then have "1 < length infos" using assms(2) by (cases infos) auto
    from avg_down_at_least_up[OF ls this] False show ?thesis by blast
  qed
qed

theorem avg_load_scale_down_conservative_witness:
  "\<exists>up down. compute_load_metric_up (\<lambda>_. 1) (AvgLoad ''remaining_steps'')
        [default_InstanceInfo\<lparr>num_running_requests := 2, num_available_gpu_blocks := Fin 8\<rparr>] = Inr up
    \<and> compute_load_metric_down (\<lambda>_. 1) (AvgLoad ''remaining_steps'')
        [default_InstanceInfo\<lparr>num_running_requests := 2, num_available_gpu_blocks := Fin 8\<rparr>] = Inr down
    \<and> up \<le> down"
  using avg_load_scale_down_conservative[of
      "[default_InstanceInfo\<lparr>num_running_requests := 2, num_available_gpu_blocks := Fin 8\<rparr>]"
      "\<lambda>_. 1" "''remaining_steps''"]
  by (auto simp: scaling_load_def scaling_compute_instance_load_def dispatch_compute_instance_load_def
      default_InstanceInfo_def zero_pynum_def py_div_def)

end
