(* ===== verification/Global_Scheduler.thy ===== *)
theory Global_Scheduler
  imports Dispatch Migration_Pairing Scaling
begin

text \<open>
  The \<open>GlobalScheduler\<close> that owns the dispatch, migration and scaling schedulers
  (\<open>global_scheduler/global_scheduler.py\<close>, its configuration in \<open>internal_config.py\<close>), and
  the manager's choice of a prefill and a decode instance, which works on its state only.
  In the code the migration and scaling schedulers hold a reference to the global table of
  reports; every method here refreshes their copy right before it is read, as the code does.
\<close>

record GlobalSchedulerConfig =
  initial_instances :: int
  gc_dispatch_policy :: string
  gc_topk_random_dispatch :: int
  gc_pair_migration_policy :: string
  migrate_out_load_threshold :: pynum
  gc_scaling_policy :: string
  scaling_load_metric :: string
  gc_scale_up_threshold :: pynum
  gc_scale_down_threshold :: pynum
  enable_pd_disagg :: bool
  is_group_kind_migration_backend :: bool

record GlobalScheduler =
  global_scheduler_config :: GlobalSchedulerConfig
  num_instances :: nat
  instance_id_set :: "string set"
  instance_info :: "(string, InstanceInfo) dict"
  dispatch_scheduler :: DispatchScheduler
  migration_scheduler :: MigrationScheduler
  v1_migration_scheduler :: V1MigrationScheduler
  scaling_scheduler :: ScalingScheduler

definition init_GlobalScheduler :: "GlobalSchedulerConfig \<Rightarrow> GlobalScheduler res" where
  "init_GlobalScheduler c =
    res_bind (init_DispatchScheduler (gc_dispatch_policy c) (gc_topk_random_dispatch c)) (\<lambda>d.
    res_bind (init_MigrationScheduler (gc_pair_migration_policy c) (migrate_out_load_threshold c)
        (is_group_kind_migration_backend c)) (\<lambda>m.
    let v1 = init_V1MigrationScheduler (gc_pair_migration_policy c) (migrate_out_load_threshold c) {} in
    res_bind (init_ScalingScheduler (gc_scale_up_threshold c) (gc_scale_down_threshold c)
        (gc_scaling_policy c) (scaling_load_metric c) (enable_pd_disagg c)) (\<lambda>sc.
    Inr \<lparr>global_scheduler_config = c, num_instances = 0, instance_id_set = {}, instance_info = [],
         dispatch_scheduler = d, migration_scheduler = m, v1_migration_scheduler = v1,
         scaling_scheduler = sc\<rparr>)))"

fun gs_update_instance_infos :: "GlobalScheduler \<Rightarrow> InstanceInfo list \<Rightarrow> GlobalScheduler" where
  "gs_update_instance_infos s [] = s"
| "gs_update_instance_infos s (i # infos) =
    gs_update_instance_infos
      (if instance_id i \<in> instance_id_set s
       then s\<lparr>instance_info := dset (instance_id i) i (instance_info s)\<rparr> else s) infos"

definition gs_dispatch ::
  "GlobalScheduler \<Rightarrow> block_hash list option \<Rightarrow> nat \<Rightarrow> (string \<times> pynum) res \<times> GlobalScheduler" where
  "gs_dispatch s block_hashes rnd =
    (let d = ds_update_instance_infos (dispatch_scheduler s) (instance_info s);
         (r, d) = ds_dispatch d block_hashes rnd;
         request_expected_steps = (if enable_pd_disagg (global_scheduler_config s) then 1 else PInf)
     in (res_bind r (\<lambda>x. Inr (x, request_expected_steps)), s\<lparr>dispatch_scheduler := d\<rparr>))"

definition gs_pair_migration ::
  "GlobalScheduler \<Rightarrow> PairMigrationConstraints \<Rightarrow> (string \<times> string) list res \<times> GlobalScheduler" where
  "gs_pair_migration s t =
    (let m = ms_update_instance_infos (migration_scheduler s) (instance_info s)
     in (ms_pair_migration m t, s\<lparr>migration_scheduler := m\<rparr>))"

definition gs_pair_migration_v1 ::
  "GlobalScheduler \<Rightarrow> PairMigrationConstraints \<Rightarrow> (string \<times> string) list res \<times> GlobalScheduler" where
  "gs_pair_migration_v1 s t =
    (case v1_update_instance_infos (v1_migration_scheduler s) (instance_info s) of
       Inl e \<Rightarrow> (Inl e, s)
     | Inr v \<Rightarrow> (v1_pair_migration v t, s\<lparr>v1_migration_scheduler := v\<rparr>))"

definition gs_check_scale ::
  "(rat \<Rightarrow> rat) \<Rightarrow> GlobalScheduler \<Rightarrow> string list \<Rightarrow> (nat \<times> nat) res \<times> GlobalScheduler" where
  "gs_check_scale np_exp s order =
    (let c = ss_update_instance_infos (scaling_scheduler s) (instance_info s)
     in (ss_check_scale np_exp c order, s\<lparr>scaling_scheduler := c\<rparr>))"

definition gs_add_instance :: "GlobalScheduler \<Rightarrow> string \<Rightarrow> InstanceType \<Rightarrow> GlobalScheduler" where
  "gs_add_instance s x t =
    (let s = s\<lparr>instance_id_set := insert x (instance_id_set s)\<rparr>;
         s = s\<lparr>num_instances := card (instance_id_set s)\<rparr>
     in s\<lparr>dispatch_scheduler :=
            ds_add_instance (ds_update_instance_infos (dispatch_scheduler s) (instance_info s)) x t,
          migration_scheduler :=
            ms_add_instance (ms_update_instance_infos (migration_scheduler s) (instance_info s)) x t,
          scaling_scheduler :=
            ss_add_instance (ss_update_instance_infos (scaling_scheduler s) (instance_info s)) x t\<rparr>)"

definition gs_remove_instance :: "GlobalScheduler \<Rightarrow> string \<Rightarrow> GlobalScheduler" where
  "gs_remove_instance s x =
    (let s = s\<lparr>instance_id_set := instance_id_set s - {x}\<rparr>;
         s = s\<lparr>num_instances := card (instance_id_set s)\<rparr>
     in s\<lparr>dispatch_scheduler :=
            ds_remove_instance (ds_update_instance_infos (dispatch_scheduler s) (instance_info s)) x,
          migration_scheduler :=
            ms_remove_instance (ms_update_instance_infos (migration_scheduler s) (instance_info s)) x,
          scaling_scheduler :=
            ss_remove_instance (ss_update_instance_infos (scaling_scheduler s) (instance_info s)) x\<rparr>)"

fun gs_scale_up :: "GlobalScheduler \<Rightarrow> (string \<times> InstanceType) list \<Rightarrow> GlobalScheduler" where
  "gs_scale_up s [] = s"
| "gs_scale_up s ((x, t) # rest) =
    gs_scale_up
      (if x \<in> instance_id_set s then s
       else gs_add_instance
              (s\<lparr>instance_info := dset x (get_empty_instance_info\<lparr>instance_id := x\<rparr>) (instance_info s)\<rparr>) x t) rest"

fun gs_scale_down :: "GlobalScheduler \<Rightarrow> string list \<Rightarrow> GlobalScheduler" where
  "gs_scale_down s [] = s"
| "gs_scale_down s (x # rest) =
    gs_scale_down
      (if x \<in> instance_id_set s
       then gs_remove_instance (s\<lparr>instance_info := dpop x (instance_info s)\<rparr>) x
       else s) rest"

text \<open>The manager's choice of the two roles of a prefill/decode request.\<close>

definition role_ids :: "InstanceType \<Rightarrow> (string, InstanceInfo) dict \<Rightarrow> string list" where
  "role_ids t infos = map fst (filter (\<lambda>(_, i). instance_type i = Some t) infos)"

definition select_v1_pd_instances ::
  "GlobalScheduler \<Rightarrow> block_hash list option \<Rightarrow> nat \<Rightarrow> nat \<Rightarrow> (string \<times> string) option res \<times> GlobalScheduler" where
  "select_v1_pd_instances s block_hashes rnd1 rnd2 =
    (let prefill_ids = role_ids PREFILL (instance_info s);
         decode_ids = role_ids DECODE (instance_info s)
     in if prefill_ids = [] \<or> decode_ids = [] then (Inr None, s)
        else
          let d = ds_update_instance_infos (dispatch_scheduler s) (instance_info s);
              d = d\<lparr>ds_instance_info := dupdate (ds_instance_info d) (instance_info s)\<rparr>
          in (case dispatch_candidates d (set prefill_ids) block_hashes rnd1 of
                (Inl e, d) \<Rightarrow> (Inl e, s\<lparr>dispatch_scheduler := d\<rparr>)
              | (Inr p, d) \<Rightarrow>
                 (case dispatch_candidates d (set decode_ids) block_hashes rnd2 of
                    (Inl e, d) \<Rightarrow> (Inl e, s\<lparr>dispatch_scheduler := d\<rparr>)
                  | (Inr q, d) \<Rightarrow> (Inr (Some (p, q)), s\<lparr>dispatch_scheduler := d\<rparr>))))"

subsection \<open>The contract of a member scheduler\<close>

text \<open>
  What the global scheduler relies on: each scheduler tracks the ids of the instances it
  admits, and a refresh of the reports does not change them.
\<close>

locale member_scheduler =
  fixes tracked :: "'s \<Rightarrow> string set"
    and update_infos :: "'s \<Rightarrow> (string, InstanceInfo) dict \<Rightarrow> 's"
    and add :: "'s \<Rightarrow> string \<Rightarrow> InstanceType \<Rightarrow> 's"
    and remove :: "'s \<Rightarrow> string \<Rightarrow> 's"
    and admits :: "InstanceType \<Rightarrow> bool"
  assumes tracked_update: "tracked (update_infos s infos) = tracked s"
    and tracked_add: "tracked (add s x t) = (if admits t then insert x (tracked s) else tracked s)"
    and tracked_remove: "tracked (remove s x) = tracked s - {x}"
begin

lemma tracked_join: "tracked (add (update_infos s infos) x t) = (if admits t then insert x (tracked s) else tracked s)"
  by (simp add: tracked_add tracked_update)

lemma tracked_leave: "tracked (remove (update_infos s infos) x) = tracked s - {x}"
  by (simp add: tracked_remove tracked_update)

lemma join_leave: "x \<notin> tracked s \<Longrightarrow> tracked (remove (add s x t) x) = tracked s"
  by (simp add: tracked_add tracked_remove)

end

interpretation dispatch_member: member_scheduler available_dispatch_instance_set
  ds_update_instance_infos ds_add_instance ds_remove_instance "\<lambda>t. t \<in> {NO_CONSTRAINTS, PREFILL}"
  by unfold_locales
    (auto simp: ds_update_instance_infos_def ds_add_instance_def ds_remove_instance_def Let_def)

interpretation migration_member: member_scheduler ms_instance_id_set
  ms_update_instance_infos ms_add_instance ms_remove_instance "\<lambda>_. True"
  by unfold_locales
    (auto simp: ms_update_instance_infos_def ms_add_instance_def ms_remove_instance_def Let_def)

interpretation scaling_member: member_scheduler ss_instance_id_set
  ss_update_instance_infos ss_add_instance ss_remove_instance "\<lambda>_. True"
  by unfold_locales
    (auto simp: ss_update_instance_infos_def ss_add_instance_def ss_remove_instance_def Let_def)

subsection \<open>The invariant\<close>

datatype gs_event =
    GsUpdate "InstanceInfo list"
  | GsDispatch "block_hash list option" nat
  | GsPair PairMigrationConstraints
  | GsPairV1 PairMigrationConstraints
  | GsCheckScale "string list"
  | GsScaleUp "(string \<times> InstanceType) list"
  | GsScaleDown "string list"
  | GsSelectPd "block_hash list option" nat nat

fun gs_step :: "(rat \<Rightarrow> rat) \<Rightarrow> GlobalScheduler \<Rightarrow> gs_event \<Rightarrow> GlobalScheduler" where
  "gs_step np_exp s (GsUpdate infos) = gs_update_instance_infos s infos"
| "gs_step np_exp s (GsDispatch h r) = snd (gs_dispatch s h r)"
| "gs_step np_exp s (GsPair t) = snd (gs_pair_migration s t)"
| "gs_step np_exp s (GsPairV1 t) = snd (gs_pair_migration_v1 s t)"
| "gs_step np_exp s (GsCheckScale order) = snd (gs_check_scale np_exp s order)"
| "gs_step np_exp s (GsScaleUp xs) = gs_scale_up s xs"
| "gs_step np_exp s (GsScaleDown xs) = gs_scale_down s xs"
| "gs_step np_exp s (GsSelectPd h r1 r2) = snd (select_v1_pd_instances s h r1 r2)"

text \<open>The dispatch scheduler's view: its reports are those of registered instances.\<close>

definition ds_view_ok :: "string set \<Rightarrow> DispatchScheduler \<Rightarrow> bool" where
  "ds_view_ok ids d \<longleftrightarrow> keyed (ds_instance_info d) \<and> fst ` set (ds_instance_info d) \<subseteq> ids \<and> ds_inv d"

definition types_ok :: "string set \<Rightarrow> (InstanceType \<Rightarrow> string set) \<Rightarrow> bool" where
  "types_ok ids sets \<longleftrightarrow> sets NO_CONSTRAINTS \<inter> sets PREFILL = {} \<and> sets NO_CONSTRAINTS \<inter> sets DECODE = {}
    \<and> sets PREFILL \<inter> sets DECODE = {} \<and> sets NO_CONSTRAINTS \<union> sets PREFILL \<union> sets DECODE = ids"

definition gs_inv :: "GlobalScheduler \<Rightarrow> bool" where
  "gs_inv s \<longleftrightarrow>
     finite (instance_id_set s) \<and> num_instances s = card (instance_id_set s)
   \<and> keyed (instance_info s) \<and> fst ` set (instance_info s) = instance_id_set s
   \<and> ms_instance_id_set (migration_scheduler s) = instance_id_set s
   \<and> ms_num_instances (migration_scheduler s) = num_instances s
   \<and> ss_instance_id_set (scaling_scheduler s) = instance_id_set s
   \<and> ss_num_instances (scaling_scheduler s) = num_instances s
   \<and> types_ok (instance_id_set s) (instance_type_id_set (scaling_scheduler s))
   \<and> available_dispatch_instance_set (dispatch_scheduler s)
       = instance_type_id_set (scaling_scheduler s) NO_CONSTRAINTS
         \<union> instance_type_id_set (scaling_scheduler s) PREFILL
   \<and> ds_view_ok (instance_id_set s) (dispatch_scheduler s)"

lemma dispatch_candidates_frame:
  "available_dispatch_instance_set (snd (dispatch_candidates d ids h r)) = available_dispatch_instance_set d"
  "ds_instance_info (snd (dispatch_candidates d ids h r)) = ds_instance_info d"
  "topk_random_dispatch (snd (dispatch_candidates d ids h r)) = topk_random_dispatch d"
  by (simp_all add: dispatch_candidates_def Let_def case_prod_unfold split: sum.split)

lemma ds_dispatch_frame:
  "available_dispatch_instance_set (snd (ds_dispatch d h r)) = available_dispatch_instance_set d"
  "ds_instance_info (snd (ds_dispatch d h r)) = ds_instance_info d"
  by (simp_all add: ds_dispatch_def Let_def case_prod_unfold dispatch_candidates_frame)

lemma ds_view_update:
  assumes "ds_view_ok ids d" and "keyed infos" and "fst ` set infos \<subseteq> ids"
  shows "ds_view_ok ids (ds_update_instance_infos d infos)"
  using assms ds_update_inv[of d infos]
  by (auto simp: ds_view_ok_def ds_update_instance_infos_def keyed_dupdate keyed_filter dkeys_dupdate)

lemma ds_view_dispatch: "ds_view_ok ids d \<Longrightarrow> ds_view_ok ids (snd (ds_dispatch d h r))"
  by (simp add: ds_view_ok_def ds_dispatch_frame ds_dispatch_inv)

lemma ds_view_candidates: "ds_view_ok ids d \<Longrightarrow> ds_view_ok ids (snd (dispatch_candidates d c h r))"
  by (simp add: ds_view_ok_def dispatch_candidates_frame dispatch_candidates_inv)

lemma ds_view_add: "ds_view_ok ids d \<Longrightarrow> ds_view_ok (insert x ids) (ds_add_instance d x t)"
  using ds_add_inv[of d x t] by (auto simp: ds_view_ok_def ds_add_instance_def)

lemma ds_view_remove: "ds_view_ok ids d \<Longrightarrow> ds_view_ok (ids - {x}) (ds_remove_instance d x)"
  using ds_remove_inv[of d x]
  by (auto simp: ds_view_ok_def ds_remove_instance_def Let_def keyed_dpop dest: dpop_entries)

lemma ds_view_mono: "ds_view_ok ids d \<Longrightarrow> ids \<subseteq> ids' \<Longrightarrow> ds_view_ok ids' d"
  by (auto simp: ds_view_ok_def)

lemma types_ok_add: "types_ok ids sets \<Longrightarrow> x \<notin> ids \<Longrightarrow> types_ok (insert x ids) (sets(t := insert x (sets t)))"
  by (cases t) (auto simp: types_ok_def)

lemma types_ok_remove:
  assumes "types_ok ids sets"
  shows "remove_from_types sets x [NO_CONSTRAINTS, PREFILL, DECODE] = (\<lambda>t. sets t - {x})"
    and "types_ok (ids - {x}) (\<lambda>t. sets t - {x})"
proof -
  show "remove_from_types sets x [NO_CONSTRAINTS, PREFILL, DECODE] = (\<lambda>t. sets t - {x})"
  proof (rule remove_from_types_removes)
    fix t t' :: InstanceType assume "t \<noteq> t'"
    then show "sets t \<inter> sets t' = {}" using assms by (cases t; cases t') (auto simp: types_ok_def)
  qed
  show "types_ok (ids - {x}) (\<lambda>t. sets t - {x})" using assms by (auto simp: types_ok_def)
qed

lemma gs_update_inv: "gs_inv s \<Longrightarrow> gs_inv (gs_update_instance_infos s infos)"
proof (induction s infos rule: gs_update_instance_infos.induct)
  case (2 s i infos)
  have "gs_inv (s\<lparr>instance_info := dset (instance_id i) i (instance_info s)\<rparr>)"
    if "instance_id i \<in> instance_id_set s"
    using 2(2) that by (auto simp: gs_inv_def keyed_dset dkeys_dset)
  with 2 show ?case by simp
qed simp

lemma gs_dispatch_inv: "gs_inv s \<Longrightarrow> gs_inv (snd (gs_dispatch s h r))"
  using ds_view_update[of "instance_id_set s" "dispatch_scheduler s" "instance_info s"]
  by (simp add: gs_inv_def gs_dispatch_def Let_def case_prod_unfold ds_dispatch_frame
      dispatch_member.tracked_update ds_view_dispatch)

lemma gs_pair_inv: "gs_inv s \<Longrightarrow> gs_inv (snd (gs_pair_migration s t))"
  by (simp add: gs_inv_def gs_pair_migration_def Let_def ms_update_instance_infos_def)

lemma gs_pair_v1_inv: "gs_inv s \<Longrightarrow> gs_inv (snd (gs_pair_migration_v1 s t))"
  by (simp add: gs_inv_def gs_pair_migration_v1_def split: sum.split)

lemma gs_check_scale_inv: "gs_inv s \<Longrightarrow> gs_inv (snd (gs_check_scale np_exp s order))"
  by (simp add: gs_inv_def gs_check_scale_def Let_def ss_update_instance_infos_def)

lemma gs_add_inv:
  assumes "gs_inv s" and "x \<notin> instance_id_set s" and "instance_id i = x"
  shows "gs_inv (gs_add_instance (s\<lparr>instance_info := dset x i (instance_info s)\<rparr>) x t)"
proof -
  let ?infos = "dset x i (instance_info s)"
  have infos: "keyed ?infos" "fst ` set ?infos = insert x (instance_id_set s)"
    using assms by (auto simp: gs_inv_def keyed_dset dkeys_dset)
  have "ds_view_ok (insert x (instance_id_set s)) (ds_update_instance_infos (dispatch_scheduler s) ?infos)"
    by (rule ds_view_update) (use assms(1) infos in \<open>auto simp: gs_inv_def intro: ds_view_mono\<close>)
  from ds_view_add[OF this, of x t] have
    "ds_view_ok (insert x (instance_id_set s)) (ds_add_instance (ds_update_instance_infos (dispatch_scheduler s) ?infos) x t)"
    by simp
  moreover have "types_ok (insert x (instance_id_set s))
      ((instance_type_id_set (scaling_scheduler s))(t := insert x (instance_type_id_set (scaling_scheduler s) t)))"
    using assms(1,2) by (intro types_ok_add) (auto simp: gs_inv_def)
  ultimately show ?thesis
    using assms(1,2) infos
    by (cases t) (auto simp: gs_inv_def gs_add_instance_def Let_def dispatch_member.tracked_join
        migration_member.tracked_join ms_add_instance_def ss_add_instance_def
        ms_update_instance_infos_def ss_update_instance_infos_def)
qed

lemma gs_remove_inv:
  assumes "gs_inv s"
  shows "gs_inv (gs_remove_instance (s\<lparr>instance_info := dpop x (instance_info s)\<rparr>) x)"
proof -
  let ?infos = "dpop x (instance_info s)"
  have infos: "keyed ?infos" "fst ` set ?infos = instance_id_set s - {x}"
    using assms by (auto simp: gs_inv_def keyed_dpop dkeys_dpop)
  have "ds_view_ok (instance_id_set s) (ds_update_instance_infos (dispatch_scheduler s) ?infos)"
    by (rule ds_view_update) (use assms infos in \<open>auto simp: gs_inv_def\<close>)
  from ds_view_remove[OF this, of x] have
    "ds_view_ok (instance_id_set s - {x}) (ds_remove_instance (ds_update_instance_infos (dispatch_scheduler s) ?infos) x)" .
  moreover have "types_ok (instance_id_set s) (instance_type_id_set (scaling_scheduler s))"
    using assms by (simp add: gs_inv_def)
  ultimately show ?thesis
    using assms infos
    by (auto simp: gs_inv_def gs_remove_instance_def Let_def dispatch_member.tracked_leave
        ms_remove_instance_def ss_remove_instance_def types_ok_remove
        ms_update_instance_infos_def ss_update_instance_infos_def
        simp del: remove_from_types.simps)
qed

lemma gs_scale_up_inv: "gs_inv s \<Longrightarrow> gs_inv (gs_scale_up s xs)"
  by (induction s xs rule: gs_scale_up.induct) (simp_all add: gs_add_inv)

lemma gs_scale_down_inv: "gs_inv s \<Longrightarrow> gs_inv (gs_scale_down s xs)"
  by (induction s xs rule: gs_scale_down.induct) (simp_all add: gs_remove_inv)

lemma gs_inv_dispatch_scheduler:
  assumes "gs_inv s" and "ds_view_ok (instance_id_set s) d"
    and "available_dispatch_instance_set d = available_dispatch_instance_set (dispatch_scheduler s)"
  shows "gs_inv (s\<lparr>dispatch_scheduler := d\<rparr>)"
  using assms by (simp add: gs_inv_def)

text \<open>The dispatch scheduler as the selection of the two roles prepares it.\<close>

abbreviation pd_view :: "GlobalScheduler \<Rightarrow> DispatchScheduler" where
  "pd_view s \<equiv>
    (let d = ds_update_instance_infos (dispatch_scheduler s) (instance_info s)
     in d\<lparr>ds_instance_info := dupdate (ds_instance_info d) (instance_info s)\<rparr>)"

lemma pd_view_ok:
  assumes "gs_inv s"
  shows "ds_view_ok (instance_id_set s) (pd_view s)"
    and "available_dispatch_instance_set (pd_view s) = available_dispatch_instance_set (dispatch_scheduler s)"
proof -
  let ?d = "ds_update_instance_infos (dispatch_scheduler s) (instance_info s)"
  have "ds_view_ok (instance_id_set s) ?d"
    by (rule ds_view_update) (use assms in \<open>auto simp: gs_inv_def\<close>)
  then show "ds_view_ok (instance_id_set s) (pd_view s)"
    using assms
    by (auto simp: ds_view_ok_def ds_inv_def Let_def gs_inv_def keyed_dupdate dkeys_dupdate distinct_dupdate)
qed (simp add: Let_def dispatch_member.tracked_update)

lemma select_pd_inv:
  assumes "gs_inv s"
  shows "gs_inv (snd (select_v1_pd_instances s h r1 r2))"
proof -
  let ?P = "set (role_ids PREFILL (instance_info s))" and ?Q = "set (role_ids DECODE (instance_info s))"
  let ?d1 = "snd (dispatch_candidates (pd_view s) ?P h r1)"
  let ?d2 = "snd (dispatch_candidates ?d1 ?Q h r2)"
  have state: "snd (select_v1_pd_instances s h r1 r2)
      \<in> {s, s\<lparr>dispatch_scheduler := ?d1\<rparr>, s\<lparr>dispatch_scheduler := ?d2\<rparr>}"
    by (simp add: select_v1_pd_instances_def Let_def case_prod_unfold split: sum.split)
  note view = pd_view_ok[OF assms]
  have "gs_inv (s\<lparr>dispatch_scheduler := ?d1\<rparr>)"
    by (rule gs_inv_dispatch_scheduler[OF assms])
      (simp_all only: ds_view_candidates[OF view(1)] dispatch_candidates_frame view(2))
  moreover have "gs_inv (s\<lparr>dispatch_scheduler := ?d2\<rparr>)"
    by (rule gs_inv_dispatch_scheduler[OF assms])
      (simp_all only: ds_view_candidates[OF ds_view_candidates[OF view(1)]] dispatch_candidates_frame view(2))
  ultimately show ?thesis using state assms by auto
qed

interpretation gs_machine: invariant_machine "gs_step np_exp" gs_inv for np_exp
proof unfold_locales
  fix s e assume "gs_inv s"
  then show "gs_inv (gs_step np_exp s e)"
    by (cases e) (simp_all add: gs_update_inv gs_dispatch_inv gs_pair_inv gs_pair_v1_inv
        gs_check_scale_inv gs_scale_up_inv gs_scale_down_inv select_pd_inv)
qed

lemma init_gs_inv: "init_GlobalScheduler c = Inr s \<Longrightarrow> gs_inv s"
  by (auto simp: init_GlobalScheduler_def res_bind_Inr_iff Let_def init_DispatchScheduler_def
      init_MigrationScheduler_def init_ScalingScheduler_def gs_inv_def types_ok_def ds_view_ok_def ds_inv_def)

lemma dupdate_complete: "k \<in> fst ` set e \<Longrightarrow> dmem k (dupdate d e)"
  by (simp add: dkeys_dupdate)

lemma keyed_member: "keyed d \<Longrightarrow> dmem x d \<Longrightarrow> \<exists>i \<in> set (dvalues d). instance_id i = x"
  by (force simp: keyed_def)

lemma role_ids_iff:
  assumes "keyed infos"
  shows "x \<in> set (role_ids t infos) \<longleftrightarrow> (\<exists>i. dget infos x = Some i \<and> instance_type i = Some t)"
proof -
  have "dget infos x = Some i \<longleftrightarrow> (x, i) \<in> set infos" for i
    using assms by (simp add: keyed_def)
  moreover have "x \<in> set (role_ids t infos) \<longleftrightarrow> (\<exists>i. (x, i) \<in> set infos \<and> instance_type i = Some t)"
    by (auto simp: role_ids_def image_iff Bex_def)
  ultimately show ?thesis by blast
qed

lemma pd_view_pool:
  assumes "gs_inv s" and "x \<in> ids" and "x \<in> instance_id_set s"
  shows "pool_infos (pd_view s) ids \<noteq> []"
proof -
  have "dmem x (ds_instance_info (pd_view s))"
    using assms(1,3) by (auto simp: Let_def dkeys_dupdate gs_inv_def)
  moreover have "keyed (ds_instance_info (pd_view s))"
    using pd_view_ok(1)[OF assms(1)] by (simp add: ds_view_ok_def)
  ultimately obtain i where "i \<in> set (dvalues (ds_instance_info (pd_view s)))" "instance_id i = x"
    using keyed_member by blast
  with assms(2) show ?thesis by (auto simp: filter_empty_conv simp del: set_map)
qed

subsection \<open>Properties\<close>

text \<open>
  C10: over every sequence of report updates, dispatches, pairings, scaling checks, role
  selections, scale-ups and scale-downs the schedulers agree: the migration and scaling
  schedulers track exactly the registered instances and count them, every registered
  instance has exactly one report stored under its id and exactly one role, the
  dispatchable instances are those that are not decode-only, and the dispatch scheduler
  keeps reports of registered instances only.
\<close>

theorem global_scheduler_invariant:
  assumes "init_GlobalScheduler c = Inr s"
  shows "gs_inv (foldl (gs_step np_exp) s events)"
  using init_gs_inv[OF assms] by (rule gs_machine.run_preserves)

definition example_config :: GlobalSchedulerConfig where
  "example_config = \<lparr>initial_instances = 1, gc_dispatch_policy = ''load'', gc_topk_random_dispatch = 1,
    gc_pair_migration_policy = ''balanced'', migrate_out_load_threshold = Fin (- 3),
    gc_scaling_policy = ''avg_load'', scaling_load_metric = ''remaining_steps'',
    gc_scale_up_threshold = Fin (- 10), gc_scale_down_threshold = Fin (- 60),
    enable_pd_disagg = True, is_group_kind_migration_backend = False\<rparr>"

lemma example_config_ok: "\<exists>s. init_GlobalScheduler example_config = Inr s"
  by (simp add: example_config_def init_GlobalScheduler_def init_DispatchScheduler_def get_dispatch_policy_def
      init_MigrationScheduler_def register_migration_backend_init_filter_def init_CustomFilter_def
      get_pair_policy_def init_ScalingScheduler_def get_scale_policy_def Let_def)

theorem global_scheduler_invariant_witness:
  "\<exists>s. init_GlobalScheduler example_config = Inr s
    \<and> gs_inv (foldl (gs_step (\<lambda>_. 1)) s [GsScaleUp [(''p'', PREFILL), (''d'', DECODE)], GsDispatch None 0])"
  using example_config_ok global_scheduler_invariant by blast

text \<open>
  C27: under the load and queue policies an ordinary dispatch succeeds whenever some
  registered instance is dispatchable, and goes to such an instance, never to a decode-only
  one; only with no dispatchable instance it raises. The expected number of steps is one
  with prefill/decode disaggregation and unbounded otherwise.
\<close>

theorem global_dispatch_dispatchable:
  assumes "gs_inv s" and "dispatch_policy (dispatch_scheduler s) \<in> {Load, Queue}"
    and "0 < topk_random_dispatch (dispatch_scheduler s)"
  defines "A \<equiv> available_dispatch_instance_set (dispatch_scheduler s)"
  shows "if A = {} then fst (gs_dispatch s h r) = Inl IndexError
    else \<exists>x \<in> A. fst (gs_dispatch s h r)
      = Inr (x, if enable_pd_disagg (global_scheduler_config s) then 1 else PInf)"
proof -
  let ?d = "ds_update_instance_infos (dispatch_scheduler s) (instance_info s)"
  have A: "available_dispatch_instance_set ?d = A"
    by (simp add: A_def dispatch_member.tracked_update)
  have same: "dispatch_policy ?d = dispatch_policy (dispatch_scheduler s)"
    "topk_random_dispatch ?d = topk_random_dispatch (dispatch_scheduler s)"
    by (simp_all add: ds_update_instance_infos_def)
  let ?av = "pool_infos ?d A"
  have res: "fst (gs_dispatch s h r) = res_bind (fst (ds_dispatch ?d h r))
      (\<lambda>x. Inr (x, if enable_pd_disagg (global_scheduler_config s) then 1 else PInf))"
    by (simp add: gs_dispatch_def Let_def case_prod_unfold)
  show ?thesis
  proof (cases "A = {}")
    case True
    then have "fst (ds_dispatch ?d h r) = Inl IndexError"
      using assms(2) same A by (auto simp: ds_dispatch_def Let_def dispatch_by_def case_prod_unfold)
    with res True show ?thesis by simp
  next
    case False
    then obtain x where x: "x \<in> A" by blast
    have "ds_view_ok (instance_id_set s) ?d" "x \<in> fst ` set (instance_info s)"
      using assms(1) x by (auto simp: gs_inv_def types_ok_def A_def intro: ds_view_update)
    then have "dmem x (ds_instance_info ?d)" "keyed (ds_instance_info ?d)"
      using x by (auto simp: ds_update_instance_infos_def dkeys_dupdate A_def ds_view_ok_def image_iff)
    then obtain i where "i \<in> set (dvalues (ds_instance_info ?d))" "instance_id i = x"
      using keyed_member by blast
    with x have "i \<in> set ?av" by simp
    then have ne: "?av \<noteq> []" by (metis empty_iff empty_set)
    have pool: "pool_infos ?d (instance_id ` set ?av) = ?av"
      by (rule filter_cong) auto
    have ne': "pool_infos ?d (instance_id ` set ?av) \<noteq> []" unfolding pool by (rule ne)
    have dd: "ds_dispatch ?d h r = dispatch_candidates ?d (instance_id ` set ?av) h r"
      using ne by (simp only: ds_dispatch_def A Let_def if_False)
    have topk: "0 < topk_random_dispatch ?d" using assms(3) same by simp
    obtain y where y: "y \<in> instance_id ` set ?av" "fst (ds_dispatch ?d h r) = Inr y"
      using pool_candidates_succeed[OF _ topk ne', of h r, unfolded pool] assms(2) same(1)
      unfolding dd by (metis fst_conv)
    from y(1) have "y \<in> A" by auto
    with y(2) show ?thesis using res False by auto
  qed
qed

text \<open>A cluster of one prefill and one decode instance that have both reported.\<close>

definition example_scheduler :: GlobalScheduler where
  "example_scheduler =
    (let infos = [(''p'', default_InstanceInfo\<lparr>instance_id := ''p'', instance_type := Some PREFILL\<rparr>),
                  (''d'', default_InstanceInfo\<lparr>instance_id := ''d'', instance_type := Some DECODE\<rparr>)]
     in \<lparr>global_scheduler_config = example_config, num_instances = 2, instance_id_set = {''p'', ''d''},
         instance_info = infos,
         dispatch_scheduler = \<lparr>dispatch_policy = Load, topk_random_dispatch = 1,
           available_dispatch_instance_set = {''p''}, ds_instance_info = [], total_num_requests = 0,
           instance_num_requests = [(''p'', 0)]\<rparr>,
         migration_scheduler = \<lparr>migration_filter = \<lparr>filter_config = Fin 0, registered_filters = []\<rparr>,
           pair_migration_policy = PairDefrag (Fin 0), ms_num_instances = 2,
           ms_instance_id_set = {''p'', ''d''}, ms_instance_info = Some infos\<rparr>,
         v1_migration_scheduler = init_V1MigrationScheduler ''defrag'' (Fin 0) {},
         scaling_scheduler = \<lparr>scale_up_threshold = Fin 0, scale_down_threshold = Fin 0,
           scaling_policy = AvgLoad ''remaining_steps'', ss_num_instances = 2,
           ss_instance_id_set = {''p'', ''d''}, ss_enable_pd_disagg = True, ss_instance_info = Some infos,
           instance_type_id_set = (\<lambda>t. if t = PREFILL then {''p''} else if t = DECODE then {''d''} else {})\<rparr>\<rparr>)"

lemma example_scheduler_facts:
  "gs_inv example_scheduler"
  "dispatch_policy (dispatch_scheduler example_scheduler) \<in> {Load, Queue}"
  "0 < topk_random_dispatch (dispatch_scheduler example_scheduler)"
  "role_ids PREFILL (instance_info example_scheduler) = [''p'']"
  "role_ids DECODE (instance_info example_scheduler) = [''d'']"
  "available_dispatch_instance_set (dispatch_scheduler example_scheduler) = {''p''}"
  by (auto simp: example_scheduler_def Let_def gs_inv_def keyed_def types_ok_def ds_view_ok_def ds_inv_def
      role_ids_def)

theorem global_dispatch_dispatchable_witness:
  "\<exists>x \<in> {''p''}. fst (gs_dispatch example_scheduler None 0)
    = Inr (x, if enable_pd_disagg (global_scheduler_config example_scheduler) then 1 else PInf)"
  using global_dispatch_dispatchable[OF example_scheduler_facts(1-3), of None 0] example_scheduler_facts(6)
  by auto

lemma select_pd_roles:
  assumes "gs_inv s" and "dispatch_policy (dispatch_scheduler s) \<in> {Load, Queue}"
    and "0 < topk_random_dispatch (dispatch_scheduler s)"
  shows "if role_ids PREFILL (instance_info s) = [] \<or> role_ids DECODE (instance_info s) = []
    then fst (select_v1_pd_instances s h r1 r2) = Inr None
    else \<exists>p q. fst (select_v1_pd_instances s h r1 r2) = Inr (Some (p, q)) \<and> p \<noteq> q
      \<and> p \<in> set (role_ids PREFILL (instance_info s)) \<and> q \<in> set (role_ids DECODE (instance_info s))"
proof (cases "role_ids PREFILL (instance_info s) = [] \<or> role_ids DECODE (instance_info s) = []")
  case True
  then show ?thesis by (auto simp: select_v1_pd_instances_def)
next
  case False
  let ?P = "set (role_ids PREFILL (instance_info s))" and ?Q = "set (role_ids DECODE (instance_info s))"
  have reg: "?P \<subseteq> instance_id_set s" "?Q \<subseteq> instance_id_set s"
    using assms(1) by (auto simp: gs_inv_def role_ids_def)
  have disj: "?P \<inter> ?Q = {}"
    using assms(1) role_ids_iff[of "instance_info s"] by (auto simp: gs_inv_def)
  have pol: "dispatch_policy (pd_view s) \<in> {Load, Queue}" "0 < topk_random_dispatch (pd_view s)"
    using assms(2,3) by (simp_all add: Let_def ds_update_instance_infos_def)
  have "pool_infos (pd_view s) ?P \<noteq> []" "pool_infos (pd_view s) ?Q \<noteq> []"
    using False reg pd_view_pool[OF assms(1)] by (metis hd_in_set subsetD)+
  then obtain p where p: "p \<in> ?P"
      "dispatch_candidates (pd_view s) ?P h r1 = (Inr p, counted (pd_view s) (dispatch_policy (pd_view s)) p)"
    using pool_candidates_succeed[OF pol, of ?P h r1] by auto
  let ?d = "counted (pd_view s) (dispatch_policy (pd_view s)) p"
  have "pool_infos ?d ?Q \<noteq> []"
    using \<open>pool_infos (pd_view s) ?Q \<noteq> []\<close> by (simp add: counted_def)
  moreover have "dispatch_policy ?d \<in> {Load, Queue}" "0 < topk_random_dispatch ?d"
    using pol by (simp_all add: counted_def)
  ultimately obtain q where q: "q \<in> ?Q" "fst (dispatch_candidates ?d ?Q h r2) = Inr q"
    using pool_candidates_succeed[of ?d ?Q h r2] by auto
  have "fst (select_v1_pd_instances s h r1 r2) = Inr (Some (p, q))"
    using False p(2) q(2) by (simp add: select_v1_pd_instances_def Let_def case_prod_unfold split: sum.split)
  with False p(1) q(1) disj show ?thesis by auto
qed



end
