(* ===== verification/Py_Strings.thy ===== *)
theory Py_Strings
  imports Py_Prelude
begin

text \<open>
  The string methods the code uses: \<open>find\<close>, \<open>startswith\<close>, \<open>split\<close>, \<open>rpartition\<close>, \<open>strip\<close>,
  \<open>isdigit\<close>, \<open>int\<close> and the printing of integers. A character is a code point below 256;
  the superscript digits one, two and three are digits for \<open>isdigit\<close> but not for \<open>int\<close>.
\<close>

definition startswith :: "string \<Rightarrow> string \<Rightarrow> bool" where
  "startswith s p \<longleftrightarrow> take (length p) s = p"

fun find_sub :: "string \<Rightarrow> string \<Rightarrow> nat option" where
  "find_sub p [] = (if p = [] then Some 0 else None)"
| "find_sub p (c # cs) = (if startswith (c # cs) p then Some 0 else map_option Suc (find_sub p cs))"

text \<open>\<open>s.split(sep, 1)[0]\<close>.\<close>

definition split_head :: "string \<Rightarrow> string \<Rightarrow> string" where
  "split_head sep s = (case find_sub sep s of None \<Rightarrow> s | Some n \<Rightarrow> take n s)"

text \<open>\<open>s.split(c)\<close> for a single character.\<close>

fun split_char :: "char \<Rightarrow> string \<Rightarrow> string list" where
  "split_char c [] = [[]]"
| "split_char c (x # xs) =
    (if x = c then [] # split_char c xs
     else case split_char c xs of [] \<Rightarrow> [[x]] | w # ws \<Rightarrow> (x # w) # ws)"

text \<open>\<open>s.rpartition(c)\<close>: the part before the last \<open>c\<close>, whether there is one, the part after it.\<close>

definition rpartition :: "char \<Rightarrow> string \<Rightarrow> string \<times> bool \<times> string" where
  "rpartition c s =
    (if c \<in> set s
     then (rev (tl (dropWhile (\<lambda>x. x \<noteq> c) (rev s))), True, rev (takeWhile (\<lambda>x. x \<noteq> c) (rev s)))
     else ([], False, s))"

definition is_decimal :: "char \<Rightarrow> bool" where
  "is_decimal c \<longleftrightarrow> 48 \<le> (of_char c :: nat) \<and> (of_char c :: nat) \<le> 57"

definition is_superscript_digit :: "char \<Rightarrow> bool" where
  "is_superscript_digit c \<longleftrightarrow> (of_char c :: nat) \<in> {178, 179, 185}"

definition isdigit :: "string \<Rightarrow> bool" where
  "isdigit s \<longleftrightarrow> s \<noteq> [] \<and> (\<forall>c \<in> set s. is_decimal c \<or> is_superscript_digit c)"

definition is_space :: "char \<Rightarrow> bool" where
  "is_space c \<longleftrightarrow> (of_char c :: nat) \<in> {9, 10, 11, 12, 13, 28, 29, 30, 31, 32, 133, 160}"

definition strip :: "string \<Rightarrow> string" where
  "strip s = rev (dropWhile is_space (rev (dropWhile is_space s)))"

definition digit_value :: "char \<Rightarrow> int" where
  "digit_value c = int (of_char c) - 48"

text \<open>The digits of an integer literal, in which single underscores may separate digits.\<close>

fun int_digits :: "int \<Rightarrow> bool \<Rightarrow> string \<Rightarrow> int option" where
  "int_digits acc after_digit [] = (if after_digit then Some acc else None)"
| "int_digits acc after_digit (c # cs) =
    (if is_decimal c then int_digits (10 * acc + digit_value c) True cs
     else if c = CHR ''_'' \<and> after_digit then int_digits acc False cs
     else None)"

definition py_int :: "string \<Rightarrow> int res" where
  "py_int s =
    (let t = strip s;
         (sign, ds) = (case t of
             [] \<Rightarrow> (1, [])
           | c # cs \<Rightarrow> if c = CHR ''-'' then (- 1, cs) else if c = CHR ''+'' then (1, cs) else (1, t))
     in case int_digits 0 False ds of None \<Rightarrow> Inl ValueError | Some n \<Rightarrow> Inr (sign * n))"

definition digit_char :: "nat \<Rightarrow> char" where
  "digit_char n = char_of (48 + n)"

fun nat_str :: "nat \<Rightarrow> string" where
  "nat_str n = (if n < 10 then [digit_char n] else nat_str (n div 10) @ [digit_char (n mod 10)])"

declare nat_str.simps [simp del]

definition int_str :: "int \<Rightarrow> string" where
  "int_str n = (if n < 0 then CHR ''-'' # nat_str (nat (- n)) else nat_str (nat n))"

subsection \<open>Searching\<close>

lemma startswith_append [simp]: "startswith (p @ s) p"
  by (simp add: startswith_def)

lemma startswith_Cons [simp]: "startswith (c # cs) (x # p) \<longleftrightarrow> c = x \<and> startswith cs p"
  by (auto simp: startswith_def)

lemma startswith_Nil [simp]: "startswith s []" "startswith [] (x # p) \<longleftrightarrow> False"
  by (simp_all add: startswith_def)

lemma find_sub_prefix: "find_sub p (p @ s) = Some 0"
  by (cases "p @ s") (auto simp flip: append_assoc, metis startswith_append)

lemma find_sub_skip_absent:
  "x \<notin> set d \<Longrightarrow> find_sub (x # p) (d @ t) = map_option (\<lambda>n. length d + n) (find_sub (x # p) t)"
  by (cases "find_sub (x # p) t"; induction d) auto

lemma startswith_longer: "startswith s (p @ q) \<Longrightarrow> startswith s p"
  unfolding startswith_def by (metis append_eq_conv_conj append_take_drop_id append.assoc)

lemma find_sub_longer: "find_sub p s = None \<Longrightarrow> find_sub (p @ q) s = None"
  by (induction s) (auto dest: startswith_longer split: if_splits)

lemma find_sub_None_Cons: "find_sub p (c # cs) = None \<longleftrightarrow> \<not> startswith (c # cs) p \<and> find_sub p cs = None"
  by auto

text \<open>
  A marker that starts with three underscores and no fourth cannot begin inside a word
  without three underscores in a row, whatever follows the word.
\<close>

lemma find_marker_skip:
  assumes "find_sub ''___'' w = None" and "hd x \<noteq> CHR ''_''" and "x \<noteq> []"
  shows "find_sub (''___'' @ x) (w @ ''___'' @ y)
    = map_option (\<lambda>n. length w + n) (find_sub (''___'' @ x) (''___'' @ y))"
  using assms(1)
proof (induction w)
  case Nil
  then show ?case by (cases "find_sub (''___'' @ x) (''___'' @ y)") simp_all
next
  case (Cons c w)
  obtain a x' where x: "x = a # x'" "a \<noteq> CHR ''_''" using assms(2,3) by (cases x) auto
  have "\<not> startswith ((c # w) @ ''___'' @ y) (''___'' @ x)"
  proof
    assume m: "startswith ((c # w) @ ''___'' @ y) (''___'' @ x)"
    then have "startswith (c # w @ ''___'') ''___''" by (cases w; cases "tl w") auto
    moreover have "\<not> startswith (c # w) ''___''" using Cons.prems by (simp split: if_splits)
    ultimately have "length w < 2" by (cases w; cases "tl w") auto
    then consider "w = []" | d where "w = [d]" by (cases w; cases "tl w") auto
    then show False using m x by cases auto
  qed
  moreover have "find_sub ''___'' w = None" using Cons.prems by (simp split: if_splits)
  ultimately show ?case
    using Cons.IH by (cases "find_sub (''___'' @ x) (''___'' @ y)") simp_all
qed

lemma split_head_absent_char:
  assumes "x \<notin> set v"
  shows "split_head (x # p) (v @ (x # p) @ t) = v"
proof -
  have "find_sub (x # p) ((x # p) @ t) = Some 0" by (rule find_sub_prefix)
  then show ?thesis
    using find_sub_skip_absent[OF assms, of p "(x # p) @ t"] by (simp add: split_head_def)
qed

lemma find_sub_absent_char: "x \<notin> set s \<Longrightarrow> find_sub (x # p) s = None"
  by (induction s) auto

lemma rpartition_last:
  assumes "c \<notin> set p"
  shows "rpartition c (h @ c # p) = (h, True, p)"
proof -
  have p: "x \<noteq> c" if "x \<in> set (rev p)" for x using that assms by auto
  show ?thesis
    using takeWhile_append2[of "rev p" "\<lambda>x. x \<noteq> c" "c # rev h", OF p]
      dropWhile_append2[of "rev p" "\<lambda>x. x \<noteq> c" "c # rev h", OF p] by (simp add: rpartition_def)
qed

lemma rpartition_found:
  assumes "rpartition c s = (h, True, p)"
  shows "s = h @ c # p" and "c \<notin> set p"
proof -
  let ?r = "rev s"
  have c: "c \<in> set s" and h: "h = rev (tl (dropWhile (\<lambda>x. x \<noteq> c) ?r))"
    and p: "p = rev (takeWhile (\<lambda>x. x \<noteq> c) ?r)"
    using assms by (auto simp: rpartition_def split: if_splits)
  have "dropWhile (\<lambda>x. x \<noteq> c) ?r \<noteq> []" using c by (simp add: dropWhile_eq_Nil_conv)
  moreover from this have "hd (dropWhile (\<lambda>x. x \<noteq> c) ?r) = c" using hd_dropWhile[of "\<lambda>x. x \<noteq> c" ?r] by blast
  ultimately have "?r = takeWhile (\<lambda>x. x \<noteq> c) ?r @ c # tl (dropWhile (\<lambda>x. x \<noteq> c) ?r)"
    by (metis list.collapse takeWhile_dropWhile_id)
  then show "s = h @ c # p" unfolding h p by (metis append.assoc append_Cons append_Nil rev.simps(2) rev_append rev_rev_ident)
  show "c \<notin> set p" unfolding p using set_takeWhileD by fastforce
qed

subsection \<open>Integers\<close>

lemma of_char_digit_char: "n < 10 \<Longrightarrow> (of_char (digit_char n) :: nat) = 48 + n"
  by (simp add: digit_char_def)

lemma digit_char_decimal: "n < 10 \<Longrightarrow> is_decimal (digit_char n) \<and> digit_value (digit_char n) = int n"
  by (simp add: is_decimal_def digit_value_def of_char_digit_char)

lemma nat_str_decimal: "nat_str n \<noteq> [] \<and> (\<forall>c \<in> set (nat_str n). is_decimal c)"
proof (induction n rule: nat_str.induct)
  case (1 n)
  then show ?case by (subst nat_str.simps, subst (2) nat_str.simps) (auto simp: digit_char_decimal)
qed

lemma int_digits_append:
  "\<forall>c \<in> set xs. is_decimal c \<Longrightarrow> int_digits acc b (xs @ [d]) =
    (if is_decimal d then Some (10 * (the (int_digits acc True xs)) + digit_value d)
     else if d = CHR ''_'' then None else None)"
  by (induction xs arbitrary: acc b) auto

lemma int_digits_decimal: "\<forall>c \<in> set xs. is_decimal c \<Longrightarrow> int_digits acc True xs \<noteq> None"
  by (induction xs arbitrary: acc) auto

lemma int_digits_first: "xs \<noteq> [] \<Longrightarrow> \<forall>c \<in> set xs. is_decimal c \<Longrightarrow> int_digits acc b xs = int_digits acc True xs"
  by (cases xs) auto

lemma int_digits_nat_str: "int_digits 0 b (nat_str n) = Some (int n)"
proof (induction n arbitrary: b rule: nat_str.induct)
  case (1 n)
  show ?case
  proof (cases "n < 10")
    case True
    then show ?thesis by (subst nat_str.simps) (simp add: digit_char_decimal)
  next
    case False
    have "int_digits 0 b (nat_str n) = Some (10 * the (int_digits 0 True (nat_str (n div 10))) + int (n mod 10))"
      using False nat_str_decimal[of "n div 10"]
      by (subst nat_str.simps) (simp add: int_digits_append digit_char_decimal)
    also have "\<dots> = Some (int n)"
    proof -
      have "10 * int (n div 10) + int (n mod 10) = int n" by presburger
      then show ?thesis using 1[OF False] by simp
    qed
    finally show ?thesis .
  qed
qed

lemma decimal_not_space: "is_decimal c \<Longrightarrow> \<not> is_space c"
  by (auto simp: is_decimal_def is_space_def)

lemma dropWhile_none: "\<forall>c \<in> set xs. \<not> P c \<Longrightarrow> dropWhile P xs = xs"
  by (cases xs) auto

lemma strip_decimal: "\<forall>c \<in> set s. is_decimal c \<Longrightarrow> strip s = s"
  by (simp add: strip_def dropWhile_none decimal_not_space)

lemma py_int_decimal:
  assumes "s \<noteq> []" and "\<forall>c \<in> set s. is_decimal c"
  shows "py_int s = Inr (the (int_digits 0 True s))"
proof -
  obtain c cs where s: "s = c # cs" using assms(1) by (cases s) auto
  have "c \<noteq> CHR ''-''" "c \<noteq> CHR ''+''" using assms(2) s by (auto simp: is_decimal_def)
  moreover obtain n where "int_digits 0 True s = Some n" using int_digits_decimal assms(2) by blast
  ultimately show ?thesis
    using strip_decimal[OF assms(2)] int_digits_first[OF assms, of 0 False] s assms(2)
    by (simp add: py_int_def Let_def)
qed

lemma py_int_nat_str: "py_int (nat_str n) = Inr (int n)"
  using py_int_decimal[of "nat_str n"] nat_str_decimal[of n] by (simp add: int_digits_nat_str)

end
