(* ===== verification/Config.thy ===== *)
theory Config
  imports Global_Scheduler Py_Strings
begin

text \<open>
  Configuration: the defaults of \<open>config/default.py\<close>, the argument classes of
  \<open>arg_utils.py\<close> with their initialisation and checks, and the configuration objects built
  from them (\<open>internal_config.py\<close>). An argument the user does not give is \<open>None\<close> and is
  filled from the defaults. The choice lists are those of the command-line declarations.
\<close>

datatype BackendType = VLLM | BLADELLM | SIM_VLLM

datatype LaunchMode = LOCAL | GLOBAL

subsection \<open>Manager arguments\<close>

record RawManagerArgs =
  raw_initial_instances :: "int option"
  raw_polling_interval :: "pynum option"
  raw_dispatch_policy :: "string option"
  raw_scaling_load_metric :: "string option"
  raw_topk_random_dispatch :: "int option"
  raw_enable_migration :: "bool option"
  raw_pair_migration_frequency :: "int option"
  raw_pair_migration_policy :: "string option"
  raw_migrate_out_threshold :: "pynum option"
  raw_enable_scaling :: "bool option"
  raw_min_instances :: "int option"
  raw_max_instances :: "int option"
  raw_scaling_interval :: "int option"
  raw_scaling_policy :: "string option"
  raw_scale_up_threshold :: "pynum option"
  raw_scale_down_threshold :: "pynum option"
  raw_disable_log_requests_manager :: "bool option"
  raw_log_instance_info :: "bool option"
  raw_log_filename :: "string option"
  raw_enable_port_increment :: "bool option"
  raw_enable_port_offset_store :: "bool option"
  raw_enable_pd_disagg :: "bool option"
  raw_pd_ratio :: "string option"

record ManagerArgs =
  ma_initial_instances :: int
  polling_interval :: pynum
  ma_dispatch_policy :: string
  ma_scaling_load_metric :: string
  ma_topk_random_dispatch :: int
  enable_migration :: bool
  pair_migration_frequency :: int
  ma_pair_migration_policy :: string
  migrate_out_threshold :: pynum
  enable_scaling :: bool
  min_instances :: int
  max_instances :: int
  scaling_interval :: int
  ma_scaling_policy :: string
  ma_scale_up_threshold :: pynum
  ma_scale_down_threshold :: pynum
  disable_log_requests_manager :: bool
  log_instance_info :: bool
  log_filename :: string
  enable_port_increment :: bool
  enable_port_offset_store :: bool
  ma_enable_pd_disagg :: bool
  pd_ratio :: "int \<times> int"
  ma_is_group_kind_migration_backend :: "bool option"
  enable_engine_pd_disagg :: "bool option"

definition default :: "'a \<Rightarrow> 'a option \<Rightarrow> 'a" where
  "default d v = (case v of None \<Rightarrow> d | Some x \<Rightarrow> x)"

definition parse_ratio :: "string \<Rightarrow> (int \<times> int) res" where
  "parse_ratio ratio_str =
    (case split_char (CHR '':'') ratio_str of
       [a, b] \<Rightarrow>
         res_bind (py_int (strip a)) (\<lambda>num_prefill.
         res_bind (py_int (strip b)) (\<lambda>num_decode.
         if num_prefill > 0 \<and> num_decode > 0 then Inr (num_prefill, num_decode) else Inl AssertionError))
     | _ \<Rightarrow> Inl ValueError)"

definition init_ManagerArgs :: "RawManagerArgs \<Rightarrow> ManagerArgs res" where
  "init_ManagerArgs a =
    res_bind (parse_ratio (default ''1:1'' (raw_pd_ratio a))) (\<lambda>ratio. Inr \<lparr>
      ma_initial_instances = default 1 (raw_initial_instances a),
      polling_interval = default (Fin (1 / 20)) (raw_polling_interval a),
      ma_dispatch_policy = default ''load'' (raw_dispatch_policy a),
      ma_scaling_load_metric = default ''remaining_steps'' (raw_scaling_load_metric a),
      ma_topk_random_dispatch = default 1 (raw_topk_random_dispatch a),
      enable_migration = default False (raw_enable_migration a),
      pair_migration_frequency = default 1 (raw_pair_migration_frequency a),
      ma_pair_migration_policy = default ''defrag'' (raw_pair_migration_policy a),
      migrate_out_threshold = default (Fin (- 3)) (raw_migrate_out_threshold a),
      enable_scaling = default False (raw_enable_scaling a),
      min_instances = default (- 1) (raw_min_instances a),
      max_instances = default (- 1) (raw_max_instances a),
      scaling_interval = default 10 (raw_scaling_interval a),
      ma_scaling_policy = default ''avg_load'' (raw_scaling_policy a),
      ma_scale_up_threshold = default (Fin (- 10)) (raw_scale_up_threshold a),
      ma_scale_down_threshold = default (Fin (- 60)) (raw_scale_down_threshold a),
      disable_log_requests_manager = default False (raw_disable_log_requests_manager a),
      log_instance_info = default False (raw_log_instance_info a),
      log_filename = default ''server.log'' (raw_log_filename a),
      enable_port_increment = default False (raw_enable_port_increment a),
      enable_port_offset_store = default False (raw_enable_port_offset_store a),
      ma_enable_pd_disagg = default False (raw_enable_pd_disagg a),
      pd_ratio = ratio,
      ma_is_group_kind_migration_backend = None,
      enable_engine_pd_disagg = None\<rparr>)"

definition create_global_scheduler_config :: "ManagerArgs \<Rightarrow> bool \<Rightarrow> GlobalSchedulerConfig" where
  "create_global_scheduler_config a is_group_kind = \<lparr>
     initial_instances = ma_initial_instances a,
     gc_dispatch_policy = ma_dispatch_policy a,
     gc_topk_random_dispatch = ma_topk_random_dispatch a,
     gc_pair_migration_policy = ma_pair_migration_policy a,
     migrate_out_load_threshold = migrate_out_threshold a,
     gc_scaling_policy = ma_scaling_policy a,
     scaling_load_metric = ma_scaling_load_metric a,
     gc_scale_up_threshold = ma_scale_up_threshold a,
     gc_scale_down_threshold = ma_scale_down_threshold a,
     enable_pd_disagg = ma_enable_pd_disagg a,
     is_group_kind_migration_backend = is_group_kind\<rparr>"

text \<open>The choice lists of the manager's command-line options.\<close>

definition manager_choices :: "ManagerArgs \<Rightarrow> bool" where
  "manager_choices a \<longleftrightarrow>
     ma_scaling_load_metric a \<in> {''remaining_steps'', ''usage_ratio'', ''virtual_usage''}
   \<and> ma_dispatch_policy a \<in> {''balanced'', ''load'', ''queue'', ''flood'', ''rr''}
   \<and> ma_pair_migration_policy a \<in> {''balanced'', ''defrag''}
   \<and> ma_scaling_policy a \<in> {''max_load'', ''avg_load''}"

definition manager_check_args :: "ManagerArgs \<Rightarrow> unit res" where
  "manager_check_args a =
    (if \<not> manager_choices a then Inl AssertionError
     else if \<not> (\<not> enable_port_offset_store a \<or> enable_port_increment a) then Inl AssertionError
     else if enable_scaling a then
       (if \<not> (max_instances a = - 1 \<or> max_instances a > 0) then Inl AssertionError
        else if \<not> (min_instances a = - 1 \<or> min_instances a > 0) then Inl AssertionError
        else if min_instances a \<noteq> - 1 \<and> max_instances a \<noteq> - 1 \<and> \<not> min_instances a \<le> max_instances a
          then Inl AssertionError
        else Inr ())
     else Inr ())"

subsection \<open>Instance arguments\<close>

record MigrationConfig =
  request_migration_policy :: string
  migration_backend :: string
  migration_backend_transfer_type :: string
  migration_num_layers :: int
  migration_buffer_blocks :: int
  migration_last_stage_max_blocks :: int
  migration_max_stages :: int
  migration_backend_init_timeout :: pynum
  grpc_migration_backend_server_address :: string
  kvtransfer_migration_backend_naming_url :: string

record InstanceArgs =
  ia_instance_type :: string
  simulator_mode :: bool
  profiling_result_file_path :: "string option"
  ia_dispatch_load_metric :: string
  ia_migration_load_metric :: string
  ia_enable_defrag :: bool
  ia_request_migration_policy :: string
  ia_migration_backend :: string
  ia_migration_buffer_blocks :: int
  ia_migration_num_layers :: int
  ia_migration_backend_init_timeout :: pynum
  ia_migration_backend_transfer_type :: string
  ia_grpc_migration_backend_server_address :: string
  ia_kvtransfer_migration_backend_naming_url :: string
  ia_migration_last_stage_max_blocks :: int
  ia_migration_max_stages :: int
  ia_enable_engine_pd_disagg :: "bool option"

text \<open>The instance arguments when the user gives none.\<close>

definition default_InstanceArgs :: InstanceArgs where
  "default_InstanceArgs = \<lparr>
     ia_instance_type = ''no_constraints'', simulator_mode = False, profiling_result_file_path = None,
     ia_dispatch_load_metric = ''virtual_usage'', ia_migration_load_metric = ''remaining_steps'',
     ia_enable_defrag = False, ia_request_migration_policy = ''SR'',
     ia_migration_backend = ''gloo'', ia_migration_buffer_blocks = 512, ia_migration_num_layers = 1,
     ia_migration_backend_init_timeout = Fin 10, ia_migration_backend_transfer_type = ''rdma'',
     ia_grpc_migration_backend_server_address = ''127.0.0.1:50051'',
     ia_kvtransfer_migration_backend_naming_url = ''file:/tmp/llumnix/naming/'',
     ia_migration_last_stage_max_blocks = 16, ia_migration_max_stages = 3,
     ia_enable_engine_pd_disagg = None\<rparr>"

definition init_from_engine_args :: "InstanceArgs \<Rightarrow> bool \<Rightarrow> BackendType \<Rightarrow> InstanceArgs" where
  "init_from_engine_args a enable_disagg backend =
    a\<lparr>ia_enable_engine_pd_disagg := Some (backend = BLADELLM \<and> enable_disagg)\<rparr>"

definition init_from_instance_args :: "ManagerArgs \<Rightarrow> InstanceArgs \<Rightarrow> ManagerArgs" where
  "init_from_instance_args m a =
    m\<lparr>enable_engine_pd_disagg := ia_enable_engine_pd_disagg a,
      ma_is_group_kind_migration_backend := Some (ia_migration_backend a \<in> {''gloo'', ''nccl''})\<rparr>"

definition instance_choices :: "InstanceArgs \<Rightarrow> bool" where
  "instance_choices a \<longleftrightarrow>
     ia_instance_type a \<in> {''prefill'', ''decode'', ''no_constraints''}
   \<and> ia_dispatch_load_metric a \<in> {''remaining_steps'', ''usage_ratio'', ''virtual_usage''}
   \<and> ia_migration_load_metric a \<in> {''remaining_steps'', ''usage_ratio''}
   \<and> ia_request_migration_policy a \<in> {''LCR'', ''SR'', ''LR'', ''FCW'', ''FCWSR''}
   \<and> ia_migration_backend a \<in> {''gloo'', ''nccl'', ''rayrpc'', ''grpc'', ''kvtransfer''}
   \<and> ia_migration_backend_transfer_type a \<in> {''cuda_ipc'', ''rdma'', ''SharedStorageConnector'',
        ''P2pNcclConnector'', ''NixlConnector'', ''LMCacheConnectorV1'', ''OffloadingConnector'',
        ''CoreXP2pNcclConnector''}"

definition instance_check_args :: "InstanceArgs \<Rightarrow> ManagerArgs \<Rightarrow> LaunchMode \<Rightarrow> unit res" where
  "instance_check_args a m mode =
    (if \<not> instance_choices a then Inl AssertionError
     else if simulator_mode a \<and> profiling_result_file_path a = None then Inl AssertionError
     else if ma_enable_pd_disagg m \<and> mode = LOCAL \<and> ia_instance_type a \<notin> {''prefill'', ''decode''}
       then Inl AssertionError
     else Inr ())"

definition create_migration_config :: "InstanceArgs \<Rightarrow> MigrationConfig" where
  "create_migration_config a = \<lparr>
     request_migration_policy = ia_request_migration_policy a,
     migration_backend = ia_migration_backend a,
     migration_backend_transfer_type = ia_migration_backend_transfer_type a,
     migration_num_layers = ia_migration_num_layers a,
     migration_buffer_blocks = ia_migration_buffer_blocks a,
     migration_last_stage_max_blocks = ia_migration_last_stage_max_blocks a,
     migration_max_stages = ia_migration_max_stages a,
     migration_backend_init_timeout = ia_migration_backend_init_timeout a,
     grpc_migration_backend_server_address = ia_grpc_migration_backend_server_address a,
     kvtransfer_migration_backend_naming_url = ia_kvtransfer_migration_backend_naming_url a\<rparr>"

subsection \<open>Lemmas\<close>

lemma split_char_absent: "c \<notin> set s \<Longrightarrow> split_char c s = [s]"
  by (induction s) auto

lemma split_char_once: "c \<notin> set a \<Longrightarrow> split_char c (a @ c # b) = a # split_char c b"
  by (induction a) auto

lemma nat_str_no_colon: "CHR '':'' \<notin> set (nat_str n)"
  using nat_str_decimal[of n] by (auto simp: is_decimal_def)

lemma get_policies_ok:
  assumes "manager_choices a"
  shows "\<exists>d. init_DispatchScheduler (ma_dispatch_policy a) k = Inr d"
    and "\<exists>m. init_MigrationScheduler (ma_pair_migration_policy a) th g = Inr m"
    and "\<exists>s. init_ScalingScheduler u v (ma_scaling_policy a) metric pd = Inr s"
  using assms
  by (auto simp: manager_choices_def init_DispatchScheduler_def get_dispatch_policy_def
      init_MigrationScheduler_def register_migration_backend_init_filter_def init_CustomFilter_def
      get_pair_policy_def init_ScalingScheduler_def get_scale_policy_def)

subsection \<open>Properties\<close>

text \<open>
  C32: arguments that pass the manager's check always build a global scheduler: every
  policy name the command line accepts is registered with its factory, so construction
  cannot raise, whatever the migration backend. The scheduler starts in a consistent state.
\<close>

theorem checked_args_build_scheduler:
  assumes "manager_check_args a = Inr ()"
  shows "\<exists>s. init_GlobalScheduler (create_global_scheduler_config a g) = Inr s \<and> gs_inv s"
proof -
  have "manager_choices a" using assms by (auto simp: manager_check_args_def split: if_splits)
  note ok = get_policies_ok[OF this]
  obtain d where d: "init_DispatchScheduler (ma_dispatch_policy a) (ma_topk_random_dispatch a) = Inr d"
    using ok(1) by blast
  obtain m where m: "init_MigrationScheduler (ma_pair_migration_policy a) (migrate_out_threshold a) g = Inr m"
    using ok(2) by blast
  obtain sc where sc: "init_ScalingScheduler (ma_scale_up_threshold a) (ma_scale_down_threshold a)
      (ma_scaling_policy a) (ma_scaling_load_metric a) (ma_enable_pd_disagg a) = Inr sc"
    using ok(3) by blast
  have "\<exists>s. init_GlobalScheduler (create_global_scheduler_config a g) = Inr s"
    by (simp add: init_GlobalScheduler_def create_global_scheduler_config_def d m sc Let_def)
  then show ?thesis using init_gs_inv by blast
qed

text \<open>No argument given.\<close>

definition no_ManagerArgs :: RawManagerArgs where
  "no_ManagerArgs = \<lparr>raw_initial_instances = None, raw_polling_interval = None, raw_dispatch_policy = None,
    raw_scaling_load_metric = None, raw_topk_random_dispatch = None, raw_enable_migration = None,
    raw_pair_migration_frequency = None, raw_pair_migration_policy = None, raw_migrate_out_threshold = None,
    raw_enable_scaling = None, raw_min_instances = None, raw_max_instances = None, raw_scaling_interval = None,
    raw_scaling_policy = None, raw_scale_up_threshold = None, raw_scale_down_threshold = None,
    raw_disable_log_requests_manager = None, raw_log_instance_info = None, raw_log_filename = None,
    raw_enable_port_increment = None, raw_enable_port_offset_store = None, raw_enable_pd_disagg = None,
    raw_pd_ratio = None\<rparr>"

lemma default_args_checked: "\<exists>a. init_ManagerArgs no_ManagerArgs = Inr a \<and> manager_check_args a = Inr ()"
  by (simp add: init_ManagerArgs_def no_ManagerArgs_def default_def parse_ratio_def py_int_def strip_def
      is_space_def is_decimal_def digit_value_def Let_def manager_check_args_def manager_choices_def)

theorem checked_args_build_scheduler_witness:
  "\<exists>a. init_ManagerArgs no_ManagerArgs = Inr a
    \<and> (\<exists>s. init_GlobalScheduler (create_global_scheduler_config a True) = Inr s \<and> gs_inv s)"
  using default_args_checked checked_args_build_scheduler by blast

text \<open>
  The prefill/decode ratio. Printing two positive numbers with a colon and parsing the
  result gives them back, and whatever parses gives two positive numbers.
\<close>

theorem parse_ratio_round_trip:
  assumes "0 < p" and "0 < d"
  shows "parse_ratio (nat_str p @ '':'' @ nat_str d) = Inr (int p, int d)
    \<and> (\<forall>s a b. parse_ratio s = Inr (a, b) \<longrightarrow> 0 < a \<and> 0 < b)"
proof
  have "split_char (CHR '':'') (nat_str p @ '':'' @ nat_str d) = [nat_str p, nat_str d]"
    using split_char_once[OF nat_str_no_colon, of p "nat_str d"] split_char_absent[OF nat_str_no_colon, of d]
    by simp
  then show "parse_ratio (nat_str p @ '':'' @ nat_str d) = Inr (int p, int d)"
    using assms strip_decimal nat_str_decimal by (simp add: parse_ratio_def py_int_nat_str)
  show "\<forall>s a b. parse_ratio s = Inr (a, b) \<longrightarrow> 0 < a \<and> 0 < b"
    by (auto simp: parse_ratio_def res_bind_Inr_iff split: list.splits if_splits)
qed

theorem parse_ratio_round_trip_witness:
  "parse_ratio (nat_str 2 @ '':'' @ nat_str 3) = Inr (2, 3)"
  using parse_ratio_round_trip[of 2 3] by simp

end
