(* ===== verification/P2P_Routing.thy ===== *)
theory P2P_Routing
  imports Config
begin

text \<open>
  Routing of the peer-to-peer key/value connector (\<open>backends/vllm/v1_kv_transfer.py\<close> and
  \<open>backends/vllm/corex_p2p_connector.py\<close>): endpoints carried inside request ids, the
  translation of the migration settings into the engine's connector configuration, and the
  tensor store of the CPU-staged transport. \<open>os.environ\<close> is a dictionary that is passed
  and returned. Parameters stand for what lies outside: whether the loaded NCCL library
  lacks the window functions, the address the host name resolves to, the two-byte
  \<open>blake2b\<close> digest, and whether vLLM's configuration classes accept their arguments.
\<close>

type_synonym environ = "(string, string) dict"

definition getenv :: "environ \<Rightarrow> string \<Rightarrow> string \<Rightarrow> string" where
  "getenv env k d = dget_default env k d"

subsection \<open>Endpoints and request ids\<close>

definition P2P_REQUEST_ID_PREFIX :: string where
  "P2P_REQUEST_ID_PREFIX = ''___decode_addr_''"

definition P2P_REQUEST_ID_SUFFIX :: string where
  "P2P_REQUEST_ID_SUFFIX = ''___''"

definition P2P_PREFILL_ID_PREFIX :: string where
  "P2P_PREFILL_ID_PREFIX = ''___prefill_addr_''"

definition P2P_CONNECTORS :: "string set" where
  "P2P_CONNECTORS = {''P2pNcclConnector'', ''CoreXP2pNcclConnector''}"

definition V1_KV_RUNTIME_ENV_KEYS :: "string list" where
  "V1_KV_RUNTIME_ENV_KEYS = [''LLUMNIX_KV_IP'', ''LLUMNIX_KV_PORT'', ''LLUMNIX_KV_ROLE'', ''LLUMNIX_KV_RANK'',
     ''LLUMNIX_KV_PARALLEL_SIZE'', ''LLUMNIX_KV_DECODE_ADDRESS'', ''LLUMNIX_KV_EVENTS_ENDPOINT'',
     ''LLUMNIX_KV_EVENTS_REPLAY_ENDPOINT'', ''LLUMNIX_TRUE_KV_MIGRATION_ONLY'', ''PYTHONHASHSEED'']"

definition v1_kv_runtime_env :: "environ \<Rightarrow> (string, string) dict" where
  "v1_kv_runtime_env env = concat (map (\<lambda>k. case dget env k of
     None \<Rightarrow> [] | Some v \<Rightarrow> if v = [] then [] else [(k, v)]) V1_KV_RUNTIME_ENV_KEYS)"

text \<open>\<open>resolved\<close> is the address of the own host name, \<open>None\<close> when the lookup raises \<open>OSError\<close>.\<close>

definition default_kv_ip :: "environ \<Rightarrow> string option \<Rightarrow> string" where
  "default_kv_ip env resolved =
    (case dget env ''LLUMNIX_KV_IP'' of
       Some v \<Rightarrow> if v \<noteq> [] then v
         else (case resolved of None \<Rightarrow> ''127.0.0.1'' | Some a \<Rightarrow> if a = [] then ''127.0.0.1'' else a)
     | None \<Rightarrow> (case resolved of None \<Rightarrow> ''127.0.0.1'' | Some a \<Rightarrow> if a = [] then ''127.0.0.1'' else a))"

definition valid_p2p_endpoint :: "string option \<Rightarrow> bool res" where
  "valid_p2p_endpoint address =
    (case address of
       None \<Rightarrow> Inr False
     | Some a \<Rightarrow>
        if a = [] then Inr False
        else case rpartition (CHR '':'') a of (host, separator, port) \<Rightarrow>
          if host \<noteq> [] \<and> separator \<and> isdigit port
          then res_bind (py_int port) (\<lambda>n. Inr (0 < n \<and> n < 65536))
          else Inr False)"

definition strip_p2p_request_id :: "string \<Rightarrow> string" where
  "strip_p2p_request_id request_id =
    (case (find_sub P2P_REQUEST_ID_PREFIX request_id, find_sub P2P_PREFILL_ID_PREFIX request_id) of
       (None, None) \<Rightarrow> request_id
     | (Some a, None) \<Rightarrow> take a request_id
     | (None, Some b) \<Rightarrow> take b request_id
     | (Some a, Some b) \<Rightarrow> take (min a b) request_id)"

definition attach_endpoint :: "string \<Rightarrow> string \<Rightarrow> string option \<Rightarrow> string res" where
  "attach_endpoint prefix request_id address =
    (case address of
       None \<Rightarrow> Inr request_id
     | Some a \<Rightarrow>
        if a = [] \<or> find_sub prefix request_id \<noteq> None then Inr request_id
        else res_bind (valid_p2p_endpoint (Some a)) (\<lambda>ok.
          if \<not> ok then Inl ValueError else Inr (request_id @ prefix @ a @ P2P_REQUEST_ID_SUFFIX)))"

definition decorate_p2p_request_id :: "string \<Rightarrow> string option \<Rightarrow> string res" where
  "decorate_p2p_request_id request_id decode_address =
    attach_endpoint P2P_REQUEST_ID_PREFIX request_id decode_address"

definition decorate_p2p_consumer_request_id :: "string \<Rightarrow> string option \<Rightarrow> string res" where
  "decorate_p2p_consumer_request_id request_id prefill_address =
    attach_endpoint P2P_PREFILL_ID_PREFIX request_id prefill_address"

definition decorate_p2p_pd_request_id :: "string \<Rightarrow> string option \<Rightarrow> string option \<Rightarrow> string res" where
  "decorate_p2p_pd_request_id request_id decode_address prefill_address =
    res_bind (decorate_p2p_request_id request_id decode_address)
      (\<lambda>r. decorate_p2p_consumer_request_id r prefill_address)"

definition parse_request_id :: "string \<Rightarrow> bool \<Rightarrow> (string \<times> int) res" where
  "parse_request_id request_id is_prefill =
    (let marker = (if is_prefill then ''___decode_addr_'' else ''___prefill_addr_'') in
     case find_sub marker request_id of
       None \<Rightarrow> Inl ValueError
     | Some start \<Rightarrow>
        let v = split_head ''___'' (drop (start + length marker) request_id) in
        case rpartition (CHR '':'') v of (host, separator, port) \<Rightarrow>
          if host = [] \<or> \<not> separator \<or> \<not> isdigit port then Inl ValueError
          else res_bind (py_int port) (\<lambda>n. Inr (host, n)))"

text \<open>Sampling parameters by attribute; the copy keeps all but \<open>max_tokens\<close>.\<close>

record SamplingParams =
  sp_max_tokens :: "int option"
  sp_others :: "(string, string) dict"

datatype sampling_arg = NoParams | OpaqueParams string | WithMaxTokens SamplingParams

fun producer_sampling_params :: "sampling_arg \<Rightarrow> sampling_arg" where
  "producer_sampling_params (WithMaxTokens p) = WithMaxTokens (p\<lparr>sp_max_tokens := Some 1\<rparr>)"
| "producer_sampling_params other = other"

subsection \<open>Connector configuration\<close>

datatype extra_value = XStr string | XBool bool

record KVTransferConfig =
  kv_connector :: "string option"
  kv_role :: "string option"
  kv_rank :: "int option"
  kv_parallel_size :: int
  kv_ip :: string
  kv_port :: int
  kv_connector_extra_config :: "(string, extra_value) dict"
  kv_connector_module_path :: "string option"

record KVEventsConfig =
  enable_kv_cache_events :: bool
  publisher :: string
  events_endpoint :: string
  events_replay_endpoint :: "string option"

record KVEngineArgs =
  kv_transfer_config :: "KVTransferConfig option"
  prefix_caching_hash_algo :: "string option"
  enable_prefix_caching :: "bool option"
  kv_events_config :: "KVEventsConfig option"

definition in_connectors :: "string option \<Rightarrow> bool" where
  "in_connectors c = (case c of None \<Rightarrow> False | Some s \<Rightarrow> s \<in> P2P_CONNECTORS)"

definition p2p_connector_enabled :: "KVEngineArgs \<Rightarrow> bool" where
  "p2p_connector_enabled a =
    (case kv_transfer_config a of None \<Rightarrow> False | Some cfg \<Rightarrow> in_connectors (kv_connector cfg))"

definition validate_p2p_environment :: "environ \<Rightarrow> KVEngineArgs \<Rightarrow> unit res" where
  "validate_p2p_environment env a =
    (case kv_transfer_config a of
       None \<Rightarrow> Inr ()
     | Some cfg \<Rightarrow>
        if \<not> in_connectors (kv_connector cfg) then Inr ()
        else if kv_parallel_size cfg \<noteq> 2 then Inl ValueError
        else if kv_role cfg \<in> {Some ''kv_producer'', Some ''kv_both''} then
          (case dget env ''LLUMNIX_KV_DECODE_ADDRESS'' of
             None \<Rightarrow> Inr ()
           | Some address \<Rightarrow> res_bind (valid_p2p_endpoint (Some address)) (\<lambda>ok.
               if ok then Inr () else Inl ValueError))
        else Inr ())"

definition corex_module :: string where
  "corex_module = ''llumnix.backends.vllm.corex_p2p_connector''"

text \<open>The connector to use and the module it is loaded from.\<close>

definition choose_connector :: "bool \<Rightarrow> string \<Rightarrow> string \<times> string option" where
  "choose_connector needs_compat transfer_type =
    (let connector = (if transfer_type = [] \<or> transfer_type = ''rdma'' then ''SharedStorageConnector''
                      else transfer_type);
         connector = (if connector = ''P2pNcclConnector'' \<and> needs_compat then ''CoreXP2pNcclConnector''
                      else connector)
     in (connector, if connector = ''CoreXP2pNcclConnector'' then Some corex_module else None))"

definition default_role :: "string option \<Rightarrow> string" where
  "default_role itype =
    (if itype = Some ''prefill'' then ''kv_producer''
     else if itype = Some ''decode'' then ''kv_consumer''
     else ''kv_both'')"

definition removeprefix :: "string \<Rightarrow> string \<Rightarrow> string" where
  "removeprefix p s = (if startswith s p then drop (length p) s else s)"

definition extra_config :: "environ \<Rightarrow> string \<Rightarrow> string option \<Rightarrow> string \<Rightarrow> (string, extra_value) dict" where
  "extra_config env connector itype naming =
    (let extra = (if naming = [] then [] else [(''shared_storage_path'', XStr (removeprefix ''file:'' naming))])
     in if connector \<in> P2P_CONNECTORS \<and> itype \<notin> {Some ''prefill'', Some ''decode''}
        then extra @ [(''true_kv_migration_only'', XBool True), (''send_type'', XStr ''PUT''),
                      (''corex_transport'', XStr (getenv env ''LLUMNIX_COREX_TRANSPORT'' ''nccl''))]
        else extra)"

definition make_transfer_config ::
  "(KVTransferConfig \<Rightarrow> bool) \<Rightarrow> bool \<Rightarrow> string option \<Rightarrow> environ \<Rightarrow> MigrationConfig \<Rightarrow> string option \<Rightarrow>
    KVTransferConfig res" where
  "make_transfer_config accepts needs_compat resolved env mc itype =
    (let (connector, module_path) = choose_connector needs_compat (migration_backend_transfer_type mc);
         role = getenv env ''LLUMNIX_KV_ROLE'' (default_role itype);
         rank = getenv env ''LLUMNIX_KV_RANK'' (if role = ''kv_consumer'' then ''1'' else ''0'');
         default_parallel_size = (if connector \<in> P2P_CONNECTORS then ''2'' else ''1'')
     in res_bind (py_int (getenv env ''LLUMNIX_KV_PARALLEL_SIZE'' default_parallel_size)) (\<lambda>parallel_size.
        res_bind (py_int (getenv env ''LLUMNIX_KV_PORT'' ''14579'')) (\<lambda>port.
        res_bind (py_int rank) (\<lambda>rank.
          let cfg = \<lparr>kv_connector = Some connector, kv_role = Some role, kv_rank = Some rank,
                kv_parallel_size = parallel_size, kv_ip = default_kv_ip env resolved, kv_port = port,
                kv_connector_extra_config =
                  extra_config env connector itype (kvtransfer_migration_backend_naming_url mc),
                kv_connector_module_path = module_path\<rparr>
          in if accepts cfg then Inr cfg else Inl ValueError))))"

text \<open>The publisher endpoint and, beside it, the replay endpoint a thousand ports further.\<close>

definition make_events_config ::
  "(string \<Rightarrow> nat) \<Rightarrow> environ \<Rightarrow> string option \<Rightarrow> KVEventsConfig res" where
  "make_events_config blake2b_2 env iid =
    (let name = (case iid of None \<Rightarrow> ''local'' | Some i \<Rightarrow> if i = [] then ''local'' else i);
         endpoint = (case dget env ''LLUMNIX_KV_EVENTS_ENDPOINT'' of
             Some e \<Rightarrow> e
           | None \<Rightarrow> ''tcp://*:'' @ nat_str (15557 + blake2b_2 name mod 1000));
         replay = (case dget env ''LLUMNIX_KV_EVENTS_REPLAY_ENDPOINT'' of
             Some r \<Rightarrow> Inr (Some r)
           | None \<Rightarrow>
              if startswith endpoint ''tcp://'' then
                (case rpartition (CHR '':'') endpoint of (base, _, port) \<Rightarrow>
                   res_bind (py_int port) (\<lambda>n. Inr (Some (base @ '':'' @ int_str (n + 1000)))))
              else Inr None)
     in res_bind replay (\<lambda>r. Inr \<lparr>enable_kv_cache_events = True, publisher = ''zmq'',
          events_endpoint = endpoint, events_replay_endpoint = r\<rparr>))"

definition configure_events ::
  "(string \<Rightarrow> nat) \<Rightarrow> environ \<Rightarrow> MigrationConfig \<Rightarrow> string option \<Rightarrow> KVEngineArgs \<Rightarrow> bool res \<times> KVEngineArgs" where
  "configure_events blake2b_2 env mc iid a =
    (if migration_backend mc = ''kvtransfer'' \<and> kv_events_config a = None
     then (case make_events_config blake2b_2 env iid of
             Inl e \<Rightarrow> (Inl e, a)
           | Inr ev \<Rightarrow> (Inr True, a\<lparr>kv_events_config := Some ev\<rparr>))
     else (Inr True, a))"

definition configure_v1_kv_transfer ::
  "(KVTransferConfig \<Rightarrow> bool) \<Rightarrow> bool \<Rightarrow> string option \<Rightarrow> (string \<Rightarrow> nat) \<Rightarrow> environ \<Rightarrow> KVEngineArgs \<Rightarrow>
    MigrationConfig \<Rightarrow> string option \<Rightarrow> string option \<Rightarrow> bool res \<times> environ \<times> KVEngineArgs" where
  "configure_v1_kv_transfer accepts needs_compat resolved blake2b_2 env a mc iid itype =
    (let current = kv_transfer_config a;
         explicit_p2p = (case current of None \<Rightarrow> False | Some cfg \<Rightarrow> in_connectors (kv_connector cfg))
     in if migration_backend mc \<noteq> ''kvtransfer'' \<and> \<not> explicit_p2p then (Inr False, env, a)
        else
          let env = (if dmem ''PYTHONHASHSEED'' env then env else dset ''PYTHONHASHSEED'' ''0'' env);
              a = (if prefix_caching_hash_algo a \<in> {None, Some ''sha256''}
                   then a\<lparr>prefix_caching_hash_algo := Some ''sha256_cbor''\<rparr> else a);
              a = (if enable_prefix_caching a \<noteq> Some True then a\<lparr>enable_prefix_caching := Some True\<rparr> else a)
          in case current of
               None \<Rightarrow>
                (case make_transfer_config accepts needs_compat resolved env mc itype of
                   Inl e \<Rightarrow> (Inl e, env, a)
                 | Inr cfg \<Rightarrow>
                    (case configure_events blake2b_2 env mc iid (a\<lparr>kv_transfer_config := Some cfg\<rparr>) of
                       (r, a) \<Rightarrow> (r, env, a)))
             | Some cfg \<Rightarrow>
                let cfg = (if kv_connector cfg = Some ''P2pNcclConnector'' \<and> needs_compat
                           then cfg\<lparr>kv_connector := Some ''CoreXP2pNcclConnector'',
                                    kv_connector_module_path := Some corex_module\<rparr> else cfg)
                in (case configure_events blake2b_2 env mc iid (a\<lparr>kv_transfer_config := Some cfg\<rparr>) of
                      (r, a) \<Rightarrow> (r, env, a)))"

subsection \<open>The CPU-staged transport\<close>

text \<open>
  The tensor store of \<open>CoreXZmqP2pEngine\<close>. A tensor is its shape, type name and bytes;
  the element size of a type name is the parameter \<open>itemsize\<close>, \<open>None\<close> for a name torch does
  not have, and \<open>view\<close> is torch's reinterpretation of the bytes, \<open>None\<close> when it raises.
  Waiting on the condition variable is the argument that says what arrives.
\<close>

record tensor =
  t_shape :: "int list"
  t_dtype :: string
  t_bytes :: "nat list"

record ZmqP2pEngine =
  recv_store :: "(string, tensor) dict"
  recv_ids :: "(string, string set) dict"
  send_ids :: "(string, string set) dict"
  peer_sockets :: "string list"
  engine_closed :: bool

definition zmq_address :: "string \<Rightarrow> int \<Rightarrow> int \<Rightarrow> string res" where
  "zmq_address host port port_offset =
    (if host = [] then Inl ValueError else Inr (host @ '':'' @ int_str (port + port_offset)))"

definition init_ZmqP2pEngine :: ZmqP2pEngine where
  "init_ZmqP2pEngine = \<lparr>recv_store = [], recv_ids = [], send_ids = [], peer_sockets = [], engine_closed = False\<rparr>"

definition request_of :: "string \<Rightarrow> string" where
  "request_of tensor_id = split_head ''#'' tensor_id"

definition add_id :: "string \<Rightarrow> (string, string set) dict \<Rightarrow> (string, string set) dict" where
  "add_id tensor_id d =
    dset (request_of tensor_id) (insert tensor_id (dget_default d (request_of tensor_id) {})) d"

datatype put_message =
    PutCpu string "int list" string "nat list"
  | OtherCommand
  | BadFrames
  | BadMeta

text \<open>One message of the listener and its reply: \<open>0\<close> accepted, \<open>1\<close> rejected, or no reply.\<close>

definition listen_message ::
  "(string \<Rightarrow> int option) \<Rightarrow> (string \<Rightarrow> int list \<Rightarrow> nat list \<Rightarrow> tensor option) \<Rightarrow> ZmqP2pEngine \<Rightarrow> put_message \<Rightarrow>
    nat option \<times> ZmqP2pEngine" where
  "listen_message itemsize view e msg =
    (case msg of
       BadFrames \<Rightarrow> (None, e)
     | OtherCommand \<Rightarrow> (None, e)
     | BadMeta \<Rightarrow> (Some 1, e)
     | PutCpu tensor_id shape dtype payload \<Rightarrow>
        (case itemsize dtype of
           None \<Rightarrow> (Some 1, e)
         | Some n \<Rightarrow>
            if int (length payload) \<noteq> n * prod_list shape then (Some 1, e)
            else (case view dtype shape payload of
                None \<Rightarrow> (Some 1, e)
              | Some t \<Rightarrow> (Some 0, e\<lparr>recv_store := dset tensor_id t (recv_store e),
                    recv_ids := add_id tensor_id (recv_ids e)\<rparr>))))"

text \<open>\<open>reply\<close> is what the peer answers, \<open>None\<close> when the receive times out.\<close>

definition send_tensor ::
  "ZmqP2pEngine \<Rightarrow> string \<Rightarrow> tensor \<Rightarrow> string option \<Rightarrow> nat option \<Rightarrow> bool res \<times> ZmqP2pEngine" where
  "send_tensor e tensor_id t remote_address reply =
    (case remote_address of
       None \<Rightarrow> (Inr True, e\<lparr>recv_store := dset tensor_id t (recv_store e)\<rparr>)
     | Some address \<Rightarrow>
        let e = (if address \<in> set (peer_sockets e) then e
                 else e\<lparr>peer_sockets := peer_sockets e @ [address]\<rparr>)
        in case reply of
             None \<Rightarrow> (Inl TimeoutError, e)
           | Some r \<Rightarrow>
              if r \<noteq> 0 then (Inr False, e) else (Inr True, e\<lparr>send_ids := add_id tensor_id (send_ids e)\<rparr>))"

text \<open>
  Waiting for a tensor: \<open>wakeups\<close> are the messages the listener handles at each
  notification before the wait times out.
\<close>

fun recv_tensor ::
  "(string \<Rightarrow> int option) \<Rightarrow> (string \<Rightarrow> int list \<Rightarrow> nat list \<Rightarrow> tensor option) \<Rightarrow> ZmqP2pEngine \<Rightarrow> string \<Rightarrow>
    put_message list \<Rightarrow> tensor res \<times> ZmqP2pEngine" where
  "recv_tensor itemsize view e tensor_id wakeups =
    (case dget (recv_store e) tensor_id of
       Some t \<Rightarrow> (Inr t, e)
     | None \<Rightarrow>
        (case wakeups of
           [] \<Rightarrow> (Inl TimeoutError, e)
         | msg # rest \<Rightarrow> recv_tensor itemsize view (snd (listen_message itemsize view e msg)) tensor_id rest))"

declare recv_tensor.simps [simp del]

definition forget_request :: "string list \<Rightarrow> ZmqP2pEngine \<Rightarrow> string \<Rightarrow> ZmqP2pEngine" where
  "forget_request layers e request_id =
    e\<lparr>recv_store := foldl (\<lambda>d layer. dpop (request_id @ ''#'' @ layer) d) (recv_store e) layers,
      recv_ids := dpop request_id (recv_ids e),
      send_ids := dpop request_id (send_ids e)\<rparr>"

definition zmq_get_finished :: "ZmqP2pEngine \<Rightarrow> string list \<Rightarrow> string list \<Rightarrow> ZmqP2pEngine" where
  "zmq_get_finished e finished_req_ids no_compile_layers =
    foldl (forget_request no_compile_layers) e finished_req_ids"

definition zmq_shutdown :: "ZmqP2pEngine \<Rightarrow> ZmqP2pEngine" where
  "zmq_shutdown e = (if engine_closed e then e else e\<lparr>engine_closed := True, peer_sockets := []\<rparr>)"

subsection \<open>The CoreX connector\<close>

definition nccl_engine_host :: "string option \<Rightarrow> string \<Rightarrow> string res" where
  "nccl_engine_host ip hostname =
    (let configured_host = (case ip of None \<Rightarrow> hostname | Some h \<Rightarrow> if h = [] then hostname else h)
     in if configured_host = [] \<or> configured_host = ''0.0.0.0'' then Inl ValueError else Inr configured_host)"

definition enable_v1_kv_attention_hooks :: "environ \<Rightarrow> environ" where
  "enable_v1_kv_attention_hooks env =
    (if getenv env ''LLUMNIX_TRUE_KV_MIGRATION_ONLY'' ''0'' \<in> {''1'', ''true'', ''TRUE''} then env
     else if dmem ''VLLM_SUPPORT_IXSERVER'' env then env
     else dset ''VLLM_SUPPORT_IXSERVER'' ''1'' env)"

definition disable_corex_cumem :: "environ \<Rightarrow> string res \<times> environ" where
  "disable_corex_cumem env =
    (let cumem = getenv env ''LLUMNIX_COREX_NCCL_CUMEM'' ''0'' in
     if cumem \<notin> {''0'', ''1''} then (Inl ValueError, env)
     else (Inr cumem, dset ''NCCL_CUMEM_ENABLE'' cumem env))"

definition corex_names :: "string list" where
  "corex_names = [''NCCL_MAX_NCHANNELS'', ''NCCL_MIN_NCHANNELS'', ''NCCL_CUMEM_ENABLE'']"

text \<open>The context manager: the values saved on entry and the restoring exit.\<close>

definition corex_enter :: "string \<Rightarrow> int \<Rightarrow> environ \<Rightarrow> (string \<times> string option) list \<times> environ" where
  "corex_enter cumem num_channels env =
    (map (\<lambda>n. (n, dget env n)) corex_names,
     dset ''NCCL_CUMEM_ENABLE'' cumem (dset ''NCCL_MIN_NCHANNELS'' (int_str num_channels)
       (dset ''NCCL_MAX_NCHANNELS'' (int_str num_channels) env)))"

fun corex_exit :: "(string \<times> string option) list \<Rightarrow> environ \<Rightarrow> environ" where
  "corex_exit [] env = env"
| "corex_exit ((n, None) # old) env = corex_exit old (dpop n env)"
| "corex_exit ((n, Some v) # old) env = corex_exit old (dset n v env)"

definition drop_unavailable_optional_nccl_symbols :: "string set option \<Rightarrow> string list \<Rightarrow> string list" where
  "drop_unavailable_optional_nccl_symbols library exported_functions =
    (case library of
       None \<Rightarrow> exported_functions
     | Some symbols \<Rightarrow> [name \<leftarrow> exported_functions.
         name \<in> {''ncclCommWindowRegister'', ''ncclCommWindowDeregister''} \<longrightarrow> name \<in> symbols])"

datatype corex_transport = ZmqCpu | Nccl

text \<open>The transport a connector is built with and whether it serves explicit migrations only.\<close>

definition init_CoreXP2pNcclConnector :: "environ \<Rightarrow> (string, extra_value) dict \<Rightarrow> (bool \<times> corex_transport) res" where
  "init_CoreXP2pNcclConnector env extra =
    (let migration_only = (case dget extra ''true_kv_migration_only'' of
           None \<Rightarrow> False | Some (XBool b) \<Rightarrow> b | Some (XStr s) \<Rightarrow> s \<noteq> []);
         transport = (case dget extra ''corex_transport'' of
           None \<Rightarrow> XStr (getenv env ''LLUMNIX_COREX_TRANSPORT'' ''nccl'') | Some v \<Rightarrow> v)
     in if transport = XStr ''zmq_cpu'' then Inr (migration_only, ZmqCpu)
        else if transport = XStr ''nccl'' then Inr (migration_only, Nccl)
        else Inl ValueError)"

subsection \<open>Lemmas\<close>

lemma nat_str_isdigit: "isdigit (nat_str n)"
  using nat_str_decimal[of n] by (simp add: isdigit_def)

lemma colon_not_decimal: "\<not> is_decimal (CHR '':'')" "\<not> is_decimal (CHR ''_'')"
  by (simp_all add: is_decimal_def)

lemma nat_str_absent: "\<not> is_decimal c \<Longrightarrow> c \<notin> set (nat_str n)"
  using nat_str_decimal[of n] by auto

lemma rpartition_port: "rpartition (CHR '':'') (h @ CHR '':'' # nat_str n) = (h, True, nat_str n)"
  by (rule rpartition_last) (simp add: nat_str_absent colon_not_decimal)

lemma valid_endpoint:
  "h \<noteq> [] \<Longrightarrow> 0 < n \<Longrightarrow> n < 65536 \<Longrightarrow> valid_p2p_endpoint (Some (h @ CHR '':'' # nat_str n)) = Inr True"
  by (simp add: valid_p2p_endpoint_def rpartition_port nat_str_isdigit py_int_nat_str)

lemmas marker_defs = P2P_REQUEST_ID_PREFIX_def P2P_REQUEST_ID_SUFFIX_def P2P_PREFILL_ID_PREFIX_def

lemma find_decode_marker:
  assumes "find_sub ''___'' r = None"
  shows "find_sub ''___decode_addr_'' (r @ ''___decode_addr_'' @ t) = Some (length r)"
  using find_marker_skip[OF assms, of "''decode_addr_''" "''decode_addr_'' @ t"]
    find_sub_prefix[of "''___decode_addr_''" t] by simp

lemma find_prefill_absent:
  assumes "find_sub ''___'' r = None" and "d \<noteq> []" and "CHR ''_'' \<notin> set d"
  shows "find_sub ''___prefill_addr_'' (r @ ''___decode_addr_'' @ d @ ''___'') = None"
proof -
  have "find_sub ''___prefill_addr_'' (d @ ''___'') = None"
    using find_sub_skip_absent[OF assms(3), of "''__prefill_addr_''" "''___''"] by simp
  moreover obtain c d' where "d = c # d'" "c \<noteq> CHR ''_''" using assms(2,3) by (cases d) auto
  ultimately have "find_sub ''___prefill_addr_'' (''___'' @ ''decode_addr_'' @ d @ ''___'') = None" by simp
  then show ?thesis
    using find_marker_skip[OF assms(1), of "''prefill_addr_''" "''decode_addr_'' @ d @ ''___''"] by simp
qed

lemma find_prefill_marker:
  assumes "find_sub ''___'' r = None" and "d \<noteq> []" and "CHR ''_'' \<notin> set d"
  shows "find_sub ''___prefill_addr_'' (r @ ''___decode_addr_'' @ d @ ''___'' @ ''___prefill_addr_'' @ t)
    = Some (length r + length d + 18)"
proof -
  have "find_sub ''___prefill_addr_'' (''___'' @ ''___prefill_addr_'' @ t) = Some 3"
    using find_sub_prefix[of "''___prefill_addr_''" t] by simp
  then have "find_sub ''___prefill_addr_'' (d @ ''___'' @ ''___prefill_addr_'' @ t) = Some (length d + 3)"
    using find_sub_skip_absent[OF assms(3), of "''__prefill_addr_''" "''___'' @ ''___prefill_addr_'' @ t"] by simp
  moreover obtain c d' where "d = c # d'" "c \<noteq> CHR ''_''" using assms(2,3) by (cases d) auto
  ultimately have "find_sub ''___prefill_addr_'' (''___'' @ ''decode_addr_'' @ d @ ''___'' @ ''___prefill_addr_'' @ t)
      = Some (length d + 18)" by simp
  then show ?thesis
    using find_marker_skip[OF assms(1), of "''prefill_addr_''" "''decode_addr_'' @ d @ ''___'' @ ''___prefill_addr_'' @ t"]
    by simp
qed

lemma drop_length_append: "drop (length u) (u @ v) = v"
  by simp

lemma parse_marked:
  assumes "CHR ''_'' \<notin> set h" and "h \<noteq> []"
    and "find_sub (if b then ''___decode_addr_'' else ''___prefill_addr_'') s = Some k"
    and "drop (k + length (if b then ''___decode_addr_'' else ''___prefill_addr_'')) s
      = (h @ CHR '':'' # nat_str n) @ ''___'' @ rest"
  shows "parse_request_id s b = Inr (h, int n)"
proof -
  have "CHR ''_'' \<notin> set (h @ CHR '':'' # nat_str n)"
    using assms(1) by (simp add: nat_str_absent colon_not_decimal)
  from split_head_absent_char[OF this, of "''__''" rest]
  show ?thesis
    using assms by (simp add: parse_request_id_def Let_def rpartition_port nat_str_isdigit py_int_nat_str)
qed

lemma strip_decorated:
  assumes "find_sub ''___'' r = None" and "d \<noteq> []" and "CHR ''_'' \<notin> set d"
  shows "strip_p2p_request_id (r @ ''___decode_addr_'' @ d @ ''___'' @ ''___prefill_addr_'' @ t) = r"
  using find_decode_marker[OF assms(1), of "d @ ''___'' @ ''___prefill_addr_'' @ t"]
    find_prefill_marker[OF assms, of t]
  by (simp add: strip_p2p_request_id_def marker_defs)

lemma events_endpoint:
  assumes "\<not> dmem ''LLUMNIX_KV_EVENTS_ENDPOINT'' env" and "\<not> dmem ''LLUMNIX_KV_EVENTS_REPLAY_ENDPOINT'' env"
  shows "\<exists>k < 1000. make_events_config h env iid = Inr \<lparr>enable_kv_cache_events = True, publisher = ''zmq'',
    events_endpoint = ''tcp://*:'' @ nat_str (15557 + k),
    events_replay_endpoint = Some (''tcp://*:'' @ nat_str (16557 + k))\<rparr>"
proof -
  define k where "k = h (case iid of None \<Rightarrow> ''local'' | Some i \<Rightarrow> if i = [] then ''local'' else i) mod 1000"
  have "dget env ''LLUMNIX_KV_EVENTS_ENDPOINT'' = None" "dget env ''LLUMNIX_KV_EVENTS_REPLAY_ENDPOINT'' = None"
    using assms by (simp_all add: dict_simps)
  moreover have "startswith (''tcp://*:'' @ nat_str (15557 + k)) ''tcp://''" by simp
  moreover have "rpartition (CHR '':'') (''tcp://*:'' @ nat_str (15557 + k)) = (''tcp://*'', True, nat_str (15557 + k))"
    using rpartition_port[of "''tcp://*''" "15557 + k"] by simp
  moreover have "int_str (int (15557 + k) + 1000) = nat_str (16557 + k)"
    by (simp add: int_str_def nat_add_distrib)
  ultimately have "make_events_config h env iid = Inr \<lparr>enable_kv_cache_events = True, publisher = ''zmq'',
      events_endpoint = ''tcp://*:'' @ nat_str (15557 + k),
      events_replay_endpoint = Some (''tcp://*:'' @ nat_str (16557 + k))\<rparr>"
    by (simp add: make_events_config_def Let_def py_int_nat_str k_def[symmetric])
  moreover have "k < 1000" by (simp add: k_def)
  ultimately show ?thesis by blast
qed

lemma make_transfer_default:
  assumes "\<forall>k \<in> {''LLUMNIX_KV_ROLE'', ''LLUMNIX_KV_RANK'', ''LLUMNIX_KV_PARALLEL_SIZE'', ''LLUMNIX_KV_PORT''}. \<not> dmem k env"
    and "migration_backend_transfer_type mc \<in> P2P_CONNECTORS"
    and "\<forall>cfg. kv_role cfg \<in> {Some ''kv_producer'', Some ''kv_consumer'', Some ''kv_both''} \<longrightarrow> accepts cfg"
  shows "\<exists>cfg. make_transfer_config accepts nc resolved env mc itype = Inr cfg
    \<and> in_connectors (kv_connector cfg) \<and> kv_role cfg = Some (default_role itype)
    \<and> kv_rank cfg = Some (if itype = Some ''decode'' then 1 else 0)
    \<and> kv_parallel_size cfg = 2 \<and> kv_port cfg = 14579"
proof -
  obtain connector path where con: "choose_connector nc (migration_backend_transfer_type mc) = (connector, path)"
    "connector \<in> P2P_CONNECTORS"
    using assms(2) by (auto simp: choose_connector_def P2P_CONNECTORS_def Let_def)
  have env: "getenv env ''LLUMNIX_KV_ROLE'' v = v" "getenv env ''LLUMNIX_KV_RANK'' v = v"
    "getenv env ''LLUMNIX_KV_PARALLEL_SIZE'' v = v" "getenv env ''LLUMNIX_KV_PORT'' v = v" for v
    using assms(1) by (simp_all add: getenv_def dget_default_def dget_None_iff[THEN iffD2])
  have "py_int ''2'' = Inr 2" "py_int ''14579'' = Inr 14579" "py_int ''0'' = Inr 0" "py_int ''1'' = Inr 1"
    by (simp_all add: py_int_def strip_def is_space_def is_decimal_def digit_value_def)
  then show ?thesis
    using con assms(3)
    by (auto simp: make_transfer_config_def env Let_def in_connectors_def default_role_def)
qed

lemma configure_fresh:
  assumes "migration_backend mc = ''kvtransfer''" and "kv_transfer_config a = None" and "kv_events_config a = None"
    and "\<not> dmem ''PYTHONHASHSEED'' env"
    and "make_transfer_config accepts nc resolved (dset ''PYTHONHASHSEED'' ''0'' env) mc itype = Inr cfg"
    and "make_events_config h (dset ''PYTHONHASHSEED'' ''0'' env) iid = Inr ev"
  shows "configure_v1_kv_transfer accepts nc resolved h env a mc iid itype =
    (Inr True, dset ''PYTHONHASHSEED'' ''0'' env, a\<lparr>kv_transfer_config := Some cfg,
       prefix_caching_hash_algo := (if prefix_caching_hash_algo a \<in> {None, Some ''sha256''}
         then Some ''sha256_cbor'' else prefix_caching_hash_algo a),
       enable_prefix_caching := Some True, kv_events_config := Some ev\<rparr>)"
  using assms by (cases a) (auto simp: configure_v1_kv_transfer_def configure_events_def Let_def)

text \<open>The context manager leaves the environment as it found it, whatever the body reads.\<close>

lemma corex_context_restores:
  "dget (corex_exit (fst (corex_enter cumem n env)) (snd (corex_enter cumem n env))) k = dget env k"
  by (cases "dget env ''NCCL_MAX_NCHANNELS''"; cases "dget env ''NCCL_MIN_NCHANNELS''";
      cases "dget env ''NCCL_CUMEM_ENABLE''")
    (auto simp: corex_enter_def corex_names_def dget_dset dget_dpop)

definition accepted_put ::
  "(string \<Rightarrow> int option) \<Rightarrow> (string \<Rightarrow> int list \<Rightarrow> nat list \<Rightarrow> tensor option) \<Rightarrow> string \<Rightarrow> put_message \<Rightarrow> bool" where
  "accepted_put itemsize view tid msg \<longleftrightarrow> (\<exists>shape dtype payload n. msg = PutCpu tid shape dtype payload
     \<and> itemsize dtype = Some n \<and> int (length payload) = n * prod_list shape \<and> view dtype shape payload \<noteq> None)"

lemma listen_accepted:
  "accepted_put sz v tid msg \<Longrightarrow> fst (listen_message sz v e msg) = Some 0
    \<and> dget (recv_store (snd (listen_message sz v e msg))) tid \<noteq> None"
  by (auto simp: accepted_put_def listen_message_def dget_dset)

lemma listen_rejected:
  "\<forall>tid. \<not> accepted_put sz v tid msg \<Longrightarrow> snd (listen_message sz v e msg) = e \<and> fst (listen_message sz v e msg) \<noteq> Some 0"
  by (auto simp: accepted_put_def listen_message_def split: put_message.split option.split)

lemma recv_tensor_stored:
  "fst (recv_tensor sz v e tid msgs) = Inr t \<Longrightarrow> dget (recv_store (snd (recv_tensor sz v e tid msgs))) tid = Some t"
proof (induction sz v e tid msgs rule: recv_tensor.induct)
  case (1 sz v e tid msgs)
  then show ?case
    by (subst recv_tensor.simps, subst (asm) (2) recv_tensor.simps) (auto split: option.splits list.splits)
qed

lemma recv_tensor_live:
  "\<exists>msg \<in> set msgs. accepted_put sz v tid msg \<Longrightarrow> is_ok (fst (recv_tensor sz v e tid msgs))"
proof (induction sz v e tid msgs rule: recv_tensor.induct)
  case (1 sz v e tid msgs)
  show ?case
  proof (cases "dget (recv_store e) tid")
    case None
    obtain msg rest where msgs: "msgs = msg # rest" using "1.prems" by (cases msgs) auto
    let ?e = "snd (listen_message sz v e msg)"
    have "is_ok (fst (recv_tensor sz v ?e tid rest))"
    proof (cases "accepted_put sz v tid msg")
      case True
      then obtain t where "dget (recv_store ?e) tid = Some t" using listen_accepted[OF True, of e] by auto
      then show ?thesis by (subst recv_tensor.simps) simp
    next
      case False
      then show ?thesis using "1.IH"[OF None msgs] "1.prems" msgs by auto
    qed
    then show ?thesis using None msgs by (subst recv_tensor.simps) simp
  qed (subst recv_tensor.simps, simp)
qed

lemma pop_layers:
  "dget (foldl (\<lambda>d layer. dpop (r @ CHR ''#'' # layer) d) d layers) k
    = (if \<exists>layer \<in> set layers. k = r @ CHR ''#'' # layer then None else dget d k)"
  by (induction layers arbitrary: d) (auto simp: dget_dpop)

lemma append_sep_cancel: "x \<notin> set a \<Longrightarrow> x \<notin> set b \<Longrightarrow> a @ x # u = b @ x # w \<Longrightarrow> a = b"
  by (induction a arbitrary: b) (auto simp: Cons_eq_append_conv append_eq_Cons_conv)

subsection \<open>Properties\<close>

lemma decorated_pair_id:
  assumes "find_sub ''___'' r = None"
    and "hdec \<noteq> []" and "CHR ''_'' \<notin> set hdec" and "0 < dp" and "dp < 65536"
    and "hpre \<noteq> []" and "CHR ''_'' \<notin> set hpre" and "0 < pp" and "pp < 65536"
  shows "\<exists>s. decorate_p2p_pd_request_id r (Some (hdec @ CHR '':'' # nat_str dp)) (Some (hpre @ CHR '':'' # nat_str pp)) = Inr s
    \<and> strip_p2p_request_id s = r
    \<and> parse_request_id s True = Inr (hdec, int dp) \<and> parse_request_id s False = Inr (hpre, int pp)
    \<and> decorate_p2p_pd_request_id s (Some (hdec @ CHR '':'' # nat_str dp)) (Some (hpre @ CHR '':'' # nat_str pp)) = Inr s"
proof -
  define d where "d = hdec @ CHR '':'' # nat_str dp"
  define p where "p = hpre @ CHR '':'' # nat_str pp"
  define s where "s = r @ ''___decode_addr_'' @ d @ ''___'' @ ''___prefill_addr_'' @ p @ ''___''"
  have d: "d \<noteq> []" "CHR ''_'' \<notin> set d" "valid_p2p_endpoint (Some d) = Inr True"
    using assms by (simp_all add: d_def nat_str_absent colon_not_decimal valid_endpoint)
  have p: "p \<noteq> []" "valid_p2p_endpoint (Some p) = Inr True"
    using assms by (simp_all add: p_def valid_endpoint)
  have none: "find_sub ''___decode_addr_'' r = None"
    using find_sub_longer[OF assms(1), of "''decode_addr_''"] by simp
  have dec: "find_sub ''___decode_addr_'' s = Some (length r)"
    unfolding s_def by (rule find_decode_marker[OF assms(1)])
  have pre: "find_sub ''___prefill_addr_'' s = Some (length r + length d + 18)"
    unfolding s_def by (rule find_prefill_marker[OF assms(1) d(1,2)])
  have "s = (r @ ''___decode_addr_'' @ d @ ''___'' @ ''___prefill_addr_'') @ p @ ''___''"
    by (simp add: s_def)
  moreover have "length (r @ ''___decode_addr_'' @ d @ ''___'' @ ''___prefill_addr_'') = length r + length d + 34"
    by simp
  ultimately have "drop (length r + length d + 34) s = p @ ''___''"
    by (metis drop_length_append)
  then have parse_dec: "parse_request_id s False = Inr (hpre, int pp)"
    by (intro parse_marked[OF assms(7,6), of False s "length r + length d + 18" pp "[]"])
      (simp_all add: pre p_def ac_simps)
  have "decorate_p2p_pd_request_id r (Some d) (Some p) = Inr s"
    using d(1,3) p none find_prefill_absent[OF assms(1) d(1,2)]
    by (simp add: decorate_p2p_pd_request_id_def decorate_p2p_request_id_def decorate_p2p_consumer_request_id_def
        attach_endpoint_def marker_defs s_def)
  moreover have "decorate_p2p_pd_request_id s (Some d) (Some p) = Inr s"
    using dec pre by (simp add: decorate_p2p_pd_request_id_def decorate_p2p_request_id_def
        decorate_p2p_consumer_request_id_def attach_endpoint_def marker_defs)
  moreover have "strip_p2p_request_id s = r" unfolding s_def by (rule strip_decorated[OF assms(1) d(1,2)])
  moreover have "parse_request_id s True = Inr (hdec, int dp)"
    by (rule parse_marked[OF assms(3,2), of True s "length r" dp "''___prefill_addr_'' @ p @ ''___''"])
      (simp_all add: dec, simp add: s_def d_def)
  ultimately show ?thesis using parse_dec unfolding d_def p_def by blast
qed

text \<open>
  C21: a request id carries both endpoints of a prefill/decode handover. For an id without
  three underscores in a row and hosts without an underscore, decorating it succeeds,
  stripping gives the id back, the connector reads the decode endpoint on the prefill side
  and the prefill endpoint on the decode side, and decorating again changes nothing.
\<close>

theorem p2p_request_id_round_trip:
  assumes "find_sub ''___'' r = None"
    and "hdec \<noteq> []" and "CHR ''_'' \<notin> set hdec" and "0 < dp" and "dp < 65536"
    and "hpre \<noteq> []" and "CHR ''_'' \<notin> set hpre" and "0 < pp" and "pp < 65536"
  shows "\<exists>s. decorate_p2p_pd_request_id r (Some (hdec @ CHR '':'' # nat_str dp)) (Some (hpre @ CHR '':'' # nat_str pp)) = Inr s
    \<and> strip_p2p_request_id s = r
    \<and> parse_request_id s True = Inr (hdec, int dp) \<and> parse_request_id s False = Inr (hpre, int pp)
    \<and> decorate_p2p_pd_request_id s (Some (hdec @ CHR '':'' # nat_str dp)) (Some (hpre @ CHR '':'' # nat_str pp)) = Inr s"
  using assms by (rule decorated_pair_id)

theorem p2p_request_id_round_trip_witness:
  "\<exists>s. decorate_p2p_pd_request_id ''req-1'' (Some (''10.0.0.2'' @ CHR '':'' # nat_str 14580))
        (Some (''10.0.0.1'' @ CHR '':'' # nat_str 14579)) = Inr s
    \<and> strip_p2p_request_id s = ''req-1'' \<and> parse_request_id s True = Inr (''10.0.0.2'', 14580)
    \<and> parse_request_id s False = Inr (''10.0.0.1'', 14579)"
  using p2p_request_id_round_trip[of "''req-1''" "''10.0.0.2''" 14580 "''10.0.0.1''" 14579] by fastforce

text \<open>
  With the connector selected by the migration settings and no override in the
  environment, every instance is configured and passes the start-up validation: prefill
  instances are producers of rank 0, decode instances consumers of rank 1, in a group of
  two. Prefix hashing becomes reproducible across hosts, and the event publisher and its
  replay listener get ports from two disjoint ranges.
\<close>

theorem configure_p2p_pair:
  assumes "migration_backend mc = ''kvtransfer''" and "migration_backend_transfer_type mc \<in> P2P_CONNECTORS"
    and "kv_transfer_config a = None" and "kv_events_config a = None"
    and "\<forall>k \<in> set V1_KV_RUNTIME_ENV_KEYS. \<not> dmem k env"
    and "\<forall>cfg. kv_role cfg \<in> {Some ''kv_producer'', Some ''kv_consumer'', Some ''kv_both''} \<longrightarrow> accepts cfg"
  shows "\<exists>env' a' cfg k. configure_v1_kv_transfer accepts nc resolved h env a mc iid itype = (Inr True, env', a')
    \<and> validate_p2p_environment env' a' = Inr () \<and> p2p_connector_enabled a'
    \<and> kv_transfer_config a' = Some cfg \<and> kv_role cfg = Some (default_role itype)
    \<and> kv_rank cfg = Some (if itype = Some ''decode'' then 1 else 0) \<and> kv_parallel_size cfg = 2
    \<and> enable_prefix_caching a' = Some True \<and> prefix_caching_hash_algo a' \<notin> {None, Some ''sha256''}
    \<and> dget env' ''PYTHONHASHSEED'' = Some ''0'' \<and> k < 1000
    \<and> kv_events_config a' = Some \<lparr>enable_kv_cache_events = True, publisher = ''zmq'',
         events_endpoint = ''tcp://*:'' @ nat_str (15557 + k),
         events_replay_endpoint = Some (''tcp://*:'' @ nat_str (16557 + k))\<rparr>"
proof -
  define env' where "env' = dset ''PYTHONHASHSEED'' ''0'' env"
  have keys: "\<not> dmem k env'" if "k \<in> set V1_KV_RUNTIME_ENV_KEYS" "k \<noteq> ''PYTHONHASHSEED''" for k
    using assms(5) that by (simp add: env'_def dkeys_dset)
  obtain cfg where cfg: "make_transfer_config accepts nc resolved env' mc itype = Inr cfg"
    "in_connectors (kv_connector cfg)" "kv_role cfg = Some (default_role itype)"
    "kv_rank cfg = Some (if itype = Some ''decode'' then 1 else 0)" "kv_parallel_size cfg = 2"
    using make_transfer_default[OF _ assms(2,6), of env' nc resolved itype] keys
    by (auto simp: V1_KV_RUNTIME_ENV_KEYS_def)
  have "\<not> dmem ''LLUMNIX_KV_EVENTS_ENDPOINT'' env'" "\<not> dmem ''LLUMNIX_KV_EVENTS_REPLAY_ENDPOINT'' env'"
    using keys by (simp_all add: V1_KV_RUNTIME_ENV_KEYS_def)
  from events_endpoint[OF this, of h iid] obtain k where k: "k < 1000"
    "make_events_config h env' iid = Inr \<lparr>enable_kv_cache_events = True, publisher = ''zmq'',
      events_endpoint = ''tcp://*:'' @ nat_str (15557 + k),
      events_replay_endpoint = Some (''tcp://*:'' @ nat_str (16557 + k))\<rparr>" by blast
  have addr: "dget env' ''LLUMNIX_KV_DECODE_ADDRESS'' = None"
    using keys[of "''LLUMNIX_KV_DECODE_ADDRESS''"] by (simp add: V1_KV_RUNTIME_ENV_KEYS_def dict_simps)
  have seed: "\<not> dmem ''PYTHONHASHSEED'' env" using assms(5) by (simp add: V1_KV_RUNTIME_ENV_KEYS_def)
  show ?thesis
    using cfg k(1) addr configure_fresh[OF assms(1,3,4) seed cfg(1)[unfolded env'_def] k(2)[unfolded env'_def]]
    by (auto simp: validate_p2p_environment_def p2p_connector_enabled_def env'_def dget_dset)
qed

theorem configure_p2p_pair_witness:
  "\<exists>env' a' cfg. configure_v1_kv_transfer (\<lambda>cfg. True) True None (\<lambda>s. 7) []
      \<lparr>kv_transfer_config = None, prefix_caching_hash_algo = None, enable_prefix_caching = None, kv_events_config = None\<rparr>
      ((create_migration_config default_InstanceArgs)\<lparr>migration_backend := ''kvtransfer'',
         migration_backend_transfer_type := ''P2pNcclConnector''\<rparr>) (Some ''i0'') (Some ''prefill'') = (Inr True, env', a')
    \<and> validate_p2p_environment env' a' = Inr () \<and> kv_transfer_config a' = Some cfg
    \<and> kv_role cfg = Some ''kv_producer'' \<and> kv_rank cfg = Some 0"
  using configure_p2p_pair[of "(create_migration_config default_InstanceArgs)\<lparr>migration_backend := ''kvtransfer'',
         migration_backend_transfer_type := ''P2pNcclConnector''\<rparr>"
      "\<lparr>kv_transfer_config = None, prefix_caching_hash_algo = None, enable_prefix_caching = None, kv_events_config = None\<rparr>"
      "[]" "\<lambda>cfg. True" True None "\<lambda>s. 7" "Some ''i0''" "Some ''prefill''"]
  by (auto simp: P2P_CONNECTORS_def default_role_def)



end
