(* ===== verification/Launching.thy ===== *)
theory Launching
  imports Config
begin

text \<open>
  Launching of instances (\<open>launcher.py\<close>, with the names and placement groups of \<open>utils.py\<close>
  and the entrypoint arguments of \<open>arg_utils.py\<close>): the resources of a placement group, the
  ports of the servers, the role of the next instance and the counters of instances in
  flight. Ray is outside: whether an actor can be created, whether it becomes ready and
  whether the ready callback raises are arguments. The internal key-value store is the
  field \<open>kv_port_offset\<close>; killing actors and removing groups is recorded as effects.
\<close>

subsection \<open>Names and placement groups\<close>

definition get_placement_group_name :: "string \<Rightarrow> string" where
  "get_placement_group_name iid = ''pg_'' @ iid"

definition get_server_name :: "string \<Rightarrow> string" where
  "get_server_name iid = ''server_'' @ iid"

definition get_instance_name :: "string \<Rightarrow> string" where
  "get_instance_name iid = ''instance_'' @ iid"

text \<open>\<open>name.split("_")[-1]\<close>.\<close>

definition id_of_name :: "string \<Rightarrow> string" where
  "id_of_name name = last (split_char (CHR ''_'') name)"

record pg_bundle =
  bundle_cpu :: int
  bundle_gpu :: int

record ray_node =
  node_alive :: bool
  node_gpu :: int

definition placement_group_specs :: "int \<Rightarrow> int \<Rightarrow> bool \<Rightarrow> pg_bundle list" where
  "placement_group_specs num_cpus num_gpus pack_gpus_in_first_bundle =
    (if num_gpus \<ge> 1 \<and> pack_gpus_in_first_bundle then [\<lparr>bundle_cpu = num_cpus, bundle_gpu = num_gpus\<rparr>]
     else if num_gpus \<ge> 1 then
       \<lparr>bundle_cpu = num_cpus, bundle_gpu = 1\<rparr> # replicate (nat (num_gpus - 1)) \<lparr>bundle_cpu = 0, bundle_gpu = 1\<rparr>
     else [\<lparr>bundle_cpu = num_cpus, bundle_gpu = 0\<rparr>])"

text \<open>\<open>created\<close> is what \<open>ray.util.placement_group\<close> and the wait for a blocking group give.\<close>

definition initialize_placement_group ::
  "int \<Rightarrow> ray_node list \<Rightarrow> unit res \<Rightarrow> int \<Rightarrow> int \<Rightarrow> bool \<Rightarrow> pg_bundle list res" where
  "initialize_placement_group num_gpus_in_cluster nodes created num_cpus num_gpus pack_gpus_in_first_bundle =
    (if num_gpus > num_gpus_in_cluster then Inl ValueError
     else if num_gpus > 1 \<and> num_gpus > foldr max (map node_gpu (filter node_alive nodes)) 0 then Inl ValueError
     else res_bind created (\<lambda>_. Inr (placement_group_specs num_cpus num_gpus pack_gpus_in_first_bundle)))"

subsection \<open>Entrypoint arguments\<close>

record EntrypointsArgs =
  ea_host :: string
  ea_port :: int
  ea_ssl_keyfile :: "string option"
  ea_ssl_certfile :: "string option"
  ea_log_level :: string
  ea_launch_ray_cluster :: bool
  ea_ray_cluster_port :: int
  ea_disable_log_to_driver :: bool
  ea_request_output_queue_type :: string
  ea_request_output_queue_port :: int
  ea_disable_log_requests_server :: bool
  ea_log_request_timestamps :: bool
  ea_config_file :: "string option"
  ea_disable_keep_serve_process_alive :: bool

definition default_EntrypointsArgs :: EntrypointsArgs where
  "default_EntrypointsArgs = \<lparr>ea_host = ''localhost'', ea_port = 8000, ea_ssl_keyfile = None, ea_ssl_certfile = None,
     ea_log_level = ''info'', ea_launch_ray_cluster = False, ea_ray_cluster_port = 6379,
     ea_disable_log_to_driver = False, ea_request_output_queue_type = ''rayqueue'',
     ea_request_output_queue_port = 1234, ea_disable_log_requests_server = False,
     ea_log_request_timestamps = False, ea_config_file = None, ea_disable_keep_serve_process_alive = False\<rparr>"

datatype QueueType = RAYQUEUE | ZMQ

definition queue_type_of :: "string \<Rightarrow> QueueType res" where
  "queue_type_of s = (if s = ''rayqueue'' then Inr RAYQUEUE else if s = ''zmq'' then Inr ZMQ else Inl ValueError)"

subsection \<open>The launcher\<close>

record Launcher =
  ln_enable_port_increment :: bool
  ln_enable_port_offset_store :: bool
  ln_enable_pd_disagg :: bool
  ln_enable_engine_pd_disagg :: bool
  ln_pd_ratio :: "int \<times> int"
  port_offset :: int
  inflight_num_prefill_instance :: int
  inflight_num_decode_instance :: int
  kv_port_offset :: "string option"

definition init_Launcher :: "ManagerArgs \<Rightarrow> string option \<Rightarrow> Launcher res" where
  "init_Launcher a stored =
    res_bind
      (if enable_port_increment a \<and> enable_port_offset_store a
       then (case stored of None \<Rightarrow> Inr 0 | Some v \<Rightarrow> py_int v) else Inr 0)
      (\<lambda>offset. Inr \<lparr>ln_enable_port_increment = enable_port_increment a,
         ln_enable_port_offset_store = enable_port_offset_store a,
         ln_enable_pd_disagg = ma_enable_pd_disagg a,
         ln_enable_engine_pd_disagg = (enable_engine_pd_disagg a = Some True),
         ln_pd_ratio = pd_ratio a, port_offset = offset,
         inflight_num_prefill_instance = 0, inflight_num_decode_instance = 0, kv_port_offset = stored\<rparr>)"

definition init_placement_group ::
  "int \<Rightarrow> ray_node list \<Rightarrow> unit res \<Rightarrow> int \<Rightarrow> bool \<Rightarrow> BackendType \<Rightarrow> bool \<Rightarrow> pg_bundle list res" where
  "init_placement_group gpus nodes created world_size vllm_v1 backend init_server =
    (if backend \<noteq> SIM_VLLM
     then initialize_placement_group gpus nodes created (2 + of_bool init_server) world_size (backend = VLLM \<and> vllm_v1)
     else initialize_placement_group gpus nodes created (2 + of_bool init_server) 0 False)"

definition get_next_instance_type :: "Launcher \<Rightarrow> int \<Rightarrow> int \<Rightarrow> int \<times> int \<Rightarrow> InstanceType res" where
  "get_next_instance_type l cur_num_prefill cur_num_decode ratio =
    (if \<not> ln_enable_pd_disagg l then Inr NO_CONSTRAINTS
     else
       let total_num_prefill = inflight_num_prefill_instance l + cur_num_prefill;
           total_num_decode = inflight_num_decode_instance l + cur_num_decode
       in if total_num_prefill = 0 then Inr PREFILL
          else if total_num_decode = 0 then Inr DECODE
          else if fst ratio = 0 \<or> snd ratio = 0 then Inl ZeroDivisionError
          else
            let normal_distance = fst ratio - snd ratio;
                base_num_ratio = min (total_num_prefill div fst ratio) (total_num_decode div snd ratio);
                total_num_prefill = total_num_prefill - base_num_ratio * fst ratio;
                total_num_decode = total_num_decode - base_num_ratio * snd ratio
            in if total_num_prefill + total_num_decode = 0 then Inr PREFILL
               else
                 let distance_if_prefill = total_num_prefill + 1 - total_num_decode;
                     distance_if_decode = total_num_prefill - (total_num_decode + 1)
                 in if \<bar>distance_if_prefill - normal_distance\<bar> \<le> \<bar>distance_if_decode - normal_distance\<bar>
                    then Inr PREFILL else Inr DECODE)"

text \<open>The role comes from the members of the global scheduler and the instances in flight.\<close>

definition instance_type_str :: "InstanceType \<Rightarrow> string" where
  "instance_type_str t = (case t of NO_CONSTRAINTS \<Rightarrow> ''no_constraints'' | PREFILL \<Rightarrow> ''prefill'' | DECODE \<Rightarrow> ''decode'')"

definition get_next_instance_args ::
  "Launcher \<Rightarrow> GlobalScheduler \<Rightarrow> InstanceArgs \<Rightarrow> (InstanceType \<times> InstanceArgs) res" where
  "get_next_instance_args l gs instance_args =
    (if ln_enable_engine_pd_disagg l then Inl AssertionError
     else
       let available = available_dispatch_instance_set (dispatch_scheduler gs)
       in res_bind (get_next_instance_type l (int (card available)) (int (card (instance_id_set gs - available)))
            (ln_pd_ratio l)) (\<lambda>t. Inr (t, instance_args\<lparr>ia_instance_type := instance_type_str t\<rparr>)))"

definition get_next_entrypoints_args :: "Launcher \<Rightarrow> EntrypointsArgs \<Rightarrow> EntrypointsArgs \<times> Launcher" where
  "get_next_entrypoints_args l ea =
    (if ln_enable_port_increment l
     then (ea\<lparr>ea_port := ea_port ea + port_offset l,
              ea_request_output_queue_port := ea_request_output_queue_port ea + port_offset l\<rparr>,
           let l = l\<lparr>port_offset := port_offset l + 1\<rparr>
           in if ln_enable_port_offset_store l then l\<lparr>kv_port_offset := Some (int_str (port_offset l))\<rparr> else l)
     else (ea, l))"

definition add_inflight :: "InstanceType \<Rightarrow> int \<Rightarrow> Launcher \<Rightarrow> Launcher" where
  "add_inflight t n l =
    l\<lparr>inflight_num_prefill_instance := inflight_num_prefill_instance l + (if t = PREFILL then n else 0),
      inflight_num_decode_instance := inflight_num_decode_instance l + (if t = DECODE then n else 0)\<rparr>"

text \<open>
  Starting a server and its instance: \<open>instance_created\<close> and \<open>server_created\<close> say whether the
  actors can be created. The task that waits for the instance gets the returned arguments.
\<close>

definition init_server_and_instance ::
  "Launcher \<Rightarrow> GlobalScheduler \<Rightarrow> EntrypointsArgs \<Rightarrow> InstanceArgs \<Rightarrow> unit res \<Rightarrow> unit res \<Rightarrow>
    (InstanceType \<times> InstanceArgs \<times> EntrypointsArgs) res \<times> Launcher" where
  "init_server_and_instance l gs ea ia instance_created server_created =
    (case queue_type_of (ea_request_output_queue_type ea) of
       Inl e \<Rightarrow> (Inl e, l)
     | Inr _ \<Rightarrow>
        (case get_next_instance_args l gs ia of
           Inl e \<Rightarrow> (Inl e, l)
         | Inr (t, next_ia) \<Rightarrow>
            (case instance_created of
               Inl e \<Rightarrow> (Inl e, l)
             | Inr _ \<Rightarrow>
                (case get_next_entrypoints_args l ea of
                   (next_ea, l) \<Rightarrow>
                    (case server_created of
                       Inl e \<Rightarrow> (Inl e, l)
                     | Inr _ \<Rightarrow> (Inr (t, next_ia, next_ea), add_inflight t 1 l))))))"

datatype ray_effect = RemovePlacementGroup string | KillServer string | KillInstance string

definition clear_instance_ray_resources :: "string \<Rightarrow> ray_effect list" where
  "clear_instance_ray_resources iid = [RemovePlacementGroup iid, KillServer iid, KillInstance iid]"

text \<open>
  The task: \<open>ready\<close> is the outcome of waiting for the instance and starting the server,
  \<open>called\<close> the outcome of the ready callbacks, which run after the counters went down.
\<close>

definition done_scale_up :: "Launcher \<Rightarrow> string \<Rightarrow> InstanceType \<Rightarrow> unit res \<Rightarrow> unit res \<Rightarrow> ray_effect list \<times> Launcher" where
  "done_scale_up l iid t ready called =
    (case ready of
       Inl e \<Rightarrow> (clear_instance_ray_resources iid, add_inflight t (- 1) l)
     | Inr _ \<Rightarrow>
        let l = add_inflight t (- 1) l in
        case called of
          Inl e \<Rightarrow> (clear_instance_ray_resources iid, add_inflight t (- 1) l)
        | Inr _ \<Rightarrow> ([], l))"

subsection \<open>Deployments\<close>

text \<open>
  A deployment launches instances, which become ready and join the global scheduler in any
  order. Instance ids are fresh (\<open>random_uuid\<close>): launching under an id in use does nothing.
\<close>

record deployment =
  dp_gs :: GlobalScheduler
  dp_launcher :: Launcher
  dp_pending :: "(string \<times> InstanceType) list"
  dp_launched :: "string list"

datatype deploy_event = DLaunch string | DReady nat

fun deploy_step :: "EntrypointsArgs \<Rightarrow> InstanceArgs \<Rightarrow> deployment \<Rightarrow> deploy_event \<Rightarrow> deployment" where
  "deploy_step ea ia s (DLaunch x) =
    (if x \<in> set (dp_launched s) then s
     else case init_server_and_instance (dp_launcher s) (dp_gs s) ea ia (Inr ()) (Inr ()) of
         (Inl e, l) \<Rightarrow> s\<lparr>dp_launcher := l\<rparr>
       | (Inr (t, _, _), l) \<Rightarrow> s\<lparr>dp_launcher := l, dp_pending := dp_pending s @ [(x, t)],
                               dp_launched := dp_launched s @ [x]\<rparr>)"
| "deploy_step ea ia s (DReady n) =
    (if n < length (dp_pending s)
     then let (x, t) = dp_pending s ! n
          in s\<lparr>dp_gs := gs_scale_up (dp_gs s) [(x, t)],
               dp_launcher := snd (done_scale_up (dp_launcher s) x t (Inr ()) (Inr ())),
               dp_pending := take n (dp_pending s) @ drop (Suc n) (dp_pending s)\<rparr>
     else s)"

definition prefill_total :: "GlobalScheduler \<Rightarrow> Launcher \<Rightarrow> int" where
  "prefill_total gs l =
    inflight_num_prefill_instance l + int (card (available_dispatch_instance_set (dispatch_scheduler gs)))"

definition decode_total :: "GlobalScheduler \<Rightarrow> Launcher \<Rightarrow> int" where
  "decode_total gs l = inflight_num_decode_instance l
     + int (card (instance_id_set gs - available_dispatch_instance_set (dispatch_scheduler gs)))"

text \<open>The deployment has completed \<open>k\<close> rounds of the ratio and is within the next one.\<close>

definition in_round :: "int \<Rightarrow> int \<Rightarrow> int \<Rightarrow> int \<Rightarrow> bool" where
  "in_round p d a b \<longleftrightarrow> (let k = (a + b) div (p + d) in
     k * p \<le> a \<and> a \<le> (k + 1) * p \<and> k * d \<le> b \<and> b \<le> (k + 1) * d)"

lemma div_eqI: "k * m \<le> a \<Longrightarrow> a < (k + 1) * m \<Longrightarrow> 0 < m \<Longrightarrow> a div m = k" for a k m :: int
  by (rule int_div_pos_eq[of a m k "a - m * k"]) (auto simp: algebra_simps)

lemma in_round_iff:
  assumes "0 < p" "0 < d" "k * (p + d) \<le> a + b" "a + b < (k + 1) * (p + d)"
  shows "in_round p d a b \<longleftrightarrow> k * p \<le> a \<and> a \<le> (k + 1) * p \<and> k * d \<le> b \<and> b \<le> (k + 1) * d"
proof -
  have "(a + b) div (p + d) = k" using div_eqI[OF assms(3,4)] assms(1,2) by simp
  then show ?thesis by (simp add: in_round_def)
qed

lemma in_round_step:
  assumes pd: "0 < p" "0 < d" and ab: "0 \<le> a" "0 \<le> b" and ir: "in_round p d a b"
    and k: "k = (a + b) div (p + d)"
    and step: "a' = a + 1 \<and> b' = b \<and> a' \<le> (k + 1) * p \<or> a' = a \<and> b' = b + 1 \<and> b' \<le> (k + 1) * d"
  shows "in_round p d a' b'"
proof -
  have "k * (p + d) + (a + b) mod (p + d) = a + b" by (simp only: k div_mult_mod_eq)
  moreover have "0 \<le> (a + b) mod (p + d)" "(a + b) mod (p + d) < p + d" using pd by auto
  ultimately have kb: "k * (p + d) \<le> a + b" "a + b < (k + 1) * (p + d)"
    unfolding distrib_right[of k 1 "p + d"] by simp_all
  have br: "k * p \<le> a" "a \<le> (k + 1) * p" "k * d \<le> b" "b \<le> (k + 1) * d"
    using ir pd kb by (simp_all add: in_round_iff)
  show ?thesis
  proof (cases "a' + b' < (k + 1) * (p + d)")
    case True
    then show ?thesis using in_round_iff[of p d k a' b'] pd kb br step by auto
  next
    case False
    then have "a' + b' = (k + 1) * (p + d)" using kb step by auto
    then have "a' = (k + 1) * p" "b' = (k + 1) * d"
      using step br by (auto simp: distrib_left)
    then show ?thesis using in_round_iff[of p d "k + 1" a' b'] pd by (simp add: algebra_simps)
  qed
qed

lemma next_type_in_round:
  assumes pd: "ln_enable_pd_disagg l" "ln_pd_ratio l = (p, d)" "0 < p" "0 < d"
    and ab: "0 \<le> inflight_num_prefill_instance l + a" "0 \<le> inflight_num_decode_instance l + b"
    and ir: "in_round p d (inflight_num_prefill_instance l + a) (inflight_num_decode_instance l + b)"
  shows "\<exists>t \<in> {PREFILL, DECODE}. get_next_instance_type l a b (p, d) = Inr t
    \<and> in_round p d (inflight_num_prefill_instance l + a + of_bool (t = PREFILL))
        (inflight_num_decode_instance l + b + of_bool (t = DECODE))"
proof -
  define x where "x = inflight_num_prefill_instance l + a"
  define y where "y = inflight_num_decode_instance l + b"
  define k where "k = (x + y) div (p + d)"
  have nn: "0 \<le> x" "0 \<le> y" and ir: "in_round p d x y" using ab ir by (simp_all add: x_def y_def)
  have "k * (p + d) + (x + y) mod (p + d) = x + y" by (simp only: k_def div_mult_mod_eq)
  moreover have "(x + y) mod (p + d) < p + d" using pd by auto
  ultimately have lt: "x + y < (k + 1) * p + (k + 1) * d" by (simp add: algebra_simps)
  have br: "k * p \<le> x" "x \<le> (k + 1) * p" "k * d \<le> y" "y \<le> (k + 1) * d"
    using ir by (simp_all add: in_round_def k_def Let_def)
  have k0: "0 \<le> k" using nn pd by (simp add: k_def pos_imp_zdiv_nonneg_iff)
  obtain t where t: "t \<in> {PREFILL, DECODE}" "get_next_instance_type l a b (p, d) = Inr t"
    and room: "t = PREFILL \<Longrightarrow> x + 1 \<le> (k + 1) * p" "t = DECODE \<Longrightarrow> y + 1 \<le> (k + 1) * d"
  proof (cases "x = 0 \<or> y = 0")
    case True
    have "1 \<le> (k + 1) * p" "1 \<le> (k + 1) * d" using k0 pd by (simp_all add: mult_pos_pos int_one_le_iff_zero_less)
    then show ?thesis
      using that[of PREFILL] that[of DECODE] True pd
      by (cases "x = 0") (auto simp: get_next_instance_type_def Let_def x_def[symmetric] y_def[symmetric])
  next
    case False
    have base: "min (x div p) (y div d) = k"
    proof (cases "x < (k + 1) * p")
      case True
      then have "x div p = k" using br pd by (intro div_eqI)
      moreover have "k \<le> y div d" using br(3) pd(4) zdiv_mono1[of "k * d" y d] by simp
      ultimately show ?thesis by simp
    next
      case False
      then have "x = (k + 1) * p" using br by simp
      then have "y div d = k" "x div p = k + 1" using br pd lt by (auto intro!: div_eqI)
      then show ?thesis by simp
    qed
    define u where "u = x - k * p"
    define v where "v = y - k * d"
    have uv: "0 \<le> u" "0 \<le> v" "u \<le> p" "v \<le> d" "u + v < p + d" "x + 1 \<le> (k + 1) * p \<longleftrightarrow> u + 1 \<le> p" "y + 1 \<le> (k + 1) * d \<longleftrightarrow> v + 1 \<le> d"
      using br lt by (simp_all add: u_def v_def distrib_right, linarith+)
    let ?t = "if u + v = 0 \<or> d - v \<le> p - u then PREFILL else DECODE"
    have "\<bar>u + 1 - v - (p - d)\<bar> \<le> \<bar>u - (v + 1) - (p - d)\<bar> \<longleftrightarrow> d - v \<le> p - u" by arith
    then have "get_next_instance_type l a b (p, d) = Inr ?t"
      using pd False base
      by (simp add: get_next_instance_type_def Let_def x_def[symmetric] y_def[symmetric] u_def[symmetric] v_def[symmetric])
    then show ?thesis using that[of ?t] uv pd(3) by (auto split: if_splits)
  qed
  have "in_round p d (x + of_bool (t = PREFILL)) (y + of_bool (t = DECODE))"
    using t(1) room by (intro in_round_step[OF pd(3,4) nn ir k_def]) auto
  then show ?thesis using t unfolding x_def y_def by (intro bexI[of _ t]) (simp_all add: add.assoc)
qed

definition role_count :: "InstanceType \<Rightarrow> (string \<times> InstanceType) list \<Rightarrow> int" where
  "role_count t xs = int (length (filter (\<lambda>p. snd p = t) xs))"

lemma role_count_simps [simp]:
  "role_count t [] = 0" "role_count t (p # xs) = of_bool (snd p = t) + role_count t xs"
  "role_count t (xs @ ys) = role_count t xs + role_count t ys"
  by (simp_all add: role_count_def)

lemma role_count_total:
  "\<forall>p \<in> set xs. snd p \<in> {PREFILL, DECODE} \<Longrightarrow> role_count PREFILL xs + role_count DECODE xs = int (length xs)"
  by (induction xs) auto

definition deploy_inv :: "int \<Rightarrow> int \<Rightarrow> deployment \<Rightarrow> bool" where
  "deploy_inv p d s \<longleftrightarrow>
     (let l = dp_launcher s; ids = instance_id_set (dp_gs s);
          available = available_dispatch_instance_set (dispatch_scheduler (dp_gs s)); pending = dp_pending s
      in ln_enable_pd_disagg l \<and> \<not> ln_enable_engine_pd_disagg l \<and> ln_pd_ratio l = (p, d)
       \<and> (\<forall>q \<in> set pending. snd q \<in> {PREFILL, DECODE})
       \<and> inflight_num_prefill_instance l = role_count PREFILL pending
       \<and> inflight_num_decode_instance l = role_count DECODE pending
       \<and> distinct (map fst pending) \<and> distinct (dp_launched s)
       \<and> fst ` set pending \<inter> ids = {} \<and> fst ` set pending \<union> ids = set (dp_launched s)
       \<and> available \<subseteq> ids
       \<and> in_round p d (prefill_total (dp_gs s) l) (decode_total (dp_gs s) l))"

lemma deploy_totals:
  assumes "deploy_inv p d s"
  shows "prefill_total (dp_gs s) (dp_launcher s) + decode_total (dp_gs s) (dp_launcher s) = int (length (dp_launched s))"
proof -
  let ?ids = "instance_id_set (dp_gs s)"
  let ?av = "available_dispatch_instance_set (dispatch_scheduler (dp_gs s))"
  note inv = assms[unfolded deploy_inv_def Let_def]
  have fin: "finite ?ids" using inv by (metis finite_Un List.finite_set)
  have "card ?av + card (?ids - ?av) = card ?ids"
    using inv fin by (metis card_Diff_subset card_mono finite_subset le_add_diff_inverse)
  moreover have "card (fst ` set (dp_pending s)) = length (dp_pending s)"
    using inv by (metis distinct_card length_map list.set_map)
  moreover have "card (fst ` set (dp_pending s) \<union> ?ids) = card (fst ` set (dp_pending s)) + card ?ids"
    using inv fin by (intro card_Un_disjoint) auto
  moreover have "card (set (dp_launched s)) = length (dp_launched s)" using inv distinct_card by blast
  ultimately have "length (dp_pending s) + (card ?av + card (?ids - ?av)) = length (dp_launched s)"
    using inv by simp
  then show ?thesis
    using inv role_count_total[of "dp_pending s"] by (simp add: prefill_total_def decode_total_def)
qed

lemma scale_up_one:
  assumes "x \<notin> instance_id_set gs"
  shows "instance_id_set (gs_scale_up gs [(x, t)]) = insert x (instance_id_set gs)"
    and "available_dispatch_instance_set (dispatch_scheduler (gs_scale_up gs [(x, t)]))
      = (if t \<in> {NO_CONSTRAINTS, PREFILL} then insert x (available_dispatch_instance_set (dispatch_scheduler gs))
         else available_dispatch_instance_set (dispatch_scheduler gs))"
  using assms by (simp_all add: gs_add_instance_def ds_add_instance_def ds_update_instance_infos_def Let_def)

lemma deploy_launch_inv:
  assumes "deploy_inv p d s" and "0 < p" and "0 < d" and "is_ok (queue_type_of (ea_request_output_queue_type ea))"
  shows "deploy_inv p d (deploy_step ea ia s (DLaunch x))"
proof (cases "x \<in> set (dp_launched s)")
  case False
  note inv = assms(1)[unfolded deploy_inv_def Let_def]
  let ?l = "dp_launcher s"
  let ?a = "int (card (available_dispatch_instance_set (dispatch_scheduler (dp_gs s))))"
  let ?b = "int (card (instance_id_set (dp_gs s) - available_dispatch_instance_set (dispatch_scheduler (dp_gs s))))"
  have "0 \<le> inflight_num_prefill_instance ?l + ?a" "0 \<le> inflight_num_decode_instance ?l + ?b"
    using inv by (simp_all add: role_count_def)
  then obtain t where t: "t \<in> {PREFILL, DECODE}" "get_next_instance_type ?l ?a ?b (p, d) = Inr t"
    "in_round p d (inflight_num_prefill_instance ?l + ?a + of_bool (t = PREFILL))
      (inflight_num_decode_instance ?l + ?b + of_bool (t = DECODE))"
    using next_type_in_round[of ?l p d ?a ?b] inv assms(2,3) by (auto simp: prefill_total_def decode_total_def)
  define l' where "l' = snd (get_next_entrypoints_args ?l ea)"
  have l': "ln_enable_pd_disagg l' = ln_enable_pd_disagg ?l" "ln_enable_engine_pd_disagg l' = ln_enable_engine_pd_disagg ?l"
    "ln_pd_ratio l' = ln_pd_ratio ?l" "inflight_num_prefill_instance l' = inflight_num_prefill_instance ?l"
    "inflight_num_decode_instance l' = inflight_num_decode_instance ?l"
    by (simp_all add: l'_def get_next_entrypoints_args_def Let_def)
  obtain ea' where ea': "get_next_entrypoints_args ?l ea = (ea', l')" by (cases "get_next_entrypoints_args ?l ea") (simp add: l'_def)
  have "\<exists>y. init_server_and_instance ?l (dp_gs s) ea ia (Inr ()) (Inr ()) = (Inr (t, y), add_inflight t 1 l')"
    using inv t(2) ea' assms(4)
    by (auto simp: init_server_and_instance_def get_next_instance_args_def is_ok_iff Let_def)
  then have "deploy_step ea ia s (DLaunch x) = s\<lparr>dp_launcher := add_inflight t 1 l',
      dp_pending := dp_pending s @ [(x, t)], dp_launched := dp_launched s @ [x]\<rparr>" using False by auto
  moreover have "deploy_inv p d (s\<lparr>dp_launcher := add_inflight t 1 l',
      dp_pending := dp_pending s @ [(x, t)], dp_launched := dp_launched s @ [x]\<rparr>)"
    using inv t(1,3) False l'
    by (auto simp: deploy_inv_def Let_def add_inflight_def prefill_total_def decode_total_def algebra_simps)
  ultimately show ?thesis by simp
qed (use assms(1) in simp)

lemma deploy_ready_inv:
  assumes "deploy_inv p d s"
  shows "deploy_inv p d (deploy_step ea ia s (DReady n))"
proof (cases "n < length (dp_pending s)")
  case True
  note inv = assms[unfolded deploy_inv_def Let_def]
  let ?ids = "instance_id_set (dp_gs s)"
  let ?av = "available_dispatch_instance_set (dispatch_scheduler (dp_gs s))"
  obtain x t where xt: "dp_pending s ! n = (x, t)" by (cases "dp_pending s ! n")
  define us where "us = take n (dp_pending s)"
  define vs where "vs = drop (Suc n) (dp_pending s)"
  have split: "dp_pending s = us @ (x, t) # vs"
    using True xt by (simp add: us_def vs_def) (metis id_take_nth_drop)
  have x: "x \<notin> ?ids" and t: "t \<in> {PREFILL, DECODE}" using inv split by auto
  have fin: "finite ?ids" using inv by (metis finite_Un List.finite_set)
  then have finav: "finite ?av" and xav: "x \<notin> ?av" using inv x finite_subset by auto
  have cards: "card (insert x ?av) = card ?av + 1" "insert x ?ids - insert x ?av = ?ids - ?av"
    "card (insert x ?ids - ?av) = card (?ids - ?av) + 1"
    using x xav finav fin by (auto simp: insert_Diff_if card_insert_if)
  define s' where "s' = s\<lparr>dp_gs := gs_scale_up (dp_gs s) [(x, t)],
      dp_launcher := add_inflight t (- 1) (dp_launcher s), dp_pending := us @ vs\<rparr>"
  have tot: "prefill_total (dp_gs s') (dp_launcher s') = prefill_total (dp_gs s) (dp_launcher s)"
    "decode_total (dp_gs s') (dp_launcher s') = decode_total (dp_gs s) (dp_launcher s)"
    using t by (auto simp: s'_def prefill_total_def decode_total_def add_inflight_def scale_up_one[OF x] cards
        simp del: gs_scale_up.simps)
  have sets: "instance_id_set (dp_gs s') = insert x ?ids"
    "available_dispatch_instance_set (dispatch_scheduler (dp_gs s')) \<subseteq> insert x ?ids"
    using inv t by (auto simp: s'_def scale_up_one[OF x] simp del: gs_scale_up.simps)
  have frame: "dp_launched s' = dp_launched s" "dp_pending s' = us @ vs"
    "dp_launcher s' = add_inflight t (- 1) (dp_launcher s)" by (simp_all add: s'_def)
  have "deploy_inv p d s'"
    using inv tot sets t x unfolding deploy_inv_def Let_def frame
    by (auto simp: add_inflight_def split)
  moreover have "deploy_step ea ia s (DReady n) = s'"
    using True xt by (simp add: done_scale_up_def us_def vs_def Let_def s'_def)
  ultimately show ?thesis by simp
qed (use assms in simp)

definition deploy_ok :: "EntrypointsArgs \<Rightarrow> int \<Rightarrow> int \<Rightarrow> bool" where
  "deploy_ok ea p d \<longleftrightarrow> 0 < p \<and> 0 < d \<and> is_ok (queue_type_of (ea_request_output_queue_type ea))"

interpretation dp_machine: invariant_machine "deploy_step ea ia" "\<lambda>s. deploy_ok ea p d \<and> deploy_inv p d s"
proof (unfold_locales, goal_cases)
  case (1 s e)
  then show ?case
    by (cases e) (simp_all only: deploy_ok_def deploy_launch_inv deploy_ready_inv simp_thms)
qed

definition fresh_deployment :: "GlobalScheduler \<Rightarrow> Launcher \<Rightarrow> deployment" where
  "fresh_deployment gs l = \<lparr>dp_gs = gs, dp_launcher = l, dp_pending = [], dp_launched = []\<rparr>"

lemma fresh_deploy_inv:
  assumes "init_GlobalScheduler cfg = Inr gs" and "init_Launcher a stored = Inr l"
    and "ma_enable_pd_disagg a" and "enable_engine_pd_disagg a \<noteq> Some True" and "pd_ratio a = (p, d)"
    and "0 < p" and "0 < d"
  shows "deploy_inv p d (fresh_deployment gs l)"
proof -
  have "instance_id_set gs = {}" "available_dispatch_instance_set (dispatch_scheduler gs) = {}"
    using assms(1) by (auto simp: init_GlobalScheduler_def init_DispatchScheduler_def res_bind_Inr_iff Let_def)
  moreover have "ln_enable_pd_disagg l" "\<not> ln_enable_engine_pd_disagg l" "ln_pd_ratio l = (p, d)"
    "inflight_num_prefill_instance l = 0" "inflight_num_decode_instance l = 0"
    using assms(2-5) by (auto simp: init_Launcher_def res_bind_Inr_iff)
  ultimately show ?thesis
    using assms(6,7)
    by (simp add: deploy_inv_def fresh_deployment_def prefill_total_def decode_total_def in_round_def)
qed

subsection \<open>Properties\<close>

text \<open>
  C24: launching keeps the configured prefill/decode ratio. Whatever the order in which
  launched instances become ready and join the global scheduler, after \<open>k * (p + d)\<close>
  launches with ratio \<open>p:d\<close> exactly \<open>k * p\<close> prefill and \<open>k * d\<close> decode instances are running or
  on their way, and in between neither role runs ahead of the round that is being filled.
\<close>

theorem launch_keeps_pd_ratio:
  assumes "init_GlobalScheduler cfg = Inr gs" and "init_Launcher a stored = Inr l"
    and "ma_enable_pd_disagg a" and "enable_engine_pd_disagg a \<noteq> Some True" and "pd_ratio a = (p, d)"
    and "0 < p" and "0 < d" and "is_ok (queue_type_of (ea_request_output_queue_type ea))"
    and "s = foldl (deploy_step ea ia) (fresh_deployment gs l) es"
  shows "in_round p d (prefill_total (dp_gs s) (dp_launcher s)) (decode_total (dp_gs s) (dp_launcher s))
    \<and> prefill_total (dp_gs s) (dp_launcher s) + decode_total (dp_gs s) (dp_launcher s) = int (length (dp_launched s))
    \<and> (int (length (dp_launched s)) = k * (p + d) \<longrightarrow>
        prefill_total (dp_gs s) (dp_launcher s) = k * p \<and> decode_total (dp_gs s) (dp_launcher s) = k * d)"
proof -
  have inv: "deploy_inv p d s"
    using dp_machine.run_preserves[of ea p d "fresh_deployment gs l" ia es] fresh_deploy_inv[OF assms(1-7)] assms(6-9)
    by (simp add: deploy_ok_def)
  let ?a = "prefill_total (dp_gs s) (dp_launcher s)" and ?b = "decode_total (dp_gs s) (dp_launcher s)"
  have ir: "in_round p d ?a ?b" using inv by (simp add: deploy_inv_def Let_def)
  have sum: "?a + ?b = int (length (dp_launched s))" by (rule deploy_totals[OF inv])
  have "?a = k * p \<and> ?b = k * d" if "?a + ?b = k * (p + d)"
    using ir in_round_iff[OF assms(6,7), of k ?a ?b] that assms(6,7) by (auto simp: distrib_left distrib_right)
  then show ?thesis using ir sum by auto
qed

definition example_pd_args :: ManagerArgs where
  "example_pd_args = (case init_ManagerArgs (no_ManagerArgs\<lparr>raw_enable_pd_disagg := Some True, raw_pd_ratio := Some ''2:1''\<rparr>) of
     Inr a \<Rightarrow> a)"

lemma example_pd_args_facts:
  "ma_enable_pd_disagg example_pd_args" "enable_engine_pd_disagg example_pd_args = None"
  "pd_ratio example_pd_args = (2, 1)" "\<not> enable_port_increment example_pd_args"
  by (simp_all add: example_pd_args_def init_ManagerArgs_def no_ManagerArgs_def default_def parse_ratio_def
      py_int_def strip_def is_space_def is_decimal_def digit_value_def Let_def)

theorem launch_keeps_pd_ratio_witness:
  "\<exists>gs l s. init_GlobalScheduler example_config = Inr gs \<and> init_Launcher example_pd_args None = Inr l
    \<and> s = foldl (deploy_step default_EntrypointsArgs default_InstanceArgs) (fresh_deployment gs l)
            [DLaunch ''a'', DLaunch ''b'', DReady 0, DLaunch ''c'']
    \<and> in_round 2 1 (prefill_total (dp_gs s) (dp_launcher s)) (decode_total (dp_gs s) (dp_launcher s))"
proof -
  obtain gs where gs: "init_GlobalScheduler example_config = Inr gs" using example_config_ok by blast
  obtain l where l: "init_Launcher example_pd_args None = Inr l"
    by (simp add: init_Launcher_def example_pd_args_facts)
  have "is_ok (queue_type_of (ea_request_output_queue_type default_EntrypointsArgs))"
    by (simp add: queue_type_of_def default_EntrypointsArgs_def)
  then have "in_round 2 1 (prefill_total (dp_gs s) (dp_launcher s)) (decode_total (dp_gs s) (dp_launcher s))"
    if "s = foldl (deploy_step default_EntrypointsArgs default_InstanceArgs) (fresh_deployment gs l)
      [DLaunch ''a'', DLaunch ''b'', DReady 0, DLaunch ''c'']" for s
    using launch_keeps_pd_ratio[OF gs l _ _ _ _ _ _ that, of 2 1] by (simp add: example_pd_args_facts)
  then show ?thesis using gs l by blast
qed

text \<open>
  A group asks for exactly the CPUs and GPUs of its instance, with all GPUs in the first
  bundle when the engine starts its own workers.
\<close>

lemma placement_group_resources:
  assumes "initialize_placement_group gpus nodes created cpus n pack = Inr bs" and "0 \<le> n"
  shows "sum_list (map bundle_cpu bs) = cpus \<and> sum_list (map bundle_gpu bs) = n \<and> n \<le> gpus
    \<and> (pack \<longrightarrow> length bs = 1) \<and> (\<not> pack \<longrightarrow> (\<forall>b \<in> set bs. bundle_gpu b \<le> 1))"
proof -
  have "bs = placement_group_specs cpus n pack" "n \<le> gpus"
    using assms(1) by (auto simp: initialize_placement_group_def res_bind_Inr_iff split: if_splits)
  then show ?thesis
    using assms(2) by (auto simp: placement_group_specs_def sum_list_replicate of_nat_diff)
qed

text \<open>A ready callback that raises takes the instance out of the counters twice.\<close>

lemma ready_callback_failure_counts_twice:
  "inflight_num_prefill_instance (snd (done_scale_up l x PREFILL (Inr ()) (Inl e)))
    = inflight_num_prefill_instance l - 2"
  by (simp add: done_scale_up_def add_inflight_def)

end
