(* ===== verification/KV_Index.thy ===== *)
theory KV_Index
  imports Instance_Info Py_Strings "HOL-Library.Product_Lexorder"
begin

text \<open>
  The prefix-cache index of the V1 engine (\<open>backends/vllm/v1_kv.py\<close>): cache events are
  applied per instance, and candidates are ranked by the blocks of a request they hold.
  The block hash function of vLLM (or the \<open>blake2b\<close> fallback) is the parameter
  \<open>hash_block\<close>, which maps the parent hash and the tokens of a block to its hash.
\<close>

text \<open>A hash as an event carries it: bytes, a bytearray or an integer.\<close>

datatype raw_hash = RawBytes "nat list" | RawByteArray "nat list" | RawInt int

fun normalized_hash :: "raw_hash \<Rightarrow> block_hash" where
  "normalized_hash (RawBytes b) = HashBytes b"
| "normalized_hash (RawByteArray b) = HashBytes b"
| "normalized_hash (RawInt n) = HashInt n"

datatype kv_event =
    BlockStored "raw_hash list" "int list" int "string option"
  | BlockRemoved "raw_hash list"
  | AllBlocksCleared
  | OtherEvent

record KVBlockLocation =
  loc_instance_id :: string
  loc_block_hash :: block_hash
  loc_token_ids :: "int list"
  loc_block_size :: int
  loc_medium :: string
  last_seen_step :: int

record KVCacheAffinityIndex =
  index_blocks :: "(string, (block_hash, KVBlockLocation) dict) dict"
  index_step :: int

definition init_KVCacheAffinityIndex :: KVCacheAffinityIndex where
  "init_KVCacheAffinityIndex = \<lparr>index_blocks = [], index_step = 0\<rparr>"

text \<open>\<open>medium or "GPU"\<close>: a missing or empty medium is the GPU.\<close>

definition event_medium :: "string option \<Rightarrow> string" where
  "event_medium m = (case m of None \<Rightarrow> ''GPU'' | Some s \<Rightarrow> if s = [] then ''GPU'' else s)"

fun store_blocks ::
  "(block_hash \<Rightarrow> KVBlockLocation) \<Rightarrow> raw_hash list \<Rightarrow> (block_hash, KVBlockLocation) dict \<Rightarrow> (block_hash, KVBlockLocation) dict" where
  "store_blocks loc [] d = d"
| "store_blocks loc (h # hs) d = store_blocks loc hs (dset (normalized_hash h) (loc (normalized_hash h)) d)"

fun remove_blocks :: "raw_hash list \<Rightarrow> (block_hash, 'a) dict \<Rightarrow> (block_hash, 'a) dict" where
  "remove_blocks [] d = d"
| "remove_blocks (h # hs) d = remove_blocks hs (dpop (normalized_hash h) d)"

fun apply_event ::
  "string \<Rightarrow> int \<Rightarrow> (block_hash, KVBlockLocation) dict \<Rightarrow> kv_event \<Rightarrow> (block_hash, KVBlockLocation) dict" where
  "apply_event x step d (BlockStored hs tokens bsize medium) =
    store_blocks (\<lambda>h. \<lparr>loc_instance_id = x, loc_block_hash = h, loc_token_ids = tokens,
      loc_block_size = bsize, loc_medium = event_medium medium, last_seen_step = step\<rparr>) hs d"
| "apply_event x step d (BlockRemoved hs) = remove_blocks hs d"
| "apply_event x step d AllBlocksCleared = []"
| "apply_event x step d OtherEvent = d"

definition apply_events :: "KVCacheAffinityIndex \<Rightarrow> string \<Rightarrow> kv_event list \<Rightarrow> KVCacheAffinityIndex" where
  "apply_events ix x events =
    ix\<lparr>index_blocks := dset x (foldl (apply_event x (index_step ix)) (dget_default (index_blocks ix) x []) events)
         (index_blocks ix),
       index_step := index_step ix + 1\<rparr>"

definition block_hashes :: "KVCacheAffinityIndex \<Rightarrow> string \<Rightarrow> block_hash set" where
  "block_hashes ix x = set (dkeys (dget_default (index_blocks ix) x []))"

text \<open>The loop over the complete blocks, chaining each hash to its parent.\<close>

fun chain_hashes :: "('h option \<Rightarrow> int list \<Rightarrow> 'h) \<Rightarrow> nat \<Rightarrow> nat \<Rightarrow> 'h option \<Rightarrow> int list \<Rightarrow> 'h list" where
  "chain_hashes hash_block bsize 0 parent tokens = []"
| "chain_hashes hash_block bsize (Suc n) parent tokens =
    (let h = hash_block parent (take bsize tokens)
     in h # chain_hashes hash_block bsize n (Some h) (drop bsize tokens))"

definition prefix_hashes :: "('h option \<Rightarrow> int list \<Rightarrow> 'h) \<Rightarrow> int list \<Rightarrow> int \<Rightarrow> 'h list" where
  "prefix_hashes hash_block token_ids block_size =
    (if block_size \<le> 0 then []
     else let full_tokens = int (length token_ids) - int (length token_ids) mod block_size in
       if full_tokens \<le> 0 then []
       else chain_hashes hash_block (nat block_size) (nat (full_tokens div block_size)) None token_ids)"

definition index_affinity :: "KVCacheAffinityIndex \<Rightarrow> string \<Rightarrow> raw_hash list \<Rightarrow> rat" where
  "index_affinity ix x hashes =
    (let requested = set (map normalized_hash hashes) in
     if requested = {} then 0
     else of_nat (card (requested \<inter> block_hashes ix x)) / of_nat (card requested))"

definition rank :: "KVCacheAffinityIndex \<Rightarrow> raw_hash list \<Rightarrow> string list \<Rightarrow> string list" where
  "rank ix hashes candidates = py_sorted (\<lambda>x. (- index_affinity ix x hashes, x)) candidates"

definition index_snapshot :: "KVCacheAffinityIndex \<Rightarrow> (string, block_hash set) dict" where
  "index_snapshot ix = map (\<lambda>x. (x, block_hashes ix x)) (dkeys (index_blocks ix))"

definition connect_endpoint :: "string \<Rightarrow> string" where
  "connect_endpoint endpoint =
    (if startswith endpoint ''tcp://*:'' \<or> startswith endpoint ''tcp://0.0.0.0:''
     then ''tcp://127.0.0.1:'' @ snd (snd (rpartition (CHR '':'') endpoint))
     else endpoint)"

subsection \<open>Ownership as sets\<close>

text \<open>What an event does to the set of blocks an instance owns.\<close>

fun own_event :: "block_hash set \<Rightarrow> kv_event \<Rightarrow> block_hash set" where
  "own_event S (BlockStored hs tokens bsize medium) = S \<union> normalized_hash ` set hs"
| "own_event S (BlockRemoved hs) = S - normalized_hash ` set hs"
| "own_event S AllBlocksCleared = {}"
| "own_event S OtherEvent = S"

lemma store_blocks_keys: "fst ` set (store_blocks loc hs d) = fst ` set d \<union> normalized_hash ` set hs"
  by (induction hs arbitrary: d) (auto simp: dkeys_dset)

lemma remove_blocks_keys: "fst ` set (remove_blocks hs d) = fst ` set d - normalized_hash ` set hs"
  by (induction hs arbitrary: d) (auto simp: dkeys_dpop)

lemma apply_event_keys: "fst ` set (apply_event x n d e) = own_event (fst ` set d) e"
  by (cases e) (simp_all add: store_blocks_keys remove_blocks_keys)

lemma apply_events_keys: "fst ` set (foldl (apply_event x n) d es) = foldl own_event (fst ` set d) es"
  by (induction es arbitrary: d) (simp_all add: apply_event_keys)

lemma block_hashes_apply:
  "block_hashes (apply_events ix x es) y =
    (if y = x then foldl own_event (block_hashes ix x) es else block_hashes ix y)"
  by (simp add: block_hashes_def apply_events_def dget_default_dset apply_events_keys)

text \<open>Every batch keeps some owned blocks and adds some, so repeating it changes nothing.\<close>

lemma own_events_form: "\<exists>K C. \<forall>S. foldl own_event S es = (S \<inter> K) \<union> C"
proof (induction es)
  case Nil
  show ?case by (rule exI[of _ UNIV], rule exI[of _ "{}"]) simp
next
  case (Cons e es)
  then obtain K C where KC: "\<forall>S. foldl own_event S es = (S \<inter> K) \<union> C" by blast
  show ?case
  proof (cases e)
    case (BlockStored hs tokens bsize medium)
    then show ?thesis
      using KC by (intro exI[of _ K] exI[of _ "(normalized_hash ` set hs \<inter> K) \<union> C"]) auto
  next
    case (BlockRemoved hs)
    then show ?thesis using KC by (intro exI[of _ "K - normalized_hash ` set hs"] exI[of _ C]) auto
  next
    case AllBlocksCleared
    then show ?thesis using KC by (intro exI[of _ "{}"] exI[of _ C]) auto
  next
    case OtherEvent
    then show ?thesis using KC by (intro exI[of _ K] exI[of _ C]) auto
  qed
qed

lemma own_events_idempotent: "foldl own_event (foldl own_event S es) es = foldl own_event S es"
proof -
  obtain K C where KC: "\<forall>S. foldl own_event S es = (S \<inter> K) \<union> C"
    using own_events_form[of es] by (elim exE)
  show ?thesis by (simp only: KC[rule_format]) blast
qed

lemma chain_hashes_length: "length (chain_hashes hb bsize n p ts) = n"
  by (induction n arbitrary: p ts) (simp_all add: Let_def)

lemma chain_hashes_append:
  "n * bsize \<le> length xs \<Longrightarrow> chain_hashes hb bsize n p (xs @ ys) = chain_hashes hb bsize n p xs"
  by (induction n arbitrary: p xs) (simp_all add: Let_def)

lemma chain_hashes_take: "m \<le> n \<Longrightarrow> take m (chain_hashes hb bsize n p ts) = chain_hashes hb bsize m p ts"
proof (induction n arbitrary: m p ts)
  case (Suc n)
  then show ?case by (cases m) (simp_all add: Let_def)
qed simp

lemma prefix_hashes_chain:
  assumes "0 < bsize"
  shows "prefix_hashes hb ts (int bsize) = chain_hashes hb bsize (length ts div bsize) None ts"
proof -
  have full: "(int (length ts) - int (length ts) mod int bsize) div int bsize = int (length ts div bsize)"
    using assms by (simp add: minus_mod_eq_mult_div zdiv_int)
  have "int (length ts) - int (length ts) mod int bsize \<le> 0 \<longleftrightarrow> length ts div bsize = 0"
    using assms by (simp add: minus_mod_eq_mult_div mult_le_0_iff flip: zdiv_int)
  then show ?thesis using assms by (auto simp: prefix_hashes_def Let_def full)
qed

subsection \<open>Properties\<close>

text \<open>
  C20: the index refines ownership sets. Applying a batch of events to an instance changes
  its owned hashes exactly as storing, removing and clearing sets would, leaves every
  other instance alone, and applying the same batch a second time changes no ownership,
  which is what makes a replayed delivery harmless.
\<close>

theorem index_refines_ownership:
  "block_hashes (apply_events ix x es) x = foldl own_event (block_hashes ix x) es
   \<and> (\<forall>y. y \<noteq> x \<longrightarrow> block_hashes (apply_events ix x es) y = block_hashes ix y)
   \<and> (\<forall>y. block_hashes (apply_events (apply_events ix x es) x es) y = block_hashes (apply_events ix x es) y)"
  by (simp add: block_hashes_apply own_events_idempotent)

theorem index_refines_ownership_witness:
  "block_hashes (apply_events init_KVCacheAffinityIndex ''a''
      [BlockStored [RawInt 1, RawInt 2] [] 16 None, BlockRemoved [RawInt 1]]) ''a''
    = foldl own_event (block_hashes init_KVCacheAffinityIndex ''a'')
      [BlockStored [RawInt 1, RawInt 2] [] 16 None, BlockRemoved [RawInt 1]]"
  using index_refines_ownership[of init_KVCacheAffinityIndex "''a''"
      "[BlockStored [RawInt 1, RawInt 2] [] 16 None, BlockRemoved [RawInt 1]]"] by blast

text \<open>
  Affinity is a fraction, one exactly when the instance owns every requested block and
  zero exactly when it owns none, and the ranking is a permutation of the candidates in
  decreasing affinity, ties in increasing id.
\<close>

theorem rank_by_affinity:
  "mset (rank ix hs cs) = mset cs
   \<and> sorted_wrt (\<lambda>x y. index_affinity ix y hs < index_affinity ix x hs
        \<or> index_affinity ix x hs = index_affinity ix y hs \<and> x \<le> y) (rank ix hs cs)
   \<and> 0 \<le> index_affinity ix x hs \<and> index_affinity ix x hs \<le> 1
   \<and> (hs = [] \<or> (index_affinity ix x hs = 1 \<longleftrightarrow> normalized_hash ` set hs \<subseteq> block_hashes ix x)
        \<and> (index_affinity ix x hs = 0 \<longleftrightarrow> normalized_hash ` set hs \<inter> block_hashes ix x = {}))"
proof (intro conjI)
  let ?R = "normalized_hash ` set hs" and ?B = "block_hashes ix x"
  have aff: "index_affinity ix x hs = of_nat (card (?R \<inter> ?B)) / of_nat (card ?R)"
    by (cases "hs = []") (simp_all add: index_affinity_def Let_def)
  have le: "card (?R \<inter> ?B) \<le> card ?R" by (rule card_mono) auto
  show "0 \<le> index_affinity ix x hs" by (simp add: aff)
  show "index_affinity ix x hs \<le> 1" using le by (simp add: aff divide_le_eq)
  show "mset (rank ix hs cs) = mset cs" by (simp add: rank_def)
  show "sorted_wrt (\<lambda>x y. index_affinity ix y hs < index_affinity ix x hs
      \<or> index_affinity ix x hs = index_affinity ix y hs \<and> x \<le> y) (rank ix hs cs)"
    using py_sorted_linorder[of "\<lambda>x. (- index_affinity ix x hs, x)" cs]
    by (auto simp: rank_def sorted_wrt_map less_eq_prod_def elim!: sorted_wrt_mono_rel[rotated])
  show "hs = [] \<or> (index_affinity ix x hs = 1 \<longleftrightarrow> ?R \<subseteq> ?B) \<and> (index_affinity ix x hs = 0 \<longleftrightarrow> ?R \<inter> ?B = {})"
  proof (cases "hs = []")
    case False
    then have pos: "0 < card ?R" by (simp add: card_gt_0_iff)
    have "card (?R \<inter> ?B) = card ?R \<longleftrightarrow> ?R \<subseteq> ?B"
      by (metis List.finite_set finite_imageI inf.absorb_iff1 card_subset_eq inf_le1)
    then show ?thesis using pos by (simp add: aff divide_eq_eq)
  qed simp
qed

text \<open>
  A request has one hash per complete block, and requests that share a token prefix
  share the hashes of the blocks that lie in it, for every block hash function.
\<close>

theorem prefix_hashes_shared:
  assumes "0 < bsize"
  shows "length (prefix_hashes hb (xs @ ys) (int bsize)) = (length xs + length ys) div bsize
    \<and> take (length xs div bsize) (prefix_hashes hb (xs @ ys) (int bsize)) = prefix_hashes hb xs (int bsize)"
proof -
  let ?m = "length xs div bsize" and ?n = "(length xs + length ys) div bsize"
  have "?m * bsize \<le> length xs" by (metis div_times_less_eq_dividend)
  moreover have "?m \<le> ?n" by (simp add: div_le_mono)
  ultimately show ?thesis
    using assms by (simp add: prefix_hashes_chain chain_hashes_length chain_hashes_take chain_hashes_append)
qed

theorem prefix_hashes_shared_witness:
  "take 1 (prefix_hashes (\<lambda>p ts. length ts) ([1, 2, 3] @ [4]) 2)
    = prefix_hashes (\<lambda>p ts. length ts) [1, 2, 3] 2"
  using prefix_hashes_shared[of 2 "\<lambda>p ts. length ts" "[1, 2, 3]" "[4]"] by simp

end
