(* ===== verification/Manager_State.thy ===== *)
theory Manager_State
  imports P2P_Routing Launching KV_Index
begin

text \<open>
  The manager's state and membership (\<open>manager.py\<close>): construction, scaling up and down,
  polling of reports, starting the initial instances, the automatic scale-up loop, the
  deployment checks and the rebuilding of the migration backend. Actor calls are outside:
  what they return is an argument, and an exception is a value of the reply. A loop body
  is one definition, so a run is a sequence of steps. Tasks the manager starts and the Ray
  resources it releases are recorded in the state.
\<close>

datatype manager_task =
    RebuildMigrationBackend
  | Migrate PairMigrationConstraints
  | MigrateV1 PairMigrationConstraints

datatype manager_effect = Ray ray_effect | ClearGloo

record Manager =
  is_vllm_v1 :: bool
  launch_mode :: "LaunchMode option"
  mg_enable_migration :: bool
  enable_v1_migration :: bool
  mg_pair_migration_frequency :: int
  mg_enable_pd_disagg :: bool
  mg_enable_scaling :: bool
  mg_max_instances :: int
  mg_is_group_kind :: bool
  mg_initial_instances :: int
  global_scheduler :: GlobalScheduler
  mg_launcher :: Launcher
  mg_log_instance_info :: bool
  instance_last_logged_empty :: "(string, bool) dict"
  mg_num_instances :: nat
  mg_instances :: "(string, string) dict"
  pending_instance_ids :: "string set"
  pending_placement_groups :: "(string, string) dict"
  instance_migrating :: "(string, bool) dict"
  pending_rebuild_migration_instances :: int
  global_initial_instances_launched :: bool
  request_instance :: "(string, string) dict"
  request_instances :: "(string, string set) dict"
  request_server_info :: "(string, string) dict"
  waiting_pd_request_ids :: "string set"
  pd_wait_events :: "(string, bool) dict"
  num_instance_info_updates :: int
  v1_migrating_requests :: "string set"
  v1_migration_epochs :: "(string, int) dict"
  v1_migration_retries :: "(string, int) dict"
  v1_request_last_migration_time :: "(string, rat) dict"
  state_api_available :: bool
  last_timeout_instance_id :: "string option"
  mg_tasks :: "manager_task list"
  mg_effects :: "manager_effect list"

subsection \<open>Scaling up and down\<close>

text \<open>The loop over the new instances; its result says whether any was new.\<close>

fun register_instance :: "bool \<times> Manager \<Rightarrow> string \<times> string \<times> InstanceType \<Rightarrow> bool \<times> Manager" where
  "register_instance (updated, m) (x, handle, t) =
    (let m = m\<lparr>pending_instance_ids := pending_instance_ids m - {x},
               pending_placement_groups := dpop x (pending_placement_groups m)\<rparr>
     in if dmem x (mg_instances m) then (updated, m)
        else (True, m\<lparr>mg_instances := dset x handle (mg_instances m),
                instance_migrating := dset x False (instance_migrating m),
                instance_last_logged_empty :=
                  (if mg_log_instance_info m then dset x False (instance_last_logged_empty m)
                   else instance_last_logged_empty m),
                pending_rebuild_migration_instances := pending_rebuild_migration_instances m + 1\<rparr>))"

definition register_instances :: "Manager \<Rightarrow> (string \<times> string \<times> InstanceType) list \<Rightarrow> bool \<times> Manager" where
  "register_instances m entries = foldl register_instance (False, m) entries"

definition scale_up :: "Manager \<Rightarrow> (string \<times> string \<times> InstanceType) list \<Rightarrow> nat \<times> Manager" where
  "scale_up m entries =
    (let no_pending_instance = (pending_rebuild_migration_instances m = 0);
         (indeed_update, m) = register_instances m entries;
         m = m\<lparr>global_scheduler := gs_scale_up (global_scheduler m) (map (\<lambda>(x, _, t). (x, t)) entries)\<rparr>;
         m = m\<lparr>mg_num_instances := length (mg_instances m)\<rparr>;
         m = (if mg_enable_migration m \<and> mg_is_group_kind m \<and> indeed_update \<and> no_pending_instance
              then m\<lparr>mg_tasks := mg_tasks m @ [RebuildMigrationBackend]\<rparr> else m)
     in (mg_num_instances m, m))"

fun deregister_instance :: "bool \<times> Manager \<Rightarrow> string \<Rightarrow> bool \<times> Manager" where
  "deregister_instance (updated, m) x =
    (let m = m\<lparr>pending_instance_ids := pending_instance_ids m - {x},
               pending_placement_groups := dpop x (pending_placement_groups m),
               mg_effects := mg_effects m @ map Ray (clear_instance_ray_resources x)\<rparr>
     in if \<not> dmem x (mg_instances m) then (updated, m)
        else (True, m\<lparr>mg_instances := dpop x (mg_instances m),
                instance_migrating := dpop x (instance_migrating m),
                instance_last_logged_empty :=
                  (if mg_log_instance_info m then dpop x (instance_last_logged_empty m)
                   else instance_last_logged_empty m),
                pending_rebuild_migration_instances := pending_rebuild_migration_instances m + 1\<rparr>))"

definition deregister_instances :: "Manager \<Rightarrow> string list \<Rightarrow> bool \<times> Manager" where
  "deregister_instances m ids = foldl deregister_instance (False, m) ids"

definition scale_down :: "Manager \<Rightarrow> string list \<Rightarrow> bool \<Rightarrow> nat \<times> Manager" where
  "scale_down m ids rebuild_migration_backend =
    (let no_pending_instance = (pending_rebuild_migration_instances m = 0);
         (indeed_update, m) = deregister_instances m ids;
         m = m\<lparr>global_scheduler := gs_scale_down (global_scheduler m) ids\<rparr>;
         m = m\<lparr>mg_num_instances := length (mg_instances m)\<rparr>;
         m = (if mg_enable_migration m \<and> mg_is_group_kind m then
                (if mg_instances m = []
                 then m\<lparr>pending_rebuild_migration_instances := 0, mg_effects := mg_effects m @ [ClearGloo]\<rparr>
                 else if indeed_update \<and> no_pending_instance \<and> rebuild_migration_backend
                   then m\<lparr>mg_tasks := mg_tasks m @ [RebuildMigrationBackend]\<rparr>
                 else m)
              else m)
     in (mg_num_instances m, m))"

abbreviation scale_down1 :: "Manager \<Rightarrow> string \<Rightarrow> Manager" where
  "scale_down1 m x \<equiv> snd (scale_down m [x] True)"

subsection \<open>Construction and connecting\<close>

definition base_Manager ::
  "ManagerArgs \<Rightarrow> (LaunchMode \<times> BackendType) option \<Rightarrow> bool \<Rightarrow> GlobalScheduler \<Rightarrow> Launcher \<Rightarrow> Manager" where
  "base_Manager a launch_args v1_backend_available gs l =
    (let v1 = (case launch_args of None \<Rightarrow> False | Some (_, b) \<Rightarrow> b = VLLM \<and> v1_backend_available) in
     \<lparr>is_vllm_v1 = v1, launch_mode = map_option fst launch_args,
      mg_enable_migration = (enable_migration a \<and> \<not> v1), enable_v1_migration = (enable_migration a \<and> v1),
      mg_pair_migration_frequency = pair_migration_frequency a, mg_enable_pd_disagg = ma_enable_pd_disagg a,
      mg_enable_scaling = enable_scaling a, mg_max_instances = max_instances a,
      mg_is_group_kind = (ma_is_group_kind_migration_backend a = Some True),
      mg_initial_instances = ma_initial_instances a, global_scheduler = gs, mg_launcher = l,
      mg_log_instance_info = log_instance_info a, instance_last_logged_empty = [], mg_num_instances = 0,
      mg_instances = [], pending_instance_ids = {}, pending_placement_groups = [], instance_migrating = [],
      pending_rebuild_migration_instances = 0, global_initial_instances_launched = False,
      request_instance = [], request_instances = [], request_server_info = [],
      waiting_pd_request_ids = {}, pd_wait_events = [], num_instance_info_updates = 0,
      v1_migrating_requests = {}, v1_migration_epochs = [], v1_migration_retries = [],
      v1_request_last_migration_time = [], state_api_available = True, last_timeout_instance_id = None,
      mg_tasks = [], mg_effects = []\<rparr>)"

text \<open>
  Connecting to instances that already run: the named actors and what each answers when
  asked for its arguments. An actor that does not answer is left out.
\<close>

definition connect_to_instances :: "Manager \<Rightarrow> (string \<times> InstanceType res) list \<Rightarrow> Manager" where
  "connect_to_instances m actors =
    (let instance_actors = filter (\<lambda>(name, _). startswith name ''instance_'') actors;
         asked = filter (\<lambda>(name, _). \<not> dmem (drop (length ''instance_'') name) (mg_instances m)) instance_actors;
         answered = concat (map (\<lambda>(name, reply). case reply of
             Inl _ \<Rightarrow> [] | Inr t \<Rightarrow> [(drop (length ''instance_'') name, name, t)]) asked)
     in snd (scale_up m answered))"

definition init_Manager ::
  "ManagerArgs \<Rightarrow> (LaunchMode \<times> BackendType) option \<Rightarrow> bool \<Rightarrow> string option \<Rightarrow> (string \<times> InstanceType res) list \<Rightarrow>
    Manager res" where
  "init_Manager a launch_args v1_backend_available stored_offset actors =
    res_bind (init_GlobalScheduler (create_global_scheduler_config a (ma_is_group_kind_migration_backend a = Some True)))
      (\<lambda>gs. res_bind (init_Launcher a stored_offset)
      (\<lambda>l. Inr (connect_to_instances (base_Manager a launch_args v1_backend_available gs l) actors)))"

subsection \<open>Polling\<close>

text \<open>The callback of one report request.\<close>

definition instance_info_callback ::
  "Manager \<Rightarrow> string \<Rightarrow> InstanceInfo option res \<Rightarrow> InstanceInfo list \<times> Manager" where
  "instance_info_callback m x reply =
    (case reply of
       Inl e \<Rightarrow> ([], scale_down1 m x)
     | Inr None \<Rightarrow> ([], m)
     | Inr (Some i) \<Rightarrow> ([i], m\<lparr>global_scheduler := gs_update_instance_infos (global_scheduler m) [i]\<rparr>))"

fun handle_replies :: "Manager \<Rightarrow> (string \<times> InstanceInfo option res) list \<Rightarrow> InstanceInfo list \<times> Manager" where
  "handle_replies m [] = ([], m)"
| "handle_replies m ((x, reply) # rest) =
    (let (infos, m) = instance_info_callback m x reply; (more, m) = handle_replies m rest in (infos @ more, m))"

definition push_migrations :: "Manager \<Rightarrow> Manager" where
  "push_migrations m =
    m\<lparr>mg_tasks := mg_tasks m @ (if mg_enable_pd_disagg m
        then [Migrate PREFILL_2_DECODING, Migrate DECODING_2_DECODING] else [Migrate PM_NO_CONSTRAINTS])\<rparr>"

definition push_migrations_v1 :: "Manager \<Rightarrow> Manager" where
  "push_migrations_v1 m =
    m\<lparr>mg_tasks := mg_tasks m @ (if mg_enable_pd_disagg m
        then [MigrateV1 PREFILL_2_DECODING, MigrateV1 DECODING_2_DECODING] else [MigrateV1 PM_NO_CONSTRAINTS])\<rparr>"

text \<open>The rows written to the instance log; a report of an unknown instance raises \<open>KeyError\<close>.\<close>

fun log_instance_infos_to_csv :: "Manager \<Rightarrow> InstanceInfo list \<Rightarrow> InstanceInfo list \<times> unit res \<times> Manager" where
  "log_instance_infos_to_csv m [] = ([], Inr (), m)"
| "log_instance_infos_to_csv m (i # infos) =
    (let x = instance_id i; usage = gpu_cache_usage i;
         write = (\<lambda>_. case log_instance_infos_to_csv
             (m\<lparr>instance_last_logged_empty := dset x (usage = 0) (instance_last_logged_empty m)\<rparr>) infos of
           (rows, r, m) \<Rightarrow> (i # rows, r, m))
     in if usage > 0 then write ()
        else if usage = 0 then
          (case dget (instance_last_logged_empty m) x of
             None \<Rightarrow> ([], Inl KeyError, m)
           | Some was_empty \<Rightarrow> if \<not> was_empty then write () else log_instance_infos_to_csv m infos)
        else log_instance_infos_to_csv m infos)"

text \<open>One iteration of the polling loop, with the replies in the order they arrive.\<close>

definition poll_round :: "Manager \<Rightarrow> (string \<times> InstanceInfo option res) list \<Rightarrow> InstanceInfo list \<times> Manager" where
  "poll_round m replies =
    (let (infos, m) = handle_replies m (filter (\<lambda>(x, _). dmem x (mg_instances m)) replies);
         m = m\<lparr>num_instance_info_updates := num_instance_info_updates m + 1\<rparr>
     in if num_instance_info_updates m \<noteq> 0 \<and> mg_pair_migration_frequency m = 0 then ([], m)
        else
          let due = (num_instance_info_updates m \<noteq> 0
                     \<and> num_instance_info_updates m mod mg_pair_migration_frequency m = 0);
              m = (if due \<and> mg_enable_migration m then push_migrations m else m);
              m = (if due \<and> enable_v1_migration m then push_migrations_v1 m else m)
          in if mg_log_instance_info m
             then (case log_instance_infos_to_csv m infos of (rows, _, m) \<Rightarrow> (rows, m))
             else ([], m))"

definition manager_is_ready :: "bool res list \<Rightarrow> bool" where
  "manager_is_ready replies = list_all (\<lambda>r. case r of Inl _ \<Rightarrow> True | Inr b \<Rightarrow> b) replies"

fun get_all_instances_info :: "InstanceInfo option res list \<Rightarrow> InstanceInfo option list res" where
  "get_all_instances_info [] = Inr []"
| "get_all_instances_info (Inr i # rest) = res_bind (get_all_instances_info rest) (\<lambda>is. Inr (i # is))"
| "get_all_instances_info (Inl e # rest) =
    (if e \<in> {RayActorError, KeyError} then get_all_instances_info rest else Inl e)"

subsection \<open>Starting instances\<close>

definition kv_port_stride :: "int option \<Rightarrow> int" where
  "kv_port_stride tensor_parallel_size =
    max (case tensor_parallel_size of None \<Rightarrow> 1 | Some n \<Rightarrow> if n = 0 then 1 else n) 1"

definition base_kv_port :: "environ \<Rightarrow> int res" where
  "base_kv_port env = py_int (case dget env ''LLUMNIX_KV_PORT'' of
     None \<Rightarrow> ''14579'' | Some v \<Rightarrow> if v = [] then ''14579'' else v)"

definition restore_kv_port :: "string option \<Rightarrow> environ \<Rightarrow> environ" where
  "restore_kv_port original env =
    (case original of None \<Rightarrow> dpop ''LLUMNIX_KV_PORT'' env | Some v \<Rightarrow> dset ''LLUMNIX_KV_PORT'' v env)"

text \<open>
  The start loop. Each entry has the new id, the outcome of creating the placement group
  and of creating the actors; a started actor is listed with the port its environment has.
\<close>

fun init_instances_loop ::
  "int \<Rightarrow> int \<Rightarrow> nat \<Rightarrow> (string \<times> unit res \<times> unit res) list \<Rightarrow> environ \<Rightarrow> Manager \<Rightarrow>
    (string \<times> int) list res \<times> environ \<times> Manager" where
  "init_instances_loop base stride k [] env m = (Inr [], env, m)"
| "init_instances_loop base stride k ((x, pg, actor) # rest) env m =
    (let port = base + int k * stride;
         env = dset ''LLUMNIX_KV_PORT'' (int_str port) env
     in case pg of
          Inl e \<Rightarrow> (Inl e, env, m)
        | Inr _ \<Rightarrow>
           let m = m\<lparr>pending_instance_ids := insert x (pending_instance_ids m)\<rparr> in
           case actor of
             Inl e \<Rightarrow> (Inl e, env, m)
           | Inr _ \<Rightarrow>
              (case init_instances_loop base stride (Suc k) rest env m of
                 (r, env, m) \<Rightarrow> (res_bind r (\<lambda>started. Inr ((x, port) # started)), env, m)))"

definition init_instances ::
  "Manager \<Rightarrow> environ \<Rightarrow> int option \<Rightarrow> (string \<times> unit res \<times> unit res) list \<Rightarrow>
    (string \<times> int) list res \<times> environ \<times> Manager" where
  "init_instances m env tp outcomes =
    (case base_kv_port env of
       Inl e \<Rightarrow> (Inl e, env, m)
     | Inr base \<Rightarrow>
        (case init_instances_loop base (kv_port_stride tp) 0 (take (nat (mg_initial_instances m)) outcomes) env m of
           (Inl e, env', m) \<Rightarrow> (Inl e, env', m)
         | (Inr started, env', m) \<Rightarrow> (Inr started, restore_kv_port (dget env ''LLUMNIX_KV_PORT'') env', m)))"

text \<open>A started instance that has become ready joins.\<close>

definition instance_ready_scale_up :: "Manager \<Rightarrow> string \<Rightarrow> string \<Rightarrow> InstanceType \<Rightarrow> Manager" where
  "instance_ready_scale_up m x handle t = snd (scale_up m [(x, handle, t)])"

fun init_global_loop ::
  "int \<Rightarrow> int \<Rightarrow> nat \<Rightarrow> EntrypointsArgs \<Rightarrow> InstanceArgs \<Rightarrow> (string \<times> unit res \<times> unit res \<times> unit res) list \<Rightarrow>
    environ \<Rightarrow> Manager \<Rightarrow> (string \<times> int \<times> InstanceType) list res \<times> environ \<times> Manager" where
  "init_global_loop base stride k ea ia [] env m = (Inr [], env, m)"
| "init_global_loop base stride k ea ia ((x, pg, inst, server) # rest) env m =
    (let port = base + int k * stride;
         env = dset ''LLUMNIX_KV_PORT'' (int_str port) env
     in case pg of
          Inl e \<Rightarrow> (Inl e, env, m)
        | Inr _ \<Rightarrow>
           let m = m\<lparr>pending_instance_ids := insert x (pending_instance_ids m)\<rparr> in
           case init_server_and_instance (mg_launcher m) (global_scheduler m) ea ia inst server of
             (Inl e, l) \<Rightarrow> (Inl e, env, m\<lparr>mg_launcher := l\<rparr>)
           | (Inr (t, _, _), l) \<Rightarrow>
              (case init_global_loop base stride (Suc k) ea ia rest env (m\<lparr>mg_launcher := l\<rparr>) of
                 (r, env, m) \<Rightarrow> (res_bind r (\<lambda>started. Inr ((x, port, t) # started)), env, m)))"

definition init_global_instances ::
  "Manager \<Rightarrow> environ \<Rightarrow> int option \<Rightarrow> EntrypointsArgs \<Rightarrow> InstanceArgs \<Rightarrow>
    (string \<times> unit res \<times> unit res \<times> unit res) list \<Rightarrow> string list res \<times> environ \<times> Manager" where
  "init_global_instances m env tp ea ia outcomes =
    (if global_initial_instances_launched m then (Inr (dkeys (mg_instances m)), env, m)
     else if launch_mode m \<noteq> Some GLOBAL
       then (Inl (RuntimeError ''init_global_instances is only valid for global launch''), env, m)
     else
       let m = m\<lparr>global_initial_instances_launched := True\<rparr> in
       case base_kv_port env of
         Inl e \<Rightarrow> (Inl e, env, m)
       | Inr base \<Rightarrow>
          (case init_global_loop base (kv_port_stride tp) 0 ea ia (take (nat (mg_initial_instances m)) outcomes) env m of
             (Inl e, env', m) \<Rightarrow> (Inl e, env', m)
           | (Inr started, env', m) \<Rightarrow>
              (Inr (map fst started), restore_kv_port (dget env ''LLUMNIX_KV_PORT'') env', m)))"

subsection \<open>Automatic scale-up\<close>

definition ServerUnavailable :: py_error where
  "ServerUnavailable = OtherError ''ServerUnavailable''"

definition disable_state_api_reconciliation :: "Manager \<Rightarrow> Manager" where
  "disable_state_api_reconciliation m = m\<lparr>state_api_available := False\<rparr>"

text \<open>
  What one iteration meets: whether the group of the last timeout still exists, the names of
  the pending groups and the number of live ones, the new id, whether a new group can be
  requested, whether it becomes ready in time, and whether the two actors can be created.
\<close>

record scale_env =
  se_last_pg_exists :: "bool res"
  se_groups :: "(string list \<times> nat) res"
  se_new_id :: string
  se_new_pg :: "unit res"
  se_ready :: bool
  se_instance :: "unit res"
  se_server :: "unit res"

datatype scale_outcome = Failed | Capped | TimedOut string | Deployed string InstanceType

text \<open>The group to resume: the one that timed out, or without the state API the first pending one.\<close>

definition resume_group :: "Manager \<Rightarrow> scale_env \<Rightarrow> (string option \<times> Manager) res" where
  "resume_group m e =
    (let found = (if state_api_available m then
           (case last_timeout_instance_id m of
              None \<Rightarrow> Inr (None, m)
            | Some x \<Rightarrow>
               (case se_last_pg_exists e of
                  Inl err \<Rightarrow>
                    if err = ServerUnavailable
                    then Inr (None, (disable_state_api_reconciliation m)\<lparr>last_timeout_instance_id := None\<rparr>)
                    else Inl err
                | Inr exists \<Rightarrow> Inr (if exists then Some x else None, m\<lparr>last_timeout_instance_id := None\<rparr>)))
         else Inr (None, m))
     in res_bind found (\<lambda>(new, m).
          if \<not> state_api_available m \<and> pending_placement_groups m \<noteq> []
          then Inr (Some (fst (hd (pending_placement_groups m))), m) else Inr (new, m)))"

definition group_states :: "Manager \<Rightarrow> scale_env \<Rightarrow> (string list \<times> nat \<times> Manager) res" where
  "group_states m e =
    (if state_api_available m then
       (case se_groups e of
          Inl err \<Rightarrow> if err = ServerUnavailable then Inr ([], 0, disable_state_api_reconciliation m) else Inl err
        | Inr (names, alive) \<Rightarrow> Inr (names, alive, m))
     else Inr ([], 0, m))"

fun drop_stale_groups :: "Manager \<Rightarrow> string option \<Rightarrow> string list \<Rightarrow> Manager" where
  "drop_stale_groups m new [] = m"
| "drop_stale_groups m new (name # names) =
    drop_stale_groups (if new = Some (id_of_name name) then m else scale_down1 m (id_of_name name)) new names"

definition deploy_group ::
  "Manager \<Rightarrow> EntrypointsArgs \<Rightarrow> InstanceArgs \<Rightarrow> scale_env \<Rightarrow> string \<Rightarrow> scale_outcome \<times> Manager" where
  "deploy_group m ea ia e x =
    (if \<not> se_ready e then (TimedOut x, m\<lparr>last_timeout_instance_id := Some x\<rparr>)
     else case init_server_and_instance (mg_launcher m) (global_scheduler m) ea ia (se_instance e) (se_server e) of
         (Inl _, l) \<Rightarrow> (Failed, m\<lparr>mg_launcher := l\<rparr>)
       | (Inr (t, _, _), l) \<Rightarrow> (Deployed x t, m\<lparr>mg_launcher := l\<rparr>))"

definition auto_scale_up_step ::
  "Manager \<Rightarrow> EntrypointsArgs \<Rightarrow> InstanceArgs \<Rightarrow> scale_env \<Rightarrow> scale_outcome \<times> Manager" where
  "auto_scale_up_step m ea ia e =
    (case resume_group m e of
       Inl _ \<Rightarrow> (Failed, m)
     | Inr (new, m) \<Rightarrow>
        (case group_states m e of
           Inl _ \<Rightarrow> (Failed, m)
         | Inr (pending_names, alive, m) \<Rightarrow>
            let m = drop_stale_groups m new pending_names in
            if mg_max_instances m \<noteq> - 1
               \<and> max (int alive) (int (length (mg_instances m)) + int (card (pending_instance_ids m))) \<ge> mg_max_instances m
            then (Capped, m)
            else case new of
                Some x \<Rightarrow> deploy_group m ea ia e x
              | None \<Rightarrow>
                 (case se_new_pg e of
                    Inl _ \<Rightarrow> (Failed, m)
                  | Inr _ \<Rightarrow>
                     let x = se_new_id e;
                         m = m\<lparr>pending_instance_ids := insert x (pending_instance_ids m),
                               pending_placement_groups :=
                                 dset x (get_placement_group_name x) (pending_placement_groups m)\<rparr>
                     in deploy_group m ea ia e x)))"

subsection \<open>Deployment checks\<close>

text \<open>The ids behind the names of live groups, servers and instances.\<close>

definition get_cluster_deployment_states ::
  "string list \<Rightarrow> string list \<Rightarrow> string list \<times> string list \<times> string list" where
  "get_cluster_deployment_states created_pg_names alive_actor_names =
    (remdups (map id_of_name created_pg_names),
     remdups (map id_of_name (filter (\<lambda>n. startswith n ''server_'') alive_actor_names)),
     remdups (map id_of_name (filter (\<lambda>n. \<not> startswith n ''server_'' \<and> startswith n ''instance_'') alive_actor_names)))"

definition get_instance_deployment_states :: "string list \<Rightarrow> string list \<Rightarrow> string list \<Rightarrow> bool \<times> bool \<times> bool" where
  "get_instance_deployment_states pg_state server_state instance_state =
    (pg_state = [''CREATED''], server_state = [''ALIVE''], instance_state = [''ALIVE''])"

definition watch_instance_deployment_states :: "Manager \<Rightarrow> string \<Rightarrow> bool \<times> bool \<times> bool \<Rightarrow> Manager" where
  "watch_instance_deployment_states m x st =
    (case st of (pg_created, server_alive, instance_alive) \<Rightarrow>
       if pg_created \<and> (\<not> server_alive \<or> \<not> instance_alive) then scale_down1 m x else m)"

text \<open>One iteration: \<open>later\<close> are the states read after the watch interval.\<close>

definition check_deployment_states ::
  "Manager \<Rightarrow> string list \<times> string list \<times> string list \<Rightarrow> (string \<Rightarrow> bool \<times> bool \<times> bool) \<Rightarrow> Manager" where
  "check_deployment_states m cur later =
    (case cur of (pgs, servers, insts) \<Rightarrow>
       if \<not> state_api_available m then m
       else if length pgs < max (length servers) (length insts) then m
       else foldl (\<lambda>m x. watch_instance_deployment_states m x (later x)) m
              (filter (\<lambda>x. x \<notin> set servers \<or> x \<notin> set insts) pgs))"

text \<open>\<open>pick\<close> is \<open>random.choice\<close> on the role's members.\<close>

definition check_pd_deployment_states :: "Manager \<Rightarrow> (string set \<Rightarrow> string) \<Rightarrow> string \<times> Manager" where
  "check_pd_deployment_states m pick =
    (let role_sets = instance_type_id_set (scaling_scheduler (global_scheduler m));
         prefill = role_sets PREFILL; decode = role_sets DECODE;
         x = (if prefill = {} \<and> decode \<noteq> {} then pick decode else []);
         x = (if decode = {} \<and> prefill \<noteq> {} then pick prefill else x)
     in (x, if x = [] then m else scale_down1 m x))"

text \<open>
  One iteration of the prefill/decode check: the pending groups before, whether a group is
  being rescheduled and the pending groups read again.
\<close>

definition check_pd_round ::
  "Manager \<Rightarrow> (string set \<Rightarrow> string) \<Rightarrow> string list option \<Rightarrow> string list \<Rightarrow> bool \<Rightarrow> string list \<Rightarrow> string list \<times> Manager" where
  "check_pd_round m pick previous pending rescheduling again =
    (if (case previous of None \<Rightarrow> False | Some names \<Rightarrow> names \<noteq> []) \<and> \<not> rescheduling
     then (again, if set (the previous) - set again = {} then snd (check_pd_deployment_states m pick) else m)
     else (pending, m))"

subsection \<open>Rebuilding the migration backend\<close>

text \<open>
  A round of the rebuild: the instances whose call fails with \<open>RayActorError\<close> in the rebuild
  and in the warm-up, and what other tasks of the manager do while each is awaited.
\<close>

record rebuild_round =
  rr_dead :: "string set"
  rr_others :: "Manager \<Rightarrow> Manager"
  rr_warm_dead :: "string set"
  rr_warm_others :: "Manager \<Rightarrow> Manager"

definition run_task ::
  "Manager \<Rightarrow> string list \<Rightarrow> (Manager \<Rightarrow> Manager) \<Rightarrow> string set \<Rightarrow> string list res \<times> Manager" where
  "run_task m alive others dead =
    (if \<exists>x \<in> set alive. \<not> dmem x (mg_instances m) then (Inl KeyError, m)
     else
       let m = others m; dead_instances = filter (\<lambda>x. x \<in> dead) alive in
       if dead_instances \<noteq> [] then
         (Inr dead_instances, (let m = snd (scale_down m dead_instances False)
            in m\<lparr>mg_effects := mg_effects m @ [ClearGloo]\<rparr>))
       else (Inr [], m))"

fun rebuild_loop :: "rebuild_round list \<Rightarrow> string list \<Rightarrow> int \<Rightarrow> Manager \<Rightarrow> string list option res \<times> Manager" where
  "rebuild_loop rounds alive pending_task m =
    (if alive = [] \<or> pending_rebuild_migration_instances m \<le> 0 then (Inr (Some alive), m)
     else case rounds of
         [] \<Rightarrow> (Inr None, m)
       | r # rest \<Rightarrow>
          (case run_task m alive (rr_others r) (rr_dead r) of
             (Inl e, m) \<Rightarrow> (Inl e, m)
           | (Inr dead, m) \<Rightarrow>
              (case (if dead = [] \<and> pending_rebuild_migration_instances m = pending_task
                     then run_task m alive (rr_warm_others r) (rr_warm_dead r) else (Inr dead, m)) of
                 (Inl e, m) \<Rightarrow> (Inl e, m)
               | (Inr dead, m) \<Rightarrow>
                  let m = (if dead = [] then m\<lparr>pending_rebuild_migration_instances :=
                             pending_rebuild_migration_instances m - pending_task\<rparr> else m)
                  in rebuild_loop rest (sort (filter (\<lambda>x. x \<notin> set dead) (dkeys (mg_instances m))))
                       (pending_rebuild_migration_instances m) m)))"

declare rebuild_loop.simps [simp del]

text \<open>\<open>Inr None\<close>: the task is still running when the given rounds are over.\<close>

definition rebuild_migration_backend :: "Manager \<Rightarrow> rebuild_round list \<Rightarrow> string list option res \<times> Manager" where
  "rebuild_migration_backend m rounds =
    (if \<exists>b \<in> set (dvalues (instance_migrating m)). b then (Inr None, m)
     else
       let origin_config = mg_enable_migration m;
           m = m\<lparr>mg_enable_migration := False, mg_effects := mg_effects m @ [ClearGloo]\<rparr>
       in case rebuild_loop rounds (sort (dkeys (mg_instances m))) (pending_rebuild_migration_instances m) m of
            (Inl e, m) \<Rightarrow> (Inl e, m)
          | (Inr None, m) \<Rightarrow> (Inr None, m)
          | (Inr (Some alive), m) \<Rightarrow>
             let m = (if alive = [] then m\<lparr>pending_rebuild_migration_instances := 0\<rparr> else m) in
             case ms_allow_only (migration_scheduler (global_scheduler m)) (set alive) of
               Inl e \<Rightarrow> (Inl e, m)
             | Inr ms \<Rightarrow> (Inr (Some alive),
                 m\<lparr>global_scheduler := (global_scheduler m)\<lparr>migration_scheduler := ms\<rparr>,
                   mg_enable_migration := origin_config\<rparr>))"

end
