(* ===== verification/Manager_Membership.thy ===== *)
theory Manager_Membership
  imports Manager_State
begin

text \<open>
  What the manager's membership operations keep: the manager, the global scheduler and the
  migration flags agree on the registered instances after every operation. On top of it:
  the rebuild of the migration backend ends and restores migration, automatic scaling
  stays below the configured maximum, and the ports of started instances do not collide.
\<close>

subsection \<open>Membership\<close>

definition members_ok :: "Manager \<Rightarrow> bool" where
  "members_ok m \<longleftrightarrow> distinct (dkeys (mg_instances m))
    \<and> fst ` set (mg_instances m) \<subseteq> fst ` set (instance_migrating m)
    \<and> (mg_log_instance_info m \<longrightarrow> fst ` set (mg_instances m) \<subseteq> fst ` set (instance_last_logged_empty m))
    \<and> fst ` set (pending_placement_groups m) \<subseteq> pending_instance_ids m
    \<and> finite (pending_instance_ids m)"

definition mg_inv :: "Manager \<Rightarrow> bool" where
  "mg_inv m \<longleftrightarrow> gs_inv (global_scheduler m) \<and> members_ok m
    \<and> instance_id_set (global_scheduler m) = fst ` set (mg_instances m)
    \<and> mg_num_instances m = length (mg_instances m)"

lemma gs_scale_up_ids: "instance_id_set (gs_scale_up s xs) = instance_id_set s \<union> fst ` set xs"
proof (induction s xs rule: gs_scale_up.induct)
  case (2 s x t rest)
  then show ?case by (auto simp: gs_add_instance_def Let_def)
qed simp

lemma gs_scale_down_ids: "instance_id_set (gs_scale_down s xs) = instance_id_set s - set xs"
proof (induction s xs rule: gs_scale_down.induct)
  case (2 s x rest)
  then show ?case by (auto simp: gs_remove_instance_def Let_def)
qed simp

lemma register_instance_members:
  assumes "members_ok (snd s)"
  shows "members_ok (snd (register_instance s e))
    \<and> fst ` set (mg_instances (snd (register_instance s e))) = insert (fst e) (fst ` set (mg_instances (snd s)))
    \<and> global_scheduler (snd (register_instance s e)) = global_scheduler (snd s)"
  using assms by (cases s; cases e) (auto simp: members_ok_def dkeys_dset dkeys_dpop distinct_dset Let_def)

lemma register_members:
  "members_ok (snd s) \<Longrightarrow> members_ok (snd (foldl register_instance s es))
    \<and> fst ` set (mg_instances (snd (foldl register_instance s es))) = fst ` set (mg_instances (snd s)) \<union> fst ` set es
    \<and> global_scheduler (snd (foldl register_instance s es)) = global_scheduler (snd s)"
proof (induction es arbitrary: s)
  case (Cons e es)
  note one = register_instance_members[OF Cons.prems, of e]
  show ?case using Cons.IH[of "register_instance s e"] one by auto
qed simp

lemma deregister_instance_members:
  assumes "members_ok (snd s)"
  shows "members_ok (snd (deregister_instance s x))
    \<and> fst ` set (mg_instances (snd (deregister_instance s x))) = fst ` set (mg_instances (snd s)) - {x}
    \<and> global_scheduler (snd (deregister_instance s x)) = global_scheduler (snd s)"
  using assms by (cases s) (auto simp: members_ok_def dkeys_dpop distinct_dpop Let_def)

lemma deregister_members:
  "members_ok (snd s) \<Longrightarrow> members_ok (snd (foldl deregister_instance s xs))
    \<and> fst ` set (mg_instances (snd (foldl deregister_instance s xs))) = fst ` set (mg_instances (snd s)) - set xs
    \<and> global_scheduler (snd (foldl deregister_instance s xs)) = global_scheduler (snd s)"
proof (induction xs arbitrary: s)
  case (Cons x xs)
  note one = deregister_instance_members[OF Cons.prems, of x]
  show ?case using Cons.IH[of "deregister_instance s x"] one by auto
qed simp

text \<open>Changes of the fields membership does not depend on.\<close>

lemma mg_inv_cong:
  assumes "mg_inv m" and "global_scheduler m' = gs" and "gs_inv gs"
    and "instance_id_set gs = instance_id_set (global_scheduler m)"
    and "mg_instances m' = mg_instances m" and "mg_num_instances m' = mg_num_instances m"
    and "fst ` set (instance_migrating m) \<subseteq> fst ` set (instance_migrating m')"
    and "mg_log_instance_info m' = mg_log_instance_info m"
    and "fst ` set (instance_last_logged_empty m) \<subseteq> fst ` set (instance_last_logged_empty m')"
    and "fst ` set (pending_placement_groups m') \<subseteq> pending_instance_ids m'" and "finite (pending_instance_ids m')"
  shows "mg_inv m'"
  using assms by (simp add: mg_inv_def members_ok_def) (meson order_trans)

lemma scale_up_inv:
  assumes "mg_inv m"
  shows "mg_inv (snd (scale_up m es))"
    and "fst ` set (mg_instances (snd (scale_up m es))) = fst ` set (mg_instances m) \<union> fst ` set es"
proof -
  obtain u m1 where r: "register_instances m es = (u, m1)" by (cases "register_instances m es")
  have ok: "members_ok m1" "fst ` set (mg_instances m1) = fst ` set (mg_instances m) \<union> fst ` set es"
    "global_scheduler m1 = global_scheduler m"
    using register_members[of "(False, m)" es] assms r by (simp_all add: mg_inv_def register_instances_def)
  have ids: "fst ` set (map (\<lambda>(x, _, t). (x, t)) es) = fst ` set es" by force
  show "fst ` set (mg_instances (snd (scale_up m es))) = fst ` set (mg_instances m) \<union> fst ` set es"
    using ok(2) by (simp add: scale_up_def r Let_def)
  show "mg_inv (snd (scale_up m es))"
    using assms ok ids gs_scale_up_inv[of "global_scheduler m"]
    by (simp add: mg_inv_def members_ok_def scale_up_def r Let_def gs_scale_up_ids)
qed

lemma scale_down_inv:
  assumes "mg_inv m"
  shows "mg_inv (snd (scale_down m xs b))"
    and "fst ` set (mg_instances (snd (scale_down m xs b))) = fst ` set (mg_instances m) - set xs"
proof -
  obtain u m1 where r: "deregister_instances m xs = (u, m1)" by (cases "deregister_instances m xs")
  have ok: "members_ok m1" "fst ` set (mg_instances m1) = fst ` set (mg_instances m) - set xs"
    "global_scheduler m1 = global_scheduler m"
    using deregister_members[of "(False, m)" xs] assms r by (simp_all add: mg_inv_def deregister_instances_def)
  have none: "mg_instances m1 = [] \<longrightarrow> fst ` set (mg_instances m) \<subseteq> set xs" using ok(2) by auto
  show "fst ` set (mg_instances (snd (scale_down m xs b))) = fst ` set (mg_instances m) - set xs"
    using ok(2) by (auto simp add: scale_down_def r Let_def)
  show "mg_inv (snd (scale_down m xs b))"
    using assms ok gs_scale_down_inv[of "global_scheduler m" xs] none
    by (simp add: mg_inv_def members_ok_def scale_down_def r Let_def gs_scale_down_ids)
qed

lemma mg_inv_updates [simp]:
  "mg_inv (m\<lparr>mg_tasks := ts\<rparr>) = mg_inv m"
  "mg_inv (m\<lparr>mg_effects := es\<rparr>) = mg_inv m"
  "mg_inv (m\<lparr>num_instance_info_updates := n\<rparr>) = mg_inv m"
  "mg_inv (m\<lparr>last_timeout_instance_id := x\<rparr>) = mg_inv m"
  "mg_inv (m\<lparr>state_api_available := b\<rparr>) = mg_inv m"
  "mg_inv (m\<lparr>mg_launcher := l\<rparr>) = mg_inv m"
  "mg_inv (m\<lparr>mg_enable_migration := b\<rparr>) = mg_inv m"
  "mg_inv (m\<lparr>pending_rebuild_migration_instances := n\<rparr>) = mg_inv m"
  "mg_inv (m\<lparr>request_instance := d\<rparr>) = mg_inv m"
  "mg_inv (m\<lparr>request_instances := d2\<rparr>) = mg_inv m"
  "mg_inv (m\<lparr>request_server_info := d3\<rparr>) = mg_inv m"
  "mg_inv (m\<lparr>waiting_pd_request_ids := s\<rparr>) = mg_inv m"
  "mg_inv (m\<lparr>pd_wait_events := d4\<rparr>) = mg_inv m"
  "mg_inv (m\<lparr>v1_migrating_requests := s\<rparr>) = mg_inv m"
  "mg_inv (m\<lparr>v1_migration_epochs := d5\<rparr>) = mg_inv m"
  "mg_inv (m\<lparr>v1_migration_retries := d6\<rparr>) = mg_inv m"
  "mg_inv (m\<lparr>v1_request_last_migration_time := d7\<rparr>) = mg_inv m"
  "mg_inv (m\<lparr>global_initial_instances_launched := b\<rparr>) = mg_inv m"
  by (simp_all add: mg_inv_def members_ok_def)

lemma mg_inv_gs:
  "mg_inv m \<Longrightarrow> gs_inv gs \<Longrightarrow> instance_id_set gs = instance_id_set (global_scheduler m) \<Longrightarrow>
    mg_inv (m\<lparr>global_scheduler := gs\<rparr>)"
  by (simp add: mg_inv_def members_ok_def)

lemma mg_inv_migrating: "mg_inv m \<Longrightarrow> mg_inv (m\<lparr>instance_migrating := dset x b (instance_migrating m)\<rparr>)"
  by (auto simp: mg_inv_def members_ok_def dkeys_dset)

lemma mg_inv_logged: "mg_inv m \<Longrightarrow> mg_inv (m\<lparr>instance_last_logged_empty := dset x b (instance_last_logged_empty m)\<rparr>)"
  by (auto simp: mg_inv_def members_ok_def dkeys_dset)

lemma mg_inv_pending:
  "mg_inv m \<Longrightarrow> mg_inv (m\<lparr>pending_instance_ids := insert x (pending_instance_ids m)\<rparr>)"
  "mg_inv m \<Longrightarrow> mg_inv (m\<lparr>pending_instance_ids := insert x (pending_instance_ids m),
     pending_placement_groups := dset x h (pending_placement_groups m)\<rparr>)"
  by (auto simp: mg_inv_def members_ok_def dkeys_dset)

lemma gs_update_ids: "instance_id_set (gs_update_instance_infos s infos) = instance_id_set s"
  by (induction s infos rule: gs_update_instance_infos.induct) auto

lemma mg_inv_gsD: "mg_inv m \<Longrightarrow> gs_inv (global_scheduler m)"
  by (simp add: mg_inv_def)

lemma callback_inv: "mg_inv m \<Longrightarrow> mg_inv (snd (instance_info_callback m x r))"
  using scale_down_inv(1)[of m "[x]" True] mg_inv_gs[OF _ gs_update_inv gs_update_ids] mg_inv_gsD
  by (auto simp: instance_info_callback_def simp del: gs_update_instance_infos.simps split: sum.split option.split)

lemma handle_replies_inv: "mg_inv m \<Longrightarrow> mg_inv (snd (handle_replies m rs))"
proof (induction m rs rule: handle_replies.induct)
  case (2 m x reply rest)
  obtain infos m1 where 1: "instance_info_callback m x reply = (infos, m1)"
    by (cases "instance_info_callback m x reply")
  obtain more m2 where 2: "handle_replies m1 rest = (more, m2)" by (cases "handle_replies m1 rest")
  show ?case using "2.IH"[OF 1[symmetric] refl] callback_inv[OF "2.prems", of x reply] 1 2 by simp
qed simp

lemma csv_inv: "mg_inv m \<Longrightarrow> mg_inv (snd (snd (log_instance_infos_to_csv m infos)))"
proof (induction infos arbitrary: m)
  case (Cons i infos)
  have "mg_inv m'" if "log_instance_infos_to_csv
      (m\<lparr>instance_last_logged_empty := dset (instance_id i) b (instance_last_logged_empty m)\<rparr>) infos = (rows, r, m')"
    for b rows r m'
    using Cons.IH[OF mg_inv_logged[OF Cons.prems], of "instance_id i" b] that by simp
  with Cons show ?case by (auto simp: Let_def split: option.split prod.split)
qed simp

lemma poll_round_inv:
  assumes "mg_inv m"
  shows "mg_inv (snd (poll_round m replies))"
proof -
  obtain infos m1 where 1: "handle_replies m (filter (\<lambda>(x, _). dmem x (mg_instances m)) replies) = (infos, m1)"
    by (cases "handle_replies m (filter (\<lambda>(x, _). dmem x (mg_instances m)) replies)")
  then have m1: "mg_inv m1" using handle_replies_inv[OF assms] by (metis snd_conv)
  have csv: "mg_inv m2 \<Longrightarrow> mg_inv (snd (case log_instance_infos_to_csv m2 infos of (rows, _, m) \<Rightarrow> (rows, m)))" for m2
    using csv_inv[of m2 infos] by (cases "log_instance_infos_to_csv m2 infos") auto
  show ?thesis
    using m1 by (simp add: poll_round_def 1 Let_def push_migrations_def push_migrations_v1_def csv)
qed

lemma init_instances_loop_inv:
  "mg_inv m \<Longrightarrow> mg_inv (snd (snd (init_instances_loop base stride k os env m)))"
proof (induction os arbitrary: k env m)
  case (Cons o1 os)
  obtain x pg actor where o1: "o1 = (x, pg, actor)" by (cases o1)
  then show ?case
    using Cons.IH[OF mg_inv_pending(1)[OF Cons.prems, of x]] mg_inv_pending(1)[OF Cons.prems, of x] Cons.prems
    by (auto simp: Let_def split: sum.split prod.split) (metis snd_conv)
qed simp

lemma init_global_loop_inv:
  "mg_inv m \<Longrightarrow> mg_inv (snd (snd (init_global_loop base stride k ea ia os env m)))"
proof (induction os arbitrary: k env m)
  case (Cons o1 os)
  obtain x pg inst srv where o1: "o1 = (x, pg, inst, srv)" by (cases o1)
  let ?m = "m\<lparr>pending_instance_ids := insert x (pending_instance_ids m)\<rparr>"
  have inv: "mg_inv (?m\<lparr>mg_launcher := l\<rparr>)" for l using mg_inv_pending(1)[OF Cons.prems, of x] by simp
  have "mg_inv m'" if "init_global_loop base stride (Suc k) ea ia os env' (?m\<lparr>mg_launcher := l\<rparr>) = (r, e', m')"
    for l r e' m' env' using Cons.IH[OF inv, of "Suc k" env' l] that by simp
  then show ?case
    using Cons.prems inv by (auto simp: o1 Let_def split: sum.split prod.split)
qed simp

lemma init_instances_inv: "mg_inv m \<Longrightarrow> mg_inv (snd (snd (init_instances m env tp os)))"
  using init_instances_loop_inv[of m]
  by (auto simp: init_instances_def split: sum.split prod.split) (metis snd_conv)+

lemma init_global_instances_inv: "mg_inv m \<Longrightarrow> mg_inv (snd (snd (init_global_instances m env tp ea ia os)))"
proof -
  assume "mg_inv m"
  then have inv: "mg_inv (m\<lparr>global_initial_instances_launched := True\<rparr>)" by simp
  have "mg_inv m'" if "init_global_loop base s 0 ea ia xs env (m\<lparr>global_initial_instances_launched := True\<rparr>) = (r, e', m')"
    for base s xs r e' m' using init_global_loop_inv[OF inv, of base s 0 ea ia xs env] that by simp
  then show ?thesis
    using \<open>mg_inv m\<close> by (auto simp: init_global_instances_def Let_def split: sum.split prod.split)
qed

lemma resume_group_inv: "resume_group m e = Inr (new, m') \<Longrightarrow> mg_inv m \<Longrightarrow> mg_inv m'"
  by (auto simp: resume_group_def disable_state_api_reconciliation_def Let_def res_bind_Inr_iff
      split: if_splits option.splits sum.splits)

lemma group_states_inv: "group_states m e = Inr (ns, k, m') \<Longrightarrow> mg_inv m \<Longrightarrow> mg_inv m'"
  by (auto simp: group_states_def disable_state_api_reconciliation_def split: if_splits sum.splits)

lemma drop_stale_groups_inv: "mg_inv m \<Longrightarrow> mg_inv (drop_stale_groups m new ns)"
  by (induction ns arbitrary: m) (simp_all add: scale_down_inv)

lemma deploy_group_inv: "mg_inv m \<Longrightarrow> mg_inv (snd (deploy_group m ea ia e x))"
  by (simp add: deploy_group_def split: sum.split prod.split)

lemma auto_scale_up_inv:
  assumes "mg_inv m"
  shows "mg_inv (snd (auto_scale_up_step m ea ia e))"
proof (cases "resume_group m e")
  case (Inr r1)
  obtain new m1 where r1: "r1 = (new, m1)" by (cases r1)
  have m1: "mg_inv m1" using resume_group_inv Inr r1 assms by blast
  show ?thesis
  proof (cases "group_states m1 e")
    case (Inr r2)
    obtain ns k m2 where r2: "r2 = (ns, k, m2)" by (cases r2)
    have "mg_inv m2" using group_states_inv Inr r2 m1 by blast
    then have inv: "mg_inv (drop_stale_groups m2 n ns)" for n by (rule drop_stale_groups_inv)
    show ?thesis
      using \<open>resume_group m e = Inr r1\<close> r1 Inr r2 inv
      by (auto simp: auto_scale_up_step_def Let_def deploy_group_inv mg_inv_pending(2) split: option.split sum.split)
  qed (use \<open>resume_group m e = Inr r1\<close> r1 m1 in \<open>simp add: auto_scale_up_step_def\<close>)
qed (use assms in \<open>simp add: auto_scale_up_step_def\<close>)

lemma watch_inv: "mg_inv m \<Longrightarrow> mg_inv (watch_instance_deployment_states m x st)"
  by (simp add: watch_instance_deployment_states_def scale_down_inv split: prod.split)

lemma check_deployment_inv: "mg_inv m \<Longrightarrow> mg_inv (check_deployment_states m cur later)"
proof -
  have "mg_inv m \<Longrightarrow> mg_inv (foldl (\<lambda>m x. watch_instance_deployment_states m x (later x)) m xs)" for xs
    by (induction xs arbitrary: m) (simp_all add: watch_inv)
  then show "mg_inv m \<Longrightarrow> ?thesis" by (simp add: check_deployment_states_def split: prod.split)
qed

lemma check_pd_inv: "mg_inv m \<Longrightarrow> mg_inv (snd (check_pd_deployment_states m pick))"
  by (simp add: check_pd_deployment_states_def Let_def scale_down_inv)

text \<open>The filters of a group-kind backend: the one the rebuild sets.\<close>

definition backend_filters :: "Manager \<Rightarrow> (string, MigrationFilterPolicy) dict" where
  "backend_filters m = registered_filters (migration_filter (migration_scheduler (global_scheduler m)))"

definition gated :: "Manager \<Rightarrow> bool" where
  "gated m \<longleftrightarrow> (\<exists>f g. backend_filters m = [(''migration_backend_init_filter'', CustomFilter f g)])"

lemma gs_scale_down_filter:
  "migration_filter (migration_scheduler (gs_scale_down s xs)) = migration_filter (migration_scheduler s)"
  by (induction s xs rule: gs_scale_down.induct)
    (simp_all add: gs_remove_instance_def ms_remove_instance_def ms_update_instance_infos_def Let_def)

lemma deregister_one_keeps:
  "global_scheduler (snd (deregister_instance s x)) = global_scheduler (snd s)"
  "mg_enable_migration (snd (deregister_instance s x)) = mg_enable_migration (snd s)"
  "mg_max_instances (snd (deregister_instance s x)) = mg_max_instances (snd s)"
  "pending_instance_ids (snd (deregister_instance s x)) = pending_instance_ids (snd s) - {x}"
  "pending_rebuild_migration_instances (snd s) \<le> pending_rebuild_migration_instances (snd (deregister_instance s x))"
  by (cases s; simp add: Let_def)+

lemma deregister_keeps:
  "global_scheduler (snd (foldl deregister_instance s xs)) = global_scheduler (snd s)
   \<and> mg_enable_migration (snd (foldl deregister_instance s xs)) = mg_enable_migration (snd s)
   \<and> mg_max_instances (snd (foldl deregister_instance s xs)) = mg_max_instances (snd s)
   \<and> pending_instance_ids (snd (foldl deregister_instance s xs)) = pending_instance_ids (snd s) - set xs
   \<and> pending_rebuild_migration_instances (snd s) \<le> pending_rebuild_migration_instances (snd (foldl deregister_instance s xs))"
proof (induction xs arbitrary: s)
  case (Cons x xs)
  show ?case
    using Cons.IH[of "deregister_instance s x"] deregister_one_keeps(5)[of s x]
    by (simp add: deregister_one_keeps(1-4) Diff_insert2 flip: set_simps) (auto simp: insert_Diff_if)
qed simp

lemma scale_down_keeps:
  "backend_filters (snd (scale_down m xs b)) = backend_filters m"
  "mg_enable_migration (snd (scale_down m xs b)) = mg_enable_migration m"
  "mg_max_instances (snd (scale_down m xs b)) = mg_max_instances m"
  "pending_instance_ids (snd (scale_down m xs b)) = pending_instance_ids m - set xs"
  "0 \<le> pending_rebuild_migration_instances m \<Longrightarrow> 0 \<le> pending_rebuild_migration_instances (snd (scale_down m xs b))"
proof -
  obtain u m1 where r: "deregister_instances m xs = (u, m1)" by (cases "deregister_instances m xs")
  have k: "global_scheduler m1 = global_scheduler m" "mg_enable_migration m1 = mg_enable_migration m"
    "mg_max_instances m1 = mg_max_instances m" "pending_instance_ids m1 = pending_instance_ids m - set xs"
    "pending_rebuild_migration_instances m \<le> pending_rebuild_migration_instances m1"
    using deregister_keeps[of "(False, m)" xs] r by (simp_all add: deregister_instances_def)
  show "backend_filters (snd (scale_down m xs b)) = backend_filters m"
    by (simp add: scale_down_def backend_filters_def r Let_def k gs_scale_down_filter)
  show "mg_enable_migration (snd (scale_down m xs b)) = mg_enable_migration m"
    "mg_max_instances (snd (scale_down m xs b)) = mg_max_instances m"
    "pending_instance_ids (snd (scale_down m xs b)) = pending_instance_ids m - set xs"
    "0 \<le> pending_rebuild_migration_instances m \<Longrightarrow> 0 \<le> pending_rebuild_migration_instances (snd (scale_down m xs b))"
    using k by (simp_all add: scale_down_def r Let_def)
qed

lemma run_task_quiet:
  assumes "set alive \<subseteq> fst ` set (mg_instances m)"
  shows "run_task m alive id D = (Inr (filter (\<lambda>x. x \<in> D) alive),
    if filter (\<lambda>x. x \<in> D) alive = [] then m
    else (let m = snd (scale_down m (filter (\<lambda>x. x \<in> D) alive) False) in m\<lparr>mg_effects := mg_effects m @ [ClearGloo]\<rparr>))"
  using assms by (auto simp: run_task_def Let_def)

lemma mg_inv_length: "mg_inv m \<Longrightarrow> length (mg_instances m) = card (fst ` set (mg_instances m))"
  by (metis distinct_card length_map list.set_map mg_inv_def members_ok_def)

text \<open>Dropping the dead instances of a round keeps the invariant and makes the cluster smaller.\<close>

lemma drop_dead:
  assumes "mg_inv m" and "0 \<le> pending_rebuild_migration_instances m"
    and "dead \<noteq> []" and "set dead \<subseteq> fst ` set (mg_instances m)"
    and "m' = (let m = snd (scale_down m dead False) in m\<lparr>mg_effects := mg_effects m @ [ClearGloo]\<rparr>)"
  shows "mg_inv m'" and "0 \<le> pending_rebuild_migration_instances m'"
    and "length (mg_instances m') < length (mg_instances m)"
    and "filter (\<lambda>x. x \<notin> set dead) (dkeys (mg_instances m')) = dkeys (mg_instances m')"
    and "backend_filters m' = backend_filters m" and "mg_enable_migration m' = mg_enable_migration m"
proof -
  have keys: "fst ` set (mg_instances m') = fst ` set (mg_instances m) - set dead"
    using assms(5) scale_down_inv(2)[OF assms(1), of dead False] by (simp add: Let_def)
  show inv: "mg_inv m'" using assms(1,5) scale_down_inv(1) by (simp add: Let_def)
  show "0 \<le> pending_rebuild_migration_instances m'" using assms(2,5) scale_down_keeps(5) by (simp add: Let_def)
  obtain x where "x \<in> set dead" using assms(3) by (cases dead) auto
  then have "x \<in> fst ` set (mg_instances m) - fst ` set (mg_instances m')" using keys assms(4) by auto
  then have "fst ` set (mg_instances m') \<subset> fst ` set (mg_instances m)" using keys by auto
  then show "length (mg_instances m') < length (mg_instances m)"
    using mg_inv_length[OF assms(1)] mg_inv_length[OF inv] by (simp add: psubset_card_mono)
  show "filter (\<lambda>x. x \<notin> set dead) (dkeys (mg_instances m')) = dkeys (mg_instances m')"
    using keys by (auto simp: filter_id_conv)
  show "backend_filters m' = backend_filters m" "mg_enable_migration m' = mg_enable_migration m"
    using assms(5) scale_down_keeps(1,2)[of m dead False] by (simp_all add: Let_def backend_filters_def)
qed

lemma rebuild_loop_done:
  "sort (dkeys (mg_instances m)) = [] \<or> pending_rebuild_migration_instances m \<le> 0 \<Longrightarrow>
    rebuild_loop rounds (sort (dkeys (mg_instances m))) k m = (Inr (Some (sort (dkeys (mg_instances m)))), m)"
  by (subst rebuild_loop.simps) auto

lemma sort_Nil_iff [simp]: "sort xs = [] \<longleftrightarrow> xs = []"
  by (metis length_0_conv length_sort)

text \<open>A quiet round either drops dead instances or completes the rebuild.\<close>

lemma rebuild_round_dead:
  assumes "rr_others r = id" and "rr_warm_others r = id"
    and "mg_instances m \<noteq> []" and "0 < pending_rebuild_migration_instances m"
    and "D = rr_dead r \<or> filter (\<lambda>x. x \<in> rr_dead r) (sort (dkeys (mg_instances m))) = [] \<and> D = rr_warm_dead r"
    and "dead = filter (\<lambda>x. x \<in> D) (sort (dkeys (mg_instances m)))" and "dead \<noteq> []"
    and "m' = (let m = snd (scale_down m dead False) in m\<lparr>mg_effects := mg_effects m @ [ClearGloo]\<rparr>)"
  shows "rebuild_loop (r # rest) (sort (dkeys (mg_instances m))) (pending_rebuild_migration_instances m) m
    = rebuild_loop rest (sort (filter (\<lambda>x. x \<notin> set dead) (dkeys (mg_instances m'))))
        (pending_rebuild_migration_instances m') m'"
proof -
  let ?alive = "sort (dkeys (mg_instances m))"
  have task: "run_task m ?alive id A = (Inr (filter (\<lambda>x. x \<in> A) ?alive),
      if filter (\<lambda>x. x \<in> A) ?alive = [] then m
      else (let m = snd (scale_down m (filter (\<lambda>x. x \<in> A) ?alive) False) in m\<lparr>mg_effects := mg_effects m @ [ClearGloo]\<rparr>))"
    for A by (rule run_task_quiet) simp
  have t1: "run_task m ?alive id D = (Inr dead, m')"
    unfolding task assms(6)[symmetric] using assms(7,8) by simp
  from assms(5) show ?thesis
  proof
    assume "D = rr_dead r"
    then show ?thesis using assms(1,3,4,7) t1 by (subst rebuild_loop.simps) (simp add: Let_def)
  next
    assume D: "filter (\<lambda>x. x \<in> rr_dead r) ?alive = [] \<and> D = rr_warm_dead r"
    have "run_task m ?alive id (rr_dead r) = (Inr [], m)" unfolding task using D by simp
    then show ?thesis using assms(1-4,7) t1 D by (subst rebuild_loop.simps) (simp add: Let_def)
  qed
qed

lemma rebuild_round_quiet:
  assumes "rr_others r = id" and "rr_warm_others r = id"
    and "mg_instances m \<noteq> []" and "0 < pending_rebuild_migration_instances m"
    and "filter (\<lambda>x. x \<in> rr_dead r) (sort (dkeys (mg_instances m))) = []"
    and "filter (\<lambda>x. x \<in> rr_warm_dead r) (sort (dkeys (mg_instances m))) = []"
  shows "rebuild_loop (r # rest) (sort (dkeys (mg_instances m))) (pending_rebuild_migration_instances m) m
    = (Inr (Some (sort (dkeys (mg_instances m)))), m\<lparr>pending_rebuild_migration_instances := 0\<rparr>)"
proof -
  have task: "run_task m (sort (dkeys (mg_instances m))) id A = (Inr [], m)"
    if "filter (\<lambda>x. x \<in> A) (sort (dkeys (mg_instances m))) = []" for A
    using run_task_quiet[of "sort (dkeys (mg_instances m))" m A] that by simp
  show ?thesis
    using assms(3,4) rebuild_loop_done[of "m\<lparr>pending_rebuild_migration_instances := 0\<rparr>" rest 0]
    by (subst rebuild_loop.simps) (simp add: assms(1,2) task[OF assms(5)] task[OF assms(6)])
qed

lemma rebuild_loop_quiet:
  assumes "\<forall>r \<in> set rounds. rr_others r = id \<and> rr_warm_others r = id"
    and "mg_inv m" and "0 \<le> pending_rebuild_migration_instances m" and "length (mg_instances m) < length rounds"
  shows "\<exists>m'. rebuild_loop rounds (sort (dkeys (mg_instances m))) (pending_rebuild_migration_instances m) m
      = (Inr (Some (sort (dkeys (mg_instances m')))), m')
    \<and> mg_inv m' \<and> (mg_instances m' = [] \<or> pending_rebuild_migration_instances m' = 0)
    \<and> backend_filters m' = backend_filters m"
  using assms
proof (induction rounds arbitrary: m)
  case (Cons r rest)
  let ?alive = "sort (dkeys (mg_instances m))" and ?k = "pending_rebuild_migration_instances m"
  have quiet: "rr_others r = id" "rr_warm_others r = id" using Cons.prems(1) by auto
  consider (finished) "mg_instances m = [] \<or> ?k \<le> 0"
    | (dead) D where "mg_instances m \<noteq> []" "0 < ?k" "filter (\<lambda>x. x \<in> D) ?alive \<noteq> []"
        "D = rr_dead r \<or> filter (\<lambda>x. x \<in> rr_dead r) ?alive = [] \<and> D = rr_warm_dead r"
    | (quiet) "mg_instances m \<noteq> []" "0 < ?k" "filter (\<lambda>x. x \<in> rr_dead r) ?alive = []"
        "filter (\<lambda>x. x \<in> rr_warm_dead r) ?alive = []"
    by (metis not_le)
  then show ?case
  proof cases
    case finished
    then show ?thesis
      using rebuild_loop_done[of m "r # rest" ?k] Cons.prems by (intro exI[of _ m]) auto
  next
    case (dead D)
    let ?dead = "filter (\<lambda>x. x \<in> D) ?alive"
    define m' where "m' = (let m = snd (scale_down m ?dead False) in m\<lparr>mg_effects := mg_effects m @ [ClearGloo]\<rparr>)"
    have "set ?dead \<subseteq> fst ` set (mg_instances m)" by auto
    note drop = drop_dead[OF Cons.prems(2,3) dead(3) this m'_def]
    have "length (mg_instances m') < length rest" using drop(3) Cons.prems(4) by simp
    from Cons.IH[OF _ drop(1,2) this] Cons.prems(1) drop(5) show ?thesis
      using rebuild_round_dead[OF quiet dead(1,2,4) refl dead(3) m'_def, of rest] drop(4) by simp
  next
    case quiet
    then show ?thesis
      using rebuild_round_quiet[OF \<open>rr_others r = id\<close> \<open>rr_warm_others r = id\<close> quiet, of rest] Cons.prems(2)
      by (intro exI[of _ "m\<lparr>pending_rebuild_migration_instances := 0\<rparr>"]) (simp add: backend_filters_def)
  qed
qed simp

lemma allow_only_gated:
  assumes "gated m"
  shows "\<exists>ms. ms_allow_only (migration_scheduler (global_scheduler m)) alive = Inr ms
    \<and> ms_instance_id_set ms = ms_instance_id_set (migration_scheduler (global_scheduler m))
    \<and> ms_num_instances ms = ms_num_instances (migration_scheduler (global_scheduler m))
    \<and> registered_filters (migration_filter ms) = [(''migration_backend_init_filter'',
        CustomFilter (\<lambda>i. instance_id i \<in> alive) (\<lambda>i. instance_id i \<in> alive))]"
  using assms by (auto simp: gated_def backend_filters_def ms_allow_only_def get_filter_def)

lemma gated_pairs:
  assumes "registered_filters (migration_filter (migration_scheduler gs)) = [(''migration_backend_init_filter'',
      CustomFilter (\<lambda>i. instance_id i \<in> alive) (\<lambda>i. instance_id i \<in> alive))]"
    and "gs_pair_migration gs t = (Inr pairs, gs')"
  shows "set pairs \<subseteq> alive \<times> alive"
proof
  fix xy assume "xy \<in> set pairs"
  obtain x y where xy: "xy = (x, y)" by (cases xy)
  let ?u = "ms_update_instance_infos (migration_scheduler gs) (instance_info gs)"
  have u: "ms_instance_info ?u = Some (instance_info gs)" "registered_filters (migration_filter ?u) =
      [(''migration_backend_init_filter'', CustomFilter (\<lambda>i. instance_id i \<in> alive) (\<lambda>i. instance_id i \<in> alive))]"
    using assms(1) by (simp_all add: ms_update_instance_infos_def)
  have pairs: "ms_pair_migration ?u t = Inr pairs" using assms(2) by (simp add: gs_pair_migration_def Let_def)
  have "x \<in> alive \<and> y \<in> alive"
    by (rule ms_pair_conditions[OF pairs u(1)]) (use u(2) \<open>xy \<in> set pairs\<close> xy in auto)
  then show "xy \<in> alive \<times> alive" using xy by simp
qed

lemma gs_inv_migration_scheduler:
  "gs_inv gs \<Longrightarrow> ms_instance_id_set ms = ms_instance_id_set (migration_scheduler gs) \<Longrightarrow>
    ms_num_instances ms = ms_num_instances (migration_scheduler gs) \<Longrightarrow> gs_inv (gs\<lparr>migration_scheduler := ms\<rparr>)"
  by (simp add: gs_inv_def)

subsection \<open>Properties\<close>

text \<open>
  C25: rebuilding the migration backend ends. When no migration runs and no other task
  changes the membership meanwhile, one round more than there are instances is enough
  whatever instances die during the rounds: each round completes the rebuild or removes a
  dead instance. Afterwards no instance waits for a rebuild, migration is enabled as it was
  before, and migration pairs lie inside the surviving instances.
\<close>

theorem rebuild_migration_backend_terminates:
  assumes "mg_inv m" and "gated m" and "0 \<le> pending_rebuild_migration_instances m"
    and "\<forall>b \<in> set (dvalues (instance_migrating m)). \<not> b"
    and "\<forall>r \<in> set rounds. rr_others r = id \<and> rr_warm_others r = id"
    and "length (mg_instances m) < length rounds"
  shows "\<exists>alive m'. rebuild_migration_backend m rounds = (Inr (Some alive), m')
    \<and> mg_inv m' \<and> set alive = fst ` set (mg_instances m') \<and> pending_rebuild_migration_instances m' = 0
    \<and> mg_enable_migration m' = mg_enable_migration m
    \<and> (\<forall>t pairs gs. gs_pair_migration (global_scheduler m') t = (Inr pairs, gs) \<longrightarrow> set pairs \<subseteq> set alive \<times> set alive)"
proof -
  let ?m = "m\<lparr>mg_enable_migration := False, mg_effects := mg_effects m @ [ClearGloo]\<rparr>"
  have inv: "mg_inv ?m" using assms(1) by simp
  obtain m1 where m1: "rebuild_loop rounds (sort (dkeys (mg_instances m))) (pending_rebuild_migration_instances m) ?m
      = (Inr (Some (sort (dkeys (mg_instances m1)))), m1)" "mg_inv m1"
    "mg_instances m1 = [] \<or> pending_rebuild_migration_instances m1 = 0" "backend_filters m1 = backend_filters ?m"
    using rebuild_loop_quiet[OF assms(5) inv] assms(3,6) by auto
  define m2 where "m2 = (if mg_instances m1 = [] then m1\<lparr>pending_rebuild_migration_instances := 0\<rparr> else m1)"
  have m2: "mg_inv m2" "pending_rebuild_migration_instances m2 = 0" "mg_instances m2 = mg_instances m1" "gated m2"
    using m1 assms(2) by (auto simp: m2_def gated_def backend_filters_def)
  let ?alive = "fst ` set (mg_instances m1)"
  obtain ms where ms: "ms_allow_only (migration_scheduler (global_scheduler m2)) ?alive = Inr ms"
    "ms_instance_id_set ms = ms_instance_id_set (migration_scheduler (global_scheduler m2))"
    "ms_num_instances ms = ms_num_instances (migration_scheduler (global_scheduler m2))"
    "registered_filters (migration_filter ms) = [(''migration_backend_init_filter'',
      CustomFilter (\<lambda>i. instance_id i \<in> ?alive) (\<lambda>i. instance_id i \<in> ?alive))]"
    using allow_only_gated[OF m2(4), of ?alive] by blast
  define m3 where "m3 = m2\<lparr>global_scheduler := (global_scheduler m2)\<lparr>migration_scheduler := ms\<rparr>,
      mg_enable_migration := mg_enable_migration m\<rparr>"
  have "rebuild_migration_backend m rounds = (Inr (Some (sort (dkeys (mg_instances m1)))), m3)"
    using assms(4) m1(1) ms(1)
    by (simp add: rebuild_migration_backend_def Let_def m3_def m2_def[symmetric])
  moreover have "mg_inv m3"
    using mg_inv_gs[OF m2(1) gs_inv_migration_scheduler[OF mg_inv_gsD[OF m2(1)] ms(2,3)]] by (simp add: m3_def)
  moreover have "set pairs \<subseteq> ?alive \<times> ?alive" if "gs_pair_migration (global_scheduler m3) t = (Inr pairs, gs)" for t pairs gs
    by (rule gated_pairs[OF _ that]) (simp add: m3_def ms(4))
  ultimately show ?thesis
    using m2(2,3) by (intro exI[of _ "sort (dkeys (mg_instances m1))"] exI[of _ m3]) (auto simp: m3_def)
qed

lemma gs_scale_up_filter:
  "migration_filter (migration_scheduler (gs_scale_up s xs)) = migration_filter (migration_scheduler s)"
  by (induction s xs rule: gs_scale_up.induct)
    (simp_all add: gs_add_instance_def ms_add_instance_def ms_update_instance_infos_def Let_def)

lemma init_gs_facts:
  assumes "init_GlobalScheduler c = Inr gs"
  shows "instance_id_set gs = {}" and "gs_inv gs"
    and "is_group_kind_migration_backend c \<Longrightarrow> \<exists>f g. registered_filters (migration_filter (migration_scheduler gs))
      = [(''migration_backend_init_filter'', CustomFilter f g)]"
  using assms init_gs_inv[OF assms] init_ms_filters
  by (fastforce simp: init_GlobalScheduler_def res_bind_Inr_iff Let_def)+

lemma base_manager_inv: "init_GlobalScheduler c = Inr gs \<Longrightarrow> mg_inv (base_Manager a la v gs l)"
  using init_gs_facts by (simp add: mg_inv_def members_ok_def base_Manager_def Let_def)

lemma init_manager_inv: "init_Manager a la v stored actors = Inr m \<Longrightarrow> mg_inv m"
  by (auto simp: init_Manager_def res_bind_Inr_iff connect_to_instances_def Let_def
      intro!: scale_up_inv base_manager_inv)

text \<open>A manager with one instance of a group-kind backend, which waits for a rebuild.\<close>

definition one_instance_manager :: "GlobalScheduler \<Rightarrow> Launcher \<Rightarrow> Manager" where
  "one_instance_manager gs l = snd (scale_up (base_Manager example_pd_args None False gs l) [(''i0'', ''instance_i0'', NO_CONSTRAINTS)])"

lemma one_instance_manager_facts:
  assumes "init_GlobalScheduler c = Inr gs" and "is_group_kind_migration_backend c"
  shows "mg_inv (one_instance_manager gs l)" "gated (one_instance_manager gs l)"
    "pending_rebuild_migration_instances (one_instance_manager gs l) = 1"
    "instance_migrating (one_instance_manager gs l) = [(''i0'', False)]"
    "mg_instances (one_instance_manager gs l) = [(''i0'', ''instance_i0'')]"
  using scale_up_inv(1)[OF base_manager_inv[OF assms(1)]] init_gs_facts(3)[OF assms]
  by (simp_all add: one_instance_manager_def)
    (simp_all add: scale_up_def register_instances_def base_Manager_def gated_def backend_filters_def
      gs_scale_up_filter Let_def del: gs_scale_up.simps)

theorem rebuild_migration_backend_terminates_witness:
  "\<exists>gs l m'. init_GlobalScheduler (example_config\<lparr>is_group_kind_migration_backend := True\<rparr>) = Inr gs
    \<and> init_Launcher example_pd_args None = Inr l
    \<and> (\<exists>alive. rebuild_migration_backend (one_instance_manager gs l)
        (replicate 2 \<lparr>rr_dead = {}, rr_others = id, rr_warm_dead = {''i0''}, rr_warm_others = id\<rparr>) = (Inr (Some alive), m')
      \<and> pending_rebuild_migration_instances m' = 0)"
proof -
  obtain gs where gs: "init_GlobalScheduler (example_config\<lparr>is_group_kind_migration_backend := True\<rparr>) = Inr gs"
    by (auto simp: example_config_def init_GlobalScheduler_def init_DispatchScheduler_def get_dispatch_policy_def
        init_MigrationScheduler_def register_migration_backend_init_filter_def init_CustomFilter_def
        get_pair_policy_def init_ScalingScheduler_def get_scale_policy_def Let_def)
  obtain l where l: "init_Launcher example_pd_args None = Inr l"
    by (simp add: init_Launcher_def example_pd_args_facts)
  note facts = one_instance_manager_facts[OF gs, of l, simplified]
  from rebuild_migration_backend_terminates[OF facts(1,2),
      of "replicate 2 \<lparr>rr_dead = {}, rr_others = id, rr_warm_dead = {''i0''}, rr_warm_others = id\<rparr>"]
  show ?thesis using gs l facts by auto
qed

subsection \<open>Capacity\<close>

definition capacity :: "Manager \<Rightarrow> int" where
  "capacity m = int (length (mg_instances m)) + int (card (pending_instance_ids m))"

lemma register_one_keeps:
  "mg_max_instances (snd (register_instance s e)) = mg_max_instances (snd s)"
  "pending_instance_ids (snd (register_instance s e)) = pending_instance_ids (snd s) - {fst e}"
  by (cases s; cases e; simp add: Let_def)+

lemma scale_up_one_keeps:
  "mg_max_instances (snd (scale_up m [e])) = mg_max_instances m"
  "pending_instance_ids (snd (scale_up m [e])) = pending_instance_ids m - {fst e}"
proof -
  obtain u m1 where r: "register_instance (False, m) e = (u, m1)" by (cases "register_instance (False, m) e")
  have "mg_max_instances m1 = mg_max_instances m" "pending_instance_ids m1 = pending_instance_ids m - {fst e}"
    using register_one_keeps[of "(False, m)" e] r by simp_all
  then show "mg_max_instances (snd (scale_up m [e])) = mg_max_instances m"
    "pending_instance_ids (snd (scale_up m [e])) = pending_instance_ids m - {fst e}"
    by (simp_all add: scale_up_def register_instances_def r Let_def)
qed

lemma capacity_scale_down: "mg_inv m \<Longrightarrow> capacity (snd (scale_down m xs b)) \<le> capacity m"
proof -
  assume inv: "mg_inv m"
  have fin: "finite (pending_instance_ids m)" using inv by (simp add: mg_inv_def members_ok_def)
  have "card (fst ` set (mg_instances m) - set xs) \<le> card (fst ` set (mg_instances m))" by (rule card_mono) auto
  moreover have "card (pending_instance_ids m - set xs) \<le> card (pending_instance_ids m)" using fin by (intro card_mono) auto
  ultimately show ?thesis
    using mg_inv_length[OF inv] mg_inv_length[OF scale_down_inv(1)[OF inv, of xs b]] scale_down_inv(2)[OF inv, of xs b]
    by (simp add: capacity_def scale_down_keeps)
qed

text \<open>A started instance that registers moves from the pending ones to the members.\<close>

lemma capacity_register:
  assumes "mg_inv m" and "fst e \<in> pending_instance_ids m \<or> dmem (fst e) (mg_instances m)"
  shows "capacity (snd (scale_up m [e])) \<le> capacity m"
proof -
  let ?I = "fst ` set (mg_instances m)" and ?P = "pending_instance_ids m"
  have fin: "finite ?P" using assms(1) by (simp add: mg_inv_def members_ok_def)
  have "card (insert (fst e) ?I) + card (?P - {fst e}) \<le> card ?I + card ?P"
  proof (cases "fst e \<in> ?I")
    case True
    then show ?thesis using fin by (simp add: insert_absorb card_mono)
  next
    case False
    then have "fst e \<in> ?P" using assms(2) by simp
    then show ?thesis using fin False card_Suc_Diff1[OF fin, of "fst e"] by simp
  qed
  then show ?thesis
    using mg_inv_length[OF assms(1)] mg_inv_length[OF scale_up_inv(1)[OF assms(1), of "[e]"]]
      scale_up_inv(2)[OF assms(1), of "[e]"]
    by (simp add: capacity_def scale_up_one_keeps)
qed

lemma capacity_drop_stale:
  "mg_inv m \<Longrightarrow> capacity (drop_stale_groups m new ns) \<le> capacity m
    \<and> mg_max_instances (drop_stale_groups m new ns) = mg_max_instances m"
proof (induction ns arbitrary: m)
  case (Cons n ns)
  then show ?case
    using Cons.IH[OF scale_down_inv(1)[OF Cons.prems, of "[id_of_name n]" True]] Cons.IH[OF Cons.prems]
      capacity_scale_down[OF Cons.prems, of "[id_of_name n]" True] scale_down_keeps(3)[of m "[id_of_name n]" True]
    by auto
qed simp

lemma capacity_deploy:
  "capacity (snd (deploy_group m ea ia e x)) = capacity m"
  "mg_max_instances (snd (deploy_group m ea ia e x)) = mg_max_instances m"
  by (simp_all add: deploy_group_def capacity_def split: sum.split prod.split)

lemma resume_group_capacity:
  "resume_group m e = Inr (new, m') \<Longrightarrow> capacity m' = capacity m \<and> mg_max_instances m' = mg_max_instances m"
  by (auto simp: resume_group_def disable_state_api_reconciliation_def Let_def res_bind_Inr_iff capacity_def
      split: if_splits option.splits sum.splits)

lemma group_states_capacity:
  "group_states m e = Inr (ns, k, m') \<Longrightarrow> capacity m' = capacity m \<and> mg_max_instances m' = mg_max_instances m"
  by (auto simp: group_states_def disable_state_api_reconciliation_def capacity_def split: if_splits sum.splits)

definition within_max :: "Manager \<Rightarrow> bool" where
  "within_max m \<longleftrightarrow> mg_inv m \<and> (mg_max_instances m = - 1 \<or> capacity m \<le> mg_max_instances m)"

lemma auto_scale_within_max:
  assumes "within_max m"
  shows "within_max (snd (auto_scale_up_step m ea ia e))"
proof (cases "resume_group m e")
  case (Inr r1)
  obtain new m1 where r1: "resume_group m e = Inr (new, m1)" using Inr by (cases r1) auto
  have m1: "within_max m1"
    using assms resume_group_inv[OF r1] resume_group_capacity[OF r1] by (auto simp: within_max_def)
  show ?thesis
  proof (cases "group_states m1 e")
    case (Inr r2)
    obtain ns k m2 where r2: "group_states m1 e = Inr (ns, k, m2)" using Inr by (cases r2) auto
    have m2: "within_max m2"
      using m1 group_states_inv[OF r2] group_states_capacity[OF r2] by (auto simp: within_max_def)
    define m3 where "m3 = drop_stale_groups m2 new ns"
    have m3: "within_max m3"
      using m2 drop_stale_groups_inv capacity_drop_stale[of m2 new ns] by (auto simp: within_max_def m3_def)
    let ?m4 = "m3\<lparr>pending_instance_ids := insert (se_new_id e) (pending_instance_ids m3),
        pending_placement_groups := dset (se_new_id e) (get_placement_group_name (se_new_id e)) (pending_placement_groups m3)\<rparr>"
    have grow: "within_max ?m4" if "mg_max_instances m3 = - 1 \<or> capacity m3 < mg_max_instances m3"
    proof -
      have "card (insert (se_new_id e) (pending_instance_ids m3)) \<le> Suc (card (pending_instance_ids m3))"
        by (rule card_insert_le_m1) simp_all
      then show ?thesis using that m3 mg_inv_pending(2) by (auto simp: within_max_def capacity_def)
    qed
    have deploy: "within_max m' \<Longrightarrow> within_max (snd (deploy_group m' ea ia e x))" for m' x
      using deploy_group_inv capacity_deploy by (auto simp: within_max_def)
    have "snd (auto_scale_up_step m ea ia e) = m3 \<or> (\<exists>x. snd (auto_scale_up_step m ea ia e) = snd (deploy_group m3 ea ia e x))
      \<or> (mg_max_instances m3 = - 1 \<or> capacity m3 < mg_max_instances m3)
        \<and> (\<exists>x. snd (auto_scale_up_step m ea ia e) = snd (deploy_group ?m4 ea ia e x))"
      by (cases new; cases "se_new_pg e")
        (auto simp: auto_scale_up_step_def r1 r2 m3_def capacity_def Let_def)
    then show ?thesis using m3 grow deploy by metis
  qed (use r1 m1 in \<open>simp add: auto_scale_up_step_def\<close>)
qed (use assms in \<open>simp add: auto_scale_up_step_def\<close>)

datatype scaling_event =
    AutoScale scale_env
  | Registered string string InstanceType
  | ScaledDown "string list"

text \<open>Only instances the manager started register while it scales.\<close>

fun scaling_step :: "EntrypointsArgs \<Rightarrow> InstanceArgs \<Rightarrow> Manager \<Rightarrow> scaling_event \<Rightarrow> Manager" where
  "scaling_step ea ia m (AutoScale e) = snd (auto_scale_up_step m ea ia e)"
| "scaling_step ea ia m (Registered x h t) =
    (if x \<in> pending_instance_ids m \<or> dmem x (mg_instances m) then snd (scale_up m [(x, h, t)]) else m)"
| "scaling_step ea ia m (ScaledDown xs) = snd (scale_down m xs True)"

lemma scaling_step_within_max: "within_max m \<Longrightarrow> within_max (scaling_step ea ia m e)"
proof (cases e)
  case (Registered x h t)
  assume m: "within_max m"
  show ?thesis
  proof (cases "x \<in> pending_instance_ids m \<or> dmem x (mg_instances m)")
    case True
    have "mg_inv m" using m by (simp add: within_max_def)
    from capacity_register[OF this, of "(x, h, t)"] scale_up_inv(1)[OF this, of "[(x, h, t)]"] True m show ?thesis
      using Registered scale_up_one_keeps(1)[of m "(x, h, t)"] by (auto simp: within_max_def)
  qed (use Registered m in simp)
next
  case (ScaledDown xs)
  assume "within_max m"
  then show ?thesis
    using ScaledDown capacity_scale_down[of m xs True] scale_down_inv(1)[of m] scale_down_keeps(3)[of m xs True]
    by (auto simp: within_max_def)
qed (simp add: auto_scale_within_max)

interpretation sc_machine: invariant_machine "scaling_step ea ia" within_max
  by unfold_locales (rule scaling_step_within_max)

lemma scaling_step_max: "mg_inv m \<Longrightarrow> mg_max_instances (scaling_step ea ia m e) = mg_max_instances m"
proof (cases e)
  case (AutoScale ev)
  assume inv: "mg_inv m"
  show ?thesis
  proof (cases "resume_group m ev")
    case (Inr r1)
    obtain new m1 where r1: "resume_group m ev = Inr (new, m1)" using Inr by (cases r1) auto
    have m1: "mg_inv m1" "mg_max_instances m1 = mg_max_instances m"
      using resume_group_inv[OF r1 inv] resume_group_capacity[OF r1] by auto
    show ?thesis
    proof (cases "group_states m1 ev")
      case (Inr r2)
      obtain ns k m2 where r2: "group_states m1 ev = Inr (ns, k, m2)" using Inr by (cases r2) auto
      have m2: "mg_inv m2" "mg_max_instances m2 = mg_max_instances m1"
        using group_states_inv[OF r2 m1(1)] group_states_capacity[OF r2] by auto
      have "mg_max_instances (drop_stale_groups m2 n ns) = mg_max_instances m" for n
        using capacity_drop_stale[OF m2(1)] m2(2) m1(2) by auto
      then show ?thesis
        by (cases new; cases "se_new_pg ev")
          (auto simp: AutoScale auto_scale_up_step_def r1 r2 capacity_deploy Let_def)
    qed (use r1 m1 AutoScale in \<open>simp add: auto_scale_up_step_def\<close>)
  qed (use AutoScale in \<open>simp add: auto_scale_up_step_def\<close>)
qed (simp_all add: scale_up_one_keeps scale_down_keeps)

text \<open>
  Automatic scaling respects the configured maximum. However the placement groups time
  out, fail, are found again or become instances, and whatever is scaled down meanwhile,
  the registered instances together with those still being started never exceed
  \<open>max_instances\<close>, with or without Ray's state API.
\<close>

theorem auto_scaling_respects_max:
  assumes "init_GlobalScheduler c = Inr gs" and "max_instances a = n" and "0 \<le> n"
    and "m = foldl (scaling_step ea ia) (base_Manager a la v gs l) es"
  shows "int (length (mg_instances m)) + int (card (pending_instance_ids m)) \<le> n"
proof -
  let ?m0 = "base_Manager a la v gs l"
  have base: "mg_max_instances ?m0 = n" "capacity ?m0 = 0"
    using assms(2) by (simp_all add: capacity_def base_Manager_def Let_def)
  have "within_max ?m0" using base_manager_inv[OF assms(1)] assms(3) by (simp add: within_max_def base)
  then have "within_max m" unfolding assms(4) by (rule sc_machine.run_preserves)
  moreover have "within_max m' \<Longrightarrow> mg_max_instances (foldl (scaling_step ea ia) m' es) = mg_max_instances m'" for m' es
  proof (induction es arbitrary: m')
    case (Cons e es)
    then show ?case
      using scaling_step_within_max[OF Cons.prems, of ea ia e] scaling_step_max[of m' ea ia e]
      by (simp add: within_max_def)
  qed simp
  ultimately show ?thesis
    using \<open>within_max ?m0\<close> assms(3,4) base by (auto simp: within_max_def capacity_def)
qed

definition ready_env :: scale_env where
  "ready_env = \<lparr>se_last_pg_exists = Inr False, se_groups = Inl ServerUnavailable, se_new_id = ''i0'',
     se_new_pg = Inr (), se_ready = True, se_instance = Inr (), se_server = Inr ()\<rparr>"

theorem auto_scaling_respects_max_witness:
  "\<exists>gs l m. init_GlobalScheduler example_config = Inr gs \<and> init_Launcher example_pd_args None = Inr l
    \<and> m = foldl (scaling_step default_EntrypointsArgs default_InstanceArgs)
        (base_Manager (example_pd_args\<lparr>max_instances := 1\<rparr>) None False gs l)
        [AutoScale ready_env, Registered ''i0'' ''instance_i0'' PREFILL, AutoScale ready_env]
    \<and> int (length (mg_instances m)) + int (card (pending_instance_ids m)) \<le> 1"
proof -
  obtain gs where gs: "init_GlobalScheduler example_config = Inr gs" using example_config_ok by blast
  obtain l where l: "init_Launcher example_pd_args None = Inr l"
    by (simp add: init_Launcher_def example_pd_args_facts)
  show ?thesis
    using gs l auto_scaling_respects_max[OF gs, of "example_pd_args\<lparr>max_instances := 1\<rparr>" 1 _ default_EntrypointsArgs
        default_InstanceArgs None False l "[AutoScale ready_env, Registered ''i0'' ''instance_i0'' PREFILL, AutoScale ready_env]"]
    by auto
qed

text \<open>
  Without Ray's state API the loop resumes the first pending group, but a group stays
  pending until its instance registers. So an iteration that follows a deployment deploys
  the same instance again, although its actors are already being started.
\<close>

theorem auto_scaling_redeploys_pending:
  assumes "\<not> state_api_available m" and "pending_placement_groups m = (x, h) # rest"
    and "mg_max_instances m = - 1" and "se_ready e" and "se_instance e = Inr ()" and "se_server e = Inr ()"
    and "\<not> ln_enable_pd_disagg (mg_launcher m)" and "\<not> ln_enable_engine_pd_disagg (mg_launcher m)"
    and "is_ok (queue_type_of (ea_request_output_queue_type ea))"
  shows "\<exists>m1 m2. auto_scale_up_step m ea ia e = (Deployed x NO_CONSTRAINTS, m1)
    \<and> auto_scale_up_step m1 ea ia e = (Deployed x NO_CONSTRAINTS, m2)"
proof -
  have dep: "\<exists>m1. auto_scale_up_step m ea ia e = (Deployed x NO_CONSTRAINTS, m1) \<and> \<not> state_api_available m1
      \<and> pending_placement_groups m1 = pending_placement_groups m \<and> mg_max_instances m1 = - 1
      \<and> \<not> ln_enable_pd_disagg (mg_launcher m1) \<and> \<not> ln_enable_engine_pd_disagg (mg_launcher m1)"
    if "\<not> state_api_available m" "pending_placement_groups m = (x, h) # rest" "mg_max_instances m = - 1"
      "\<not> ln_enable_pd_disagg (mg_launcher m)" "\<not> ln_enable_engine_pd_disagg (mg_launcher m)" for m
    using that assms(4-6,9)
    by (auto simp: auto_scale_up_step_def resume_group_def group_states_def deploy_group_def init_server_and_instance_def
        get_next_instance_args_def get_next_instance_type_def get_next_entrypoints_args_def add_inflight_def is_ok_iff Let_def)
  obtain m1 where m1: "auto_scale_up_step m ea ia e = (Deployed x NO_CONSTRAINTS, m1)" "\<not> state_api_available m1"
    "pending_placement_groups m1 = (x, h) # rest" "mg_max_instances m1 = - 1"
    "\<not> ln_enable_pd_disagg (mg_launcher m1)" "\<not> ln_enable_engine_pd_disagg (mg_launcher m1)"
    using dep[OF assms(1-3,7,8)] assms(2) by auto
  then show ?thesis using dep[OF m1(2-6)] by blast
qed

theorem auto_scaling_redeploys_pending_witness:
  "\<exists>gs l m1 m2. init_GlobalScheduler example_config = Inr gs \<and> init_Launcher (example_pd_args\<lparr>ma_enable_pd_disagg := False\<rparr>) None = Inr l
    \<and> auto_scale_up_step ((base_Manager (example_pd_args\<lparr>max_instances := - 1\<rparr>) None False gs l)\<lparr>state_api_available := False,
          pending_placement_groups := [(''i0'', ''pg_i0'')], pending_instance_ids := {''i0''}\<rparr>)
        default_EntrypointsArgs default_InstanceArgs ready_env = (Deployed ''i0'' NO_CONSTRAINTS, m1)
    \<and> auto_scale_up_step m1 default_EntrypointsArgs default_InstanceArgs ready_env = (Deployed ''i0'' NO_CONSTRAINTS, m2)"
proof -
  obtain gs where gs: "init_GlobalScheduler example_config = Inr gs" using example_config_ok by blast
  obtain l where l: "init_Launcher (example_pd_args\<lparr>ma_enable_pd_disagg := False\<rparr>) None = Inr l"
    by (simp add: init_Launcher_def example_pd_args_facts)
  then have "\<not> ln_enable_pd_disagg l" "\<not> ln_enable_engine_pd_disagg l"
    by (auto simp: init_Launcher_def example_pd_args_facts)
  then show ?thesis
    using gs l auto_scaling_redeploys_pending[of "(base_Manager (example_pd_args\<lparr>max_instances := - 1\<rparr>) None False gs l)\<lparr>state_api_available := False,
          pending_placement_groups := [(''i0'', ''pg_i0'')], pending_instance_ids := {''i0''}\<rparr>" "''i0''" "''pg_i0''" "[]"
          ready_env default_EntrypointsArgs default_InstanceArgs]
    by (simp add: ready_env_def base_Manager_def queue_type_of_def default_EntrypointsArgs_def Let_def)
qed

subsection \<open>Ports\<close>

lemma init_instances_loop_ports:
  "init_instances_loop base s k os env m = (Inr st, env', m') \<Longrightarrow>
    map fst st = map fst os \<and> map snd st = map (\<lambda>i. base + int (k + i) * s) [0..<length os]
    \<and> (\<forall>key. key \<noteq> ''LLUMNIX_KV_PORT'' \<longrightarrow> dget env' key = dget env key)"
proof (induction os arbitrary: k env m st)
  case (Cons o1 os)
  obtain x pg actor where o1: "o1 = (x, pg, actor)" by (cases o1)
  let ?env = "dset ''LLUMNIX_KV_PORT'' (int_str (base + int k * s)) env"
  let ?m = "m\<lparr>pending_instance_ids := insert x (pending_instance_ids m)\<rparr>"
  obtain r env1 m1 where loop: "init_instances_loop base s (Suc k) os ?env ?m = (r, env1, m1)"
    by (cases "init_instances_loop base s (Suc k) os ?env ?m")
  obtain st' where st': "r = Inr st'" "st = (x, base + int k * s) # st'" "env1 = env'" "m1 = m'"
    using Cons.prems loop by (auto simp: o1 Let_def res_bind_Inr_iff split: sum.splits)
  have ih: "map fst st' = map fst os" "map snd st' = map (\<lambda>i. base + int (Suc k + i) * s) [0..<length os]"
    "\<forall>key. key \<noteq> ''LLUMNIX_KV_PORT'' \<longrightarrow> dget env' key = dget ?env key"
    using Cons.IH[of "Suc k" ?env ?m st'] loop st' by (simp_all del: map_eq_conv)
  have "map (\<lambda>i. base + int (k + i) * s) [0..<length (o1 # os)]
      = (base + int k * s) # map (\<lambda>i. base + int (Suc k + i) * s) [0..<length os]"
    by (simp add: upt_conv_Cons map_Suc_upt[symmetric] del: upt_Suc)
  then show ?case using ih st' o1 by (simp add: dget_dset)
qed simp

text \<open>
  The peer-to-peer ports of the initial instances do not collide. Each instance's
  workers use the ports from its base port on, one per tensor-parallel rank; the ranges of
  different instances are disjoint, every requested instance is started, and the
  environment is left as it was.
\<close>

theorem initial_kv_ports_disjoint:
  assumes "init_instances m env tp outcomes = (Inr started, env', m')"
    and "i < j" and "j < length started" and "0 \<le> r" and "r < kv_port_stride tp" and "0 \<le> r'" and "r' < kv_port_stride tp"
  shows "snd (started ! i) + r \<noteq> snd (started ! j) + r'
    \<and> map fst started = map fst (take (nat (mg_initial_instances m)) outcomes)
    \<and> (\<forall>key. dget env' key = dget env key)"
proof -
  obtain base where base: "base_kv_port env = Inr base"
    using assms(1) by (auto simp: init_instances_def split: sum.splits)
  let ?os = "take (nat (mg_initial_instances m)) outcomes" and ?s = "kv_port_stride tp"
  obtain r0 e m1 where loop: "init_instances_loop base ?s 0 ?os env m = (r0, e, m1)"
    by (cases "init_instances_loop base ?s 0 ?os env m")
  have r0: "r0 = Inr started" "env' = restore_kv_port (dget env ''LLUMNIX_KV_PORT'') e"
    using assms(1) base loop by (auto simp: init_instances_def split: sum.splits)
  have ports: "map fst started = map fst ?os" "map snd started = map (\<lambda>i. base + int (0 + i) * ?s) [0..<length ?os]"
    "\<forall>key. key \<noteq> ''LLUMNIX_KV_PORT'' \<longrightarrow> dget e key = dget env key"
    using init_instances_loop_ports[of base ?s 0 ?os env m started e m1] loop r0 by (simp_all del: map_eq_conv)
  have len: "length started = length ?os" using ports(1) map_eq_imp_length_eq by blast
  have nth: "snd (started ! n) = base + int n * ?s" if "n < length started" for n
    using that len arg_cong[OF ports(2), of "\<lambda>xs. xs ! n"] by simp
  have "int i * ?s + ?s \<le> int j * ?s"
    using assms(2,4,5) mult_right_mono[of "int i + 1" "int j" ?s] by (simp add: distrib_right)
  then have "snd (started ! i) + r \<noteq> snd (started ! j) + r'"
    using nth[of i] nth[of j] assms(2-7) by simp
  moreover have "dget env' key = dget env key" for key
    using ports(3) by (auto simp: r0(2) restore_kv_port_def dget_dset dget_dpop split: option.split)
  ultimately show ?thesis using ports(1) by blast
qed

theorem initial_kv_ports_disjoint_witness:
  "\<exists>gs l started env' m'. init_GlobalScheduler example_config = Inr gs \<and> init_Launcher example_pd_args None = Inr l
    \<and> init_instances (base_Manager (example_pd_args\<lparr>ma_initial_instances := 2\<rparr>) None False gs l) [(''LLUMNIX_KV_PORT'', ''20000'')] (Some 2)
        [(''a'', Inr (), Inr ()), (''b'', Inr (), Inr ())] = (Inr started, env', m')
    \<and> snd (started ! 0) + 1 \<noteq> snd (started ! 1) + 0"
proof -
  obtain gs where gs: "init_GlobalScheduler example_config = Inr gs" using example_config_ok by blast
  obtain l where l: "init_Launcher example_pd_args None = Inr l"
    by (simp add: init_Launcher_def example_pd_args_facts)
  let ?m = "base_Manager (example_pd_args\<lparr>ma_initial_instances := 2\<rparr>) None False gs l"
  have "base_kv_port [(''LLUMNIX_KV_PORT'', ''20000'')] = Inr 20000"
    by (simp add: base_kv_port_def py_int_def strip_def is_space_def is_decimal_def digit_value_def)
  then obtain env' m' where run: "init_instances ?m [(''LLUMNIX_KV_PORT'', ''20000'')] (Some 2)
      [(''a'', Inr (), Inr ()), (''b'', Inr (), Inr ())] = (Inr [(''a'', 20000), (''b'', 20002)], env', m')"
    by (simp add: init_instances_def base_Manager_def kv_port_stride_def Let_def)
  from initial_kv_ports_disjoint[OF run, of 0 1 1 0] show ?thesis
    using gs l run by (auto simp: kv_port_stride_def)
qed

end
