(* ===== verification/Manager_Requests.thy ===== *)
theory Manager_Requests
  imports Manager_Membership
begin

text \<open>
  The manager's request paths (\<open>manager.py\<close>): dispatching a request, alone or as a
  prefill/decode pair, aborting, and rebuilding the request tables from the instances.
  The calls sent to instances are listed in the result. While a request waits for
  instances or roles other tasks run: each waiting period is a \<open>tick\<close>, which has what the
  other tasks do to the manager and the random draws of the next role selection. A list of
  ticks that ends too early gives \<open>StillWaiting\<close>.
\<close>

record tick =
  tk_others :: "Manager \<Rightarrow> Manager"
  tk_draw_prefill :: nat
  tk_draw_decode :: nat

datatype gen_kind = PlainRequest | Producer string string | Consumer string string

datatype instance_call =
    GenerateOn string string pynum "sampling_arg option" gen_kind
  | AbortOn string "string list"

datatype gen_outcome = Submitted | Cancelled | InstanceDied | StillWaiting

record gen_request =
  gr_id :: string
  gr_server_info :: string
  gr_block_hashes :: "block_hash list option"
  gr_token_ids :: "int list option"
  gr_block_size :: "int option"
  gr_is_prompt :: bool
  gr_sampling :: "sampling_arg option"

subsection \<open>Prefix hashes of a request\<close>

text \<open>Asking the instances one by one until one knows the hashes of the prompt.\<close>

fun query_block_hashes ::
  "block_hash list option \<Rightarrow> block_hash list option res list \<Rightarrow> block_hash list option res" where
  "query_block_hashes acc [] = Inr acc"
| "query_block_hashes acc (Inr h # rest) =
    (if h \<noteq> None \<and> h \<noteq> Some [] then Inr h else query_block_hashes h rest)"
| "query_block_hashes acc (Inl e # rest) =
    (if e \<in> {RayActorError, AttributeError} then query_block_hashes acc rest else Inl e)"

definition request_block_hashes ::
  "(block_hash option \<Rightarrow> int list \<Rightarrow> block_hash) \<Rightarrow> gen_request \<Rightarrow> block_hash list option res list \<Rightarrow>
    block_hash list option res" where
  "request_block_hashes hash_block r replies =
    (let computed = (case gr_block_hashes r of
         Some h \<Rightarrow> Some h
       | None \<Rightarrow> (case (gr_token_ids r, gr_block_size r) of
             (Some tokens, Some n) \<Rightarrow> if n \<noteq> 0 then Some (prefix_hashes hash_block tokens n) else None
           | _ \<Rightarrow> None))
     in if computed = None \<and> gr_is_prompt r then query_block_hashes None replies else Inr computed)"

subsection \<open>Waiting\<close>

datatype 'a wait_result = Proceed 'a "tick list" | Cancel | Starved

text \<open>Waiting for the first instance; a prefill/decode request can be cancelled meanwhile.\<close>

fun wait_instances :: "bool \<Rightarrow> string \<Rightarrow> tick list \<Rightarrow> Manager \<Rightarrow> unit wait_result \<times> Manager" where
  "wait_instances pd r ticks m =
    (if mg_num_instances m \<noteq> 0 then (Proceed () ticks, m)
     else if pd \<and> r \<notin> waiting_pd_request_ids m
       then (Cancel, m\<lparr>pd_wait_events := dpop r (pd_wait_events m)\<rparr>)
     else case ticks of
         [] \<Rightarrow> (Starved, m)
       | tk # rest \<Rightarrow> wait_instances pd r rest (tk_others tk m))"

declare wait_instances.simps [simp del]

text \<open>Waiting until both roles have an instance.\<close>

fun wait_roles ::
  "string \<Rightarrow> block_hash list option \<Rightarrow> nat \<Rightarrow> nat \<Rightarrow> tick list \<Rightarrow> Manager \<Rightarrow>
    (string \<times> string) wait_result res \<times> Manager" where
  "wait_roles r hashes d1 d2 ticks m =
    (case select_v1_pd_instances (global_scheduler m) hashes d1 d2 of
       (Inl e, gs) \<Rightarrow> (Inl e, m\<lparr>global_scheduler := gs\<rparr>)
     | (Inr (Some pd), gs) \<Rightarrow> (Inr (Proceed pd ticks), m\<lparr>global_scheduler := gs\<rparr>)
     | (Inr None, gs) \<Rightarrow>
        let m = m\<lparr>global_scheduler := gs\<rparr> in
        case ticks of
          [] \<Rightarrow> (Inr Starved, m)
        | tk # rest \<Rightarrow>
           let m = tk_others tk m in
           if dget (pd_wait_events m) r = Some True
           then (Inr Cancel, m\<lparr>waiting_pd_request_ids := waiting_pd_request_ids m - {r},
                               pd_wait_events := dpop r (pd_wait_events m)\<rparr>)
           else if r \<notin> waiting_pd_request_ids m
           then (Inr Cancel, m\<lparr>pd_wait_events := dpop r (pd_wait_events m)\<rparr>)
           else wait_roles r hashes (tk_draw_prefill tk) (tk_draw_decode tk) rest m)"

declare wait_roles.simps [simp del]

subsection \<open>Submitting\<close>

definition record_request :: "Manager \<Rightarrow> string \<Rightarrow> string \<Rightarrow> string \<Rightarrow> Manager" where
  "record_request m r x server_info =
    m\<lparr>request_instance := dset r x (request_instance m),
      request_instances := (if dmem r (request_instances m) then request_instances m
                            else dset r {x} (request_instances m)),
      request_server_info := dset r server_info (request_server_info m)\<rparr>"

text \<open>The handler around the submission: a dead instance is removed, other errors propagate.\<close>

definition on_submit_error ::
  "Manager \<Rightarrow> string \<Rightarrow> py_error \<Rightarrow> instance_call list \<Rightarrow> gen_outcome res \<times> instance_call list \<times> Manager" where
  "on_submit_error m x e calls =
    (if e \<in> {RayActorError, KeyError} then (Inr InstanceDied, calls, scale_down1 m x) else (Inl e, calls, m))"

definition submit_plain ::
  "Manager \<Rightarrow> gen_request \<Rightarrow> string \<Rightarrow> pynum \<Rightarrow> unit res \<Rightarrow>
    gen_outcome res \<times> instance_call list \<times> Manager" where
  "submit_plain m r x steps reply =
    (if \<not> dmem x (mg_instances m) then on_submit_error m x KeyError []
     else case reply of
         Inl e \<Rightarrow> on_submit_error m x e [GenerateOn x (gr_id r) steps (gr_sampling r) PlainRequest]
       | Inr _ \<Rightarrow> (Inr Submitted, [GenerateOn x (gr_id r) steps (gr_sampling r) PlainRequest],
                   record_request m (gr_id r) x (gr_server_info r)))"

text \<open>Cancelling both halves after a failure; a missing actor raises before the next abort is sent.\<close>

definition cleanup_pd ::
  "Manager \<Rightarrow> string \<Rightarrow> string \<Rightarrow> string \<Rightarrow> py_error \<Rightarrow> py_error \<times> instance_call list" where
  "cleanup_pd m r p d e =
    (if \<not> dmem p (mg_instances m) then (KeyError, [])
     else if \<not> dmem d (mg_instances m) then (KeyError, [AbortOn p [r]])
     else (e, [AbortOn p [r], AbortOn d [r]]))"

definition submit_pd ::
  "Manager \<Rightarrow> gen_request \<Rightarrow> string \<Rightarrow> string \<Rightarrow> unit res \<Rightarrow> unit res \<Rightarrow>
    gen_outcome res \<times> instance_call list \<times> Manager" where
  "submit_pd m r p d prefill_reply decode_reply =
    (case (dget (instance_info (global_scheduler m)) p, dget (instance_info (global_scheduler m)) d) of
       (Some pinfo, Some dinfo) \<Rightarrow>
        (case valid_p2p_endpoint (kv_endpoint pinfo) of
           Inl e \<Rightarrow> on_submit_error m p e []
         | Inr pok \<Rightarrow>
            (case (if pok then valid_p2p_endpoint (kv_endpoint dinfo) else Inr False) of
               Inl e \<Rightarrow> on_submit_error m p e []
             | Inr False \<Rightarrow> submit_plain m r p PInf prefill_reply
             | Inr True \<Rightarrow>
                (case decorate_p2p_pd_request_id (gr_id r) (kv_endpoint dinfo) (kv_endpoint pinfo) of
                   Inl e \<Rightarrow> on_submit_error m p e []
                 | Inr shared \<Rightarrow>
                    let fail = (\<lambda>e calls. case cleanup_pd m (gr_id r) p d e of
                          (e, aborts) \<Rightarrow> on_submit_error m p e (calls @ aborts));
                        produce = GenerateOn p (gr_id r) PInf (map_option producer_sampling_params (gr_sampling r))
                          (Producer (the (kv_endpoint dinfo)) shared);
                        consume = GenerateOn d (gr_id r) PInf (gr_sampling r) (Consumer (the (kv_endpoint pinfo)) shared)
                    in if \<not> dmem p (mg_instances m) then fail KeyError []
                       else case prefill_reply of
                           Inl e \<Rightarrow> fail e [produce]
                         | Inr _ \<Rightarrow>
                            if \<not> dmem d (mg_instances m) then fail KeyError [produce]
                            else (case decode_reply of
                                Inl e \<Rightarrow> fail e [produce, consume]
                              | Inr _ \<Rightarrow> (Inr Submitted, [produce, consume],
                                  record_request (m\<lparr>request_instances := dset (gr_id r) {p, d} (request_instances m)\<rparr>)
                                    (gr_id r) d (gr_server_info r))))))
     | _ \<Rightarrow> on_submit_error m p KeyError [])"

subsection \<open>Generate\<close>

record gen_env =
  ge_query_replies :: "block_hash list option res list"
  ge_draw_prefill :: nat
  ge_draw_decode :: nat
  ge_draw_dispatch :: nat
  ge_prefill_reply :: "unit res"
  ge_decode_reply :: "unit res"

definition start_waiting :: "Manager \<Rightarrow> string \<Rightarrow> Manager" where
  "start_waiting m r =
    m\<lparr>waiting_pd_request_ids := insert r (waiting_pd_request_ids m),
      pd_wait_events := (if dmem r (pd_wait_events m) then pd_wait_events m
                         else dset r False (pd_wait_events m))\<rparr>"

definition stop_waiting :: "Manager \<Rightarrow> string \<Rightarrow> Manager" where
  "stop_waiting m r =
    m\<lparr>waiting_pd_request_ids := waiting_pd_request_ids m - {r},
      pd_wait_events := dpop r (pd_wait_events m)\<rparr>"

definition generate_pd ::
  "Manager \<Rightarrow> gen_request \<Rightarrow> block_hash list option \<Rightarrow> gen_env \<Rightarrow> tick list \<Rightarrow>
    gen_outcome res \<times> instance_call list \<times> Manager" where
  "generate_pd m r hashes e ticks =
    (case wait_roles (gr_id r) hashes (ge_draw_prefill e) (ge_draw_decode e) ticks m of
       (Inl err, m) \<Rightarrow> (Inl err, [], m)
     | (Inr Starved, m) \<Rightarrow> (Inr StillWaiting, [], m)
     | (Inr Cancel, m) \<Rightarrow> (Inr Cancelled, [], m)
     | (Inr (Proceed (p, d) _), m) \<Rightarrow>
        if gr_id r \<notin> waiting_pd_request_ids m
        then (Inr Cancelled, [], m\<lparr>pd_wait_events := dpop (gr_id r) (pd_wait_events m)\<rparr>)
        else submit_pd (stop_waiting m (gr_id r)) r p d (ge_prefill_reply e) (ge_decode_reply e))"

definition generate_plain ::
  "Manager \<Rightarrow> gen_request \<Rightarrow> block_hash list option \<Rightarrow> gen_env \<Rightarrow>
    gen_outcome res \<times> instance_call list \<times> Manager" where
  "generate_plain m r hashes e =
    (case gs_dispatch (global_scheduler m) hashes (ge_draw_dispatch e) of
       (Inl err, gs) \<Rightarrow> (Inl err, [], m\<lparr>global_scheduler := gs\<rparr>)
     | (Inr (x, steps), gs) \<Rightarrow> submit_plain (m\<lparr>global_scheduler := gs\<rparr>) r x steps (ge_prefill_reply e))"

definition generate ::
  "(block_hash option \<Rightarrow> int list \<Rightarrow> block_hash) \<Rightarrow> Manager \<Rightarrow> gen_request \<Rightarrow> gen_env \<Rightarrow> tick list \<Rightarrow>
    gen_outcome res \<times> instance_call list \<times> Manager" where
  "generate hash_block m r e ticks =
    (let pd_v1 = (is_vllm_v1 m \<and> mg_enable_pd_disagg m);
         m = (if pd_v1 then start_waiting m (gr_id r) else m)
     in case wait_instances pd_v1 (gr_id r) ticks m of
          (Starved, m) \<Rightarrow> (Inr StillWaiting, [], m)
        | (Cancel, m) \<Rightarrow> (Inr Cancelled, [], m)
        | (Proceed _ ticks, m) \<Rightarrow>
           (case request_block_hashes hash_block r (ge_query_replies e) of
              Inl err \<Rightarrow> (Inl err, [], m)
            | Inr hashes \<Rightarrow>
               if pd_v1 then generate_pd m r hashes e ticks else generate_plain m r hashes e))"

subsection \<open>Abort\<close>

definition mark_aborted :: "Manager \<Rightarrow> string \<Rightarrow> Manager" where
  "mark_aborted m r =
    m\<lparr>waiting_pd_request_ids := waiting_pd_request_ids m - {r},
      pd_wait_events := (if dmem r (pd_wait_events m) then dset r True (pd_wait_events m)
                         else pd_wait_events m)\<rparr>"

definition request_targets :: "Manager \<Rightarrow> string \<Rightarrow> string set" where
  "request_targets m r =
    (case dget (request_instances m) r of
       Some xs \<Rightarrow> xs
     | None \<Rightarrow> (case dget (request_instance m) r of Some x \<Rightarrow> {x} | None \<Rightarrow> {}))"

text \<open>
  The requests grouped by instance. Sets have no order of their own: \<open>order\<close> lists the
  instances as they are met.
\<close>

definition instance_requests :: "Manager \<Rightarrow> string list \<Rightarrow> string list \<Rightarrow> (string, string list) dict" where
  "instance_requests m order ids =
    [(x, rs). x \<leftarrow> order, rs \<leftarrow> [filter (\<lambda>r. x \<in> request_targets m r) ids], rs \<noteq> []]"

fun send_aborts ::
  "Manager \<Rightarrow> (string, string list) dict \<Rightarrow> unit res \<times> (string, string list) dict" where
  "send_aborts m [] = (Inr (), [])"
| "send_aborts m ((x, rs) # rest) =
    (if dmem x (mg_instances m)
     then (let (r, sent) = send_aborts m rest in (r, (x, rs) # sent))
     else (Inl KeyError, []))"

definition forget_one :: "Manager \<Rightarrow> string \<Rightarrow> Manager" where
  "forget_one m r =
    m\<lparr>request_instance := dpop r (request_instance m),
      request_instances := dpop r (request_instances m),
      request_server_info := dpop r (request_server_info m)\<rparr>"

definition abort_done_callback :: "Manager \<Rightarrow> string \<Rightarrow> string list \<Rightarrow> unit res \<Rightarrow> Manager" where
  "abort_done_callback m x rs ret =
    (if ret \<in> {Inl RayActorError, Inl KeyError} then scale_down1 m x else foldl forget_one m rs)"

definition manager_abort ::
  "Manager \<Rightarrow> string list \<Rightarrow> string list \<Rightarrow> (string \<Rightarrow> unit res) \<Rightarrow>
    unit res \<times> instance_call list \<times> Manager" where
  "manager_abort m ids order replies =
    (let m = foldl mark_aborted m ids;
         (r, sent) = send_aborts m (instance_requests m order ids)
     in (r, map (\<lambda>(x, rs). AbortOn x rs) sent,
         foldl (\<lambda>m (x, rs). abort_done_callback m x rs (replies x)) m sent))"

subsection \<open>Rebuilding the request tables\<close>

fun request_replies ::
  "Manager \<Rightarrow> (string \<times> string list res) list \<Rightarrow> (string \<times> string list res) list \<times> Manager" where
  "request_replies m [] = ([], m)"
| "request_replies m ((x, ret) # rest) =
    (if ret = Inl RayActorError then request_replies (scale_down1 m x) rest
     else (let (kept, m) = request_replies m rest in ((x, ret) # kept, m)))"

definition add_active :: "string \<Rightarrow> (string, string set) dict \<Rightarrow> string \<Rightarrow> (string, string set) dict" where
  "add_active x d r = dset r (insert x (dget_default d r {})) d"

fun active_by_request ::
  "(string, string set) dict \<Rightarrow> (string \<times> string list res) list \<Rightarrow> (string, string set) dict res" where
  "active_by_request d [] = Inr d"
| "active_by_request d ((x, Inr rs) # rest) = active_by_request (foldl (add_active x) d rs) rest"
| "active_by_request d ((x, Inl _) # rest) = Inl TypeError"

text \<open>\<open>pick\<close> stands for the element of a set its iteration meets first.\<close>

definition reconcile_request_instances ::
  "Manager \<Rightarrow> (string set \<Rightarrow> string) \<Rightarrow> (string \<times> string list res) list \<Rightarrow> unit res \<times> Manager" where
  "reconcile_request_instances m pick replies =
    (case active_by_request [] replies of
       Inl e \<Rightarrow> (Inl e, m)
     | Inr active \<Rightarrow>
        (Inr (), m\<lparr>request_instance := map (\<lambda>(r, xs). (r, pick xs)) active,
                  request_instances := active,
                  request_server_info := filter (\<lambda>(r, _). dmem r active) (request_server_info m)\<rparr>))"

definition get_request_instance ::
  "Manager \<Rightarrow> (string set \<Rightarrow> string) \<Rightarrow> (string \<times> string list res) list \<Rightarrow> unit res \<times> Manager" where
  "get_request_instance m pick replies =
    (let (kept, m) = request_replies m replies in reconcile_request_instances m pick kept)"

text \<open>Which of the two instances of a failed migration are dead.\<close>

definition check_instance_error ::
  "Manager \<Rightarrow> string \<times> string \<Rightarrow> (string \<Rightarrow> unit res) \<Rightarrow> (bool \<times> bool) res" where
  "check_instance_error m pair ready =
    (case pair of (x, y) \<Rightarrow>
       if dmem x (mg_instances m) \<and> dmem y (mg_instances m)
       then Inr (ready x \<in> {Inl RayActorError, Inl KeyError}, ready y \<in> {Inl RayActorError, Inl KeyError})
       else Inl KeyError)"

subsection \<open>Prefill/decode requests\<close>

text \<open>A reported endpoint \<open>host:port\<close> as the instances publish it.\<close>

definition endpoint_ok :: "InstanceInfo \<Rightarrow> bool" where
  "endpoint_ok i \<longleftrightarrow> (\<exists>h n. kv_endpoint i = Some (h @ CHR '':'' # nat_str n)
    \<and> h \<noteq> [] \<and> CHR ''_'' \<notin> set h \<and> 0 < n \<and> n < 65536)"

lemma endpoint_ok_valid: "endpoint_ok i \<Longrightarrow> valid_p2p_endpoint (kv_endpoint i) = Inr True"
  by (auto simp: endpoint_ok_def valid_endpoint)

lemma endpoint_ok_shared:
  assumes "endpoint_ok i" and "endpoint_ok j" and "find_sub ''___'' r = None"
  shows "\<exists>shared. decorate_p2p_pd_request_id r (kv_endpoint j) (kv_endpoint i) = Inr shared
    \<and> strip_p2p_request_id shared = r"
proof -
  obtain h n where i: "kv_endpoint i = Some (h @ CHR '':'' # nat_str n)" "h \<noteq> []" "CHR ''_'' \<notin> set h" "0 < n" "n < 65536"
    using assms(1) by (auto simp: endpoint_ok_def)
  obtain g k where j: "kv_endpoint j = Some (g @ CHR '':'' # nat_str k)" "g \<noteq> []" "CHR ''_'' \<notin> set g" "0 < k" "k < 65536"
    using assms(2) by (auto simp: endpoint_ok_def)
  show ?thesis using decorated_pair_id[OF assms(3) j(2-5) i(2-5)] unfolding i(1) j(1) by blast
qed

definition pd_calls :: "gen_request \<Rightarrow> string \<Rightarrow> InstanceInfo \<Rightarrow> string \<Rightarrow> InstanceInfo \<Rightarrow> string \<Rightarrow> instance_call list" where
  "pd_calls r p i d j shared =
    [GenerateOn p (gr_id r) PInf (map_option producer_sampling_params (gr_sampling r))
       (Producer (the (kv_endpoint j)) shared),
     GenerateOn d (gr_id r) PInf (gr_sampling r) (Consumer (the (kv_endpoint i)) shared)]"

lemma submit_pd_both:
  assumes "dget (instance_info (global_scheduler m)) p = Some i" and "dget (instance_info (global_scheduler m)) d = Some j"
    and "endpoint_ok i" and "endpoint_ok j" and "find_sub ''___'' (gr_id r) = None"
    and "dmem p (mg_instances m)" and "dmem d (mg_instances m)"
  shows "\<exists>shared. strip_p2p_request_id shared = gr_id r
    \<and> submit_pd m r p d (Inr ()) (Inr ()) = (Inr Submitted, pd_calls r p i d j shared,
        record_request (m\<lparr>request_instances := dset (gr_id r) {p, d} (request_instances m)\<rparr>) (gr_id r) d (gr_server_info r))"
proof -
  obtain shared where "decorate_p2p_pd_request_id (gr_id r) (kv_endpoint j) (kv_endpoint i) = Inr shared"
      and strip: "strip_p2p_request_id shared = gr_id r"
    using endpoint_ok_shared[OF assms(3-5)] by blast
  then have "submit_pd m r p d (Inr ()) (Inr ()) = (Inr Submitted, pd_calls r p i d j shared,
        record_request (m\<lparr>request_instances := dset (gr_id r) {p, d} (request_instances m)\<rparr>) (gr_id r) d (gr_server_info r))"
    using assms by (simp add: submit_pd_def endpoint_ok_valid pd_calls_def Let_def)
  with strip show ?thesis by blast
qed

lemma record_request_targets:
  "request_targets (record_request (m\<lparr>request_instances := dset r xs (request_instances m)\<rparr>) r d s) r = xs"
  by (simp add: request_targets_def record_request_def dget_dset dkeys_dset)

lemma mark_aborted_frame [simp]:
  "mg_instances (mark_aborted m r) = mg_instances m"
  "request_instance (mark_aborted m r) = request_instance m"
  "request_instances (mark_aborted m r) = request_instances m"
  "mg_num_instances (mark_aborted m r) = mg_num_instances m"
  by (simp_all add: mark_aborted_def)

lemma mark_aborted_targets [simp]: "request_targets (mark_aborted m r) = request_targets m"
  unfolding request_targets_def mark_aborted_frame by (rule refl)

lemma send_aborts_present:
  "\<forall>x\<in>fst ` set d. dmem x (mg_instances m) \<Longrightarrow> send_aborts m d = (Inr (), d)"
proof (induction d)
  case (Cons e d)
  then show ?case by (cases e) (simp del: dmem_iff)
qed simp

lemma forget_one_targets: "request_targets (forget_one m r) r = {}"
    "dget (request_server_info (forget_one m r)) r = None"
  by (simp_all add: forget_one_def request_targets_def dget_dpop)

lemma abort_callbacks_forget:
  assumes "order \<noteq> []" and "\<forall>x. replies x = Inr ()"
  shows "request_targets (foldl (\<lambda>m (x, rs). abort_done_callback m x rs (replies x)) m (map (\<lambda>x. (x, [r])) order)) r = {}
    \<and> dget (request_server_info (foldl (\<lambda>m (x, rs). abort_done_callback m x rs (replies x)) m (map (\<lambda>x. (x, [r])) order))) r = None"
  using assms(1)
proof (induction order arbitrary: m)
  case (Cons x order)
  show ?case
  proof (cases "order = []")
    case True
    then show ?thesis using assms(2) by (simp add: abort_done_callback_def forget_one_targets)
  next
    case False
    then show ?thesis using Cons.IH by simp
  qed
qed simp

lemma abort_reaches_targets:
  assumes "distinct order" and "set order = request_targets m r" and "order \<noteq> []"
    and "\<forall>x\<in>set order. dmem x (mg_instances m)" and "\<forall>x. replies x = Inr ()"
  shows "\<exists>m'. manager_abort m [r] order replies = (Inr (), map (\<lambda>x. AbortOn x [r]) order, m')
    \<and> request_targets m' r = {} \<and> dget (request_server_info m') r = None"
proof -
  have "instance_requests (mark_aborted m r) order [r] = map (\<lambda>x. (x, [r])) order"
  proof -
    have "\<forall>x\<in>set order. x \<in> request_targets m r" using assms(2) by simp
    then show ?thesis unfolding instance_requests_def by (induction order) auto
  qed
  then show ?thesis
    using assms(4) send_aborts_present[of "map (\<lambda>x. (x, [r])) order" "mark_aborted m r"]
      abort_callbacks_forget[OF assms(3,5), where m = "mark_aborted m r" and r = r]
    by (auto simp: manager_abort_def Let_def case_prod_unfold comp_def image_def)
qed

lemma wait_instances_ready: "mg_num_instances m \<noteq> 0 \<Longrightarrow> wait_instances pd r ticks m = (Proceed () ticks, m)"
  by (simp add: wait_instances.simps)

lemma start_waiting_frame [simp]:
  "mg_instances (start_waiting m r) = mg_instances m" "global_scheduler (start_waiting m r) = global_scheduler m"
  "mg_num_instances (start_waiting m r) = mg_num_instances m" "r \<in> waiting_pd_request_ids (start_waiting m r)"
  by (simp_all add: start_waiting_def)

lemma stop_waiting_frame [simp]:
  "mg_instances (stop_waiting m r) = mg_instances m" "global_scheduler (stop_waiting m r) = global_scheduler m"
  by (simp_all add: stop_waiting_def)

lemma select_pd_infos: "instance_info (snd (select_v1_pd_instances s h r1 r2)) = instance_info s"
  by (simp add: select_v1_pd_instances_def Let_def case_prod_unfold split: sum.split)

lemma record_request_members [simp]: "mg_instances (record_request m r x s) = mg_instances m"
  by (simp add: record_request_def)

lemma reported_members: "mg_inv m \<Longrightarrow> dget (instance_info (global_scheduler m)) x = Some i \<Longrightarrow> dmem x (mg_instances m)"
  by (drule dget_dmem) (simp add: mg_inv_def gs_inv_def)

lemma role_ids_info:
  assumes "mg_inv m" and "x \<in> set (role_ids t (instance_info (global_scheduler m)))"
  obtains i where "dget (instance_info (global_scheduler m)) x = Some i" "dmem x (mg_instances m)"
  using assms role_ids_iff[of "instance_info (global_scheduler m)" x t] reported_members[OF assms(1)]
  by (auto simp: mg_inv_def gs_inv_def)

lemma generate_pd_submits:
  assumes "mg_inv m" and "is_vllm_v1 m" and "mg_enable_pd_disagg m"
    and "dispatch_policy (dispatch_scheduler (global_scheduler m)) \<in> {Load, Queue}"
    and "0 < topk_random_dispatch (dispatch_scheduler (global_scheduler m))"
    and "role_ids PREFILL (instance_info (global_scheduler m)) \<noteq> []"
    and "role_ids DECODE (instance_info (global_scheduler m)) \<noteq> []"
    and "\<forall>i\<in>snd ` set (instance_info (global_scheduler m)). endpoint_ok i"
    and "find_sub ''___'' (gr_id r) = None"
    and "request_block_hashes hash_block r (ge_query_replies e) = Inr hashes"
    and "ge_prefill_reply e = Inr ()" and "ge_decode_reply e = Inr ()"
  shows "\<exists>p i d j shared m'. generate hash_block m r e [] = (Inr Submitted, pd_calls r p i d j shared, m')
    \<and> p \<noteq> d \<and> p \<in> set (role_ids PREFILL (instance_info (global_scheduler m)))
    \<and> d \<in> set (role_ids DECODE (instance_info (global_scheduler m)))
    \<and> strip_p2p_request_id shared = gr_id r \<and> request_targets m' (gr_id r) = {p, d}
    \<and> dget (request_instance m') (gr_id r) = Some d \<and> mg_instances m' = mg_instances m"
proof -
  let ?gs = "global_scheduler m" and ?m = "start_waiting m (gr_id r)"
  obtain p d where sel: "fst (select_v1_pd_instances ?gs hashes (ge_draw_prefill e) (ge_draw_decode e)) = Inr (Some (p, d))"
      and pd: "p \<noteq> d" "p \<in> set (role_ids PREFILL (instance_info ?gs))" "d \<in> set (role_ids DECODE (instance_info ?gs))"
    using select_pd_roles[OF mg_inv_gsD[OF assms(1)] assms(4,5), of hashes "ge_draw_prefill e" "ge_draw_decode e"] assms(6,7)
    by auto
  obtain i where i: "dget (instance_info ?gs) p = Some i" "dmem p (mg_instances m)" by (rule role_ids_info[OF assms(1) pd(2)])
  obtain j where j: "dget (instance_info ?gs) d = Some j" "dmem d (mg_instances m)" by (rule role_ids_info[OF assms(1) pd(3)])
  have ends: "endpoint_ok i" "endpoint_ok j"
    using assms(8) i(1) j(1) dget_in_values by fastforce+
  define gs where "gs = snd (select_v1_pd_instances ?gs hashes (ge_draw_prefill e) (ge_draw_decode e))"
  let ?w = "stop_waiting (?m\<lparr>global_scheduler := gs\<rparr>) (gr_id r)"
  have roles: "wait_roles (gr_id r) hashes (ge_draw_prefill e) (ge_draw_decode e) [] ?m
      = (Inr (Proceed (p, d) []), ?m\<lparr>global_scheduler := gs\<rparr>)"
    using sel by (simp add: wait_roles.simps gs_def case_prod_unfold)
  have "mg_num_instances m \<noteq> 0" using assms(1) i(2) by (auto simp: mg_inv_def)
  then have gen: "generate hash_block m r e [] = submit_pd ?w r p d (Inr ()) (Inr ())"
    using assms(2,3,10-12) roles by (simp add: generate_def wait_instances_ready generate_pd_def)
  have "\<exists>shared. strip_p2p_request_id shared = gr_id r
    \<and> submit_pd ?w r p d (Inr ()) (Inr ()) = (Inr Submitted, pd_calls r p i d j shared,
        record_request (?w\<lparr>request_instances := dset (gr_id r) {p, d} (request_instances ?w)\<rparr>) (gr_id r) d (gr_server_info r))"
    using i j ends assms(9) by (intro submit_pd_both) (simp_all add: gs_def select_pd_infos)
  then obtain shared where "strip_p2p_request_id shared = gr_id r"
    and "submit_pd ?w r p d (Inr ()) (Inr ()) = (Inr Submitted, pd_calls r p i d j shared,
        record_request (?w\<lparr>request_instances := dset (gr_id r) {p, d} (request_instances ?w)\<rparr>) (gr_id r) d (gr_server_info r))"
    by blast
  then show ?thesis unfolding gen using pd record_request_targets[where m = ?w and r = "gr_id r" and xs = "{p, d}"]
    by (intro exI conjI) (assumption | simp add: record_request_def dget_dset)+
qed


subsection \<open>Cancelling a waiting request\<close>

text \<open>An abort of one request as another task runs it while the request waits.\<close>

definition abort_tick :: "string \<Rightarrow> string list \<Rightarrow> (string \<Rightarrow> unit res) \<Rightarrow> tick" where
  "abort_tick r order replies =
    \<lparr>tk_others = \<lambda>m. snd (snd (manager_abort m [r] order replies)), tk_draw_prefill = 0, tk_draw_decode = 0\<rparr>"

lemma abort_untargeted:
  assumes "request_targets m r = {}"
  shows "manager_abort m [r] order replies = (Inr (), [], mark_aborted m r)"
proof -
  have "instance_requests (mark_aborted m r) order [r] = []"
    unfolding instance_requests_def mark_aborted_targets by (induction order) (simp_all add: assms)
  then show ?thesis by (simp add: manager_abort_def)
qed

lemma mark_aborted_waiting: "r \<notin> waiting_pd_request_ids (mark_aborted m r)"
  by (simp add: mark_aborted_def)

lemma start_waiting_targets: "request_targets (start_waiting m r) r = request_targets m r"
  unfolding request_targets_def by (simp add: start_waiting_def cong: option.case_cong)

lemma wait_instances_cancelled:
  assumes "mg_num_instances s = 0" and "request_targets s r = {}" and "r \<in> waiting_pd_request_ids s"
  shows "wait_instances True r (abort_tick r order replies # ticks) s
    = (Cancel, (mark_aborted s r)\<lparr>pd_wait_events := dpop r (pd_wait_events (mark_aborted s r))\<rparr>)"
  using assms
  by (simp add: wait_instances.simps[of _ _ "_ # _"] abort_tick_def abort_untargeted)
    (simp add: wait_instances.simps mark_aborted_waiting)

lemma wait_roles_cancelled:
  assumes "role_ids PREFILL (instance_info (global_scheduler s)) = [] \<or> role_ids DECODE (instance_info (global_scheduler s)) = []"
    and "request_targets s r = {}" and "dmem r (pd_wait_events s)"
  shows "wait_roles r hashes d1 d2 (abort_tick r order replies # ticks) s
    = (Inr Cancel, stop_waiting (mark_aborted s r) r)"
proof -
  have "select_v1_pd_instances (global_scheduler s) hashes d1 d2 = (Inr None, global_scheduler s)"
    using assms(1) by (auto simp: select_v1_pd_instances_def)
  moreover have "dget (pd_wait_events (mark_aborted s r)) r = Some True"
    using assms(3) by (simp add: mark_aborted_def dget_dset)
  ultimately show ?thesis
    using assms(2) by (simp add: wait_roles.simps[of _ _ _ _ "_ # _"] abort_tick_def abort_untargeted stop_waiting_def Let_def)
qed

lemma start_waiting_event: "dmem r (pd_wait_events (start_waiting m r))"
  by (simp add: start_waiting_def dkeys_dset)

lemma targets_ignore_waiting:
  "request_targets (m\<lparr>pd_wait_events := v\<rparr>) r = request_targets m r"
  "request_targets (stop_waiting m r) r = request_targets m r"
  unfolding request_targets_def by (simp_all add: stop_waiting_def cong: option.case_cong)

text \<open>
  An abort reaches a prefill/decode request that has no instance yet. While no instance
  is registered, or one of the two roles has none, the request waits; once an abort runs,
  it ends without a call to any instance and leaves no waiting mark and no event behind.
\<close>

theorem abort_cancels_waiting_request:
  assumes "is_vllm_v1 m" and "mg_enable_pd_disagg m" and "request_targets m (gr_id r) = {}"
    and "request_block_hashes hash_block r (ge_query_replies e) = Inr hashes"
    and "role_ids PREFILL (instance_info (global_scheduler m)) = [] \<or> role_ids DECODE (instance_info (global_scheduler m)) = []"
  shows "\<exists>m'. generate hash_block m r e (abort_tick (gr_id r) order replies # ticks) = (Inr Cancelled, [], m')
    \<and> gr_id r \<notin> waiting_pd_request_ids m' \<and> dget (pd_wait_events m') (gr_id r) = None
    \<and> request_targets m' (gr_id r) = {}"
proof -
  define s where "s = start_waiting m (gr_id r)"
  have s: "request_targets s (gr_id r) = {}" "gr_id r \<in> waiting_pd_request_ids s" "dmem (gr_id r) (pd_wait_events s)"
      "global_scheduler s = global_scheduler m" "mg_num_instances s = mg_num_instances m"
    using assms(3) by (simp_all add: s_def start_waiting_targets start_waiting_event)
  have gen: "generate hash_block m r e ts = (case wait_instances True (gr_id r) ts s of
      (Starved, m) \<Rightarrow> (Inr StillWaiting, [], m)
    | (Cancel, m) \<Rightarrow> (Inr Cancelled, [], m)
    | (Proceed _ ts, m) \<Rightarrow> generate_pd m r hashes e ts)" for ts
    using assms(1,2,4) by (simp add: generate_def s_def split: prod.split wait_result.split)
  show ?thesis
  proof (cases "mg_num_instances m = 0")
    case True
    then show ?thesis
      using gen wait_instances_cancelled[OF _ s(1,2)] s
      by (simp add: mark_aborted_waiting targets_ignore_waiting dget_dpop)
  next
    case False
    have "wait_roles (gr_id r) hashes d1 d2 (abort_tick (gr_id r) order replies # ticks) s
      = (Inr Cancel, stop_waiting (mark_aborted s (gr_id r)) (gr_id r))" for d1 d2
      using wait_roles_cancelled[OF _ s(1,3)] assms(5) s(4) by simp
    with False show ?thesis
      using gen s by (simp add: wait_instances_ready generate_pd_def targets_ignore_waiting)
        (simp add: stop_waiting_def dget_dpop)
  qed
qed

subsection \<open>Reconciliation\<close>

definition active_on :: "(string \<times> string list res) list \<Rightarrow> string \<Rightarrow> string set" where
  "active_on replies r = {x. \<exists>rs. (x, Inr rs) \<in> set replies \<and> r \<in> set rs}"

lemma add_active_get:
  "dget_default (add_active x d r) q {} = (if q = r then insert x (dget_default d q {}) else dget_default d q {})"
  "dmem q (add_active x d r) \<longleftrightarrow> q = r \<or> dmem q d"
  by (simp_all add: add_active_def dget_default_dset dkeys_dset)

lemma add_actives_get:
  "dget_default (foldl (add_active x) d rs) q {} = dget_default d q {} \<union> (if q \<in> set rs then {x} else {})"
  "dmem q (foldl (add_active x) d rs) \<longleftrightarrow> q \<in> set rs \<or> dmem q d"
  by (induction rs arbitrary: d) (auto simp: add_active_get simp del: dmem_iff)

lemma active_by_request_get:
  assumes "\<forall>(x, ret)\<in>set replies. is_ok ret"
  shows "\<exists>active. active_by_request d replies = Inr active
    \<and> (\<forall>r. dget_default active r {} = dget_default d r {} \<union> active_on replies r)
    \<and> (\<forall>r. dmem r active \<longleftrightarrow> dmem r d \<or> active_on replies r \<noteq> {})"
  using assms
proof (induction replies arbitrary: d)
  case Nil
  then show ?case by (simp add: active_on_def)
next
  case (Cons e replies)
  obtain x rs where e: "e = (x, Inr rs)" using Cons.prems by (cases e) (auto simp: is_ok_iff)
  have on: "active_on (e # replies) r = (if r \<in> set rs then {x} else {}) \<union> active_on replies r" for r
    by (auto simp: active_on_def e)
  obtain active where a: "active_by_request (foldl (add_active x) d rs) replies = Inr active"
      "\<forall>r. dget_default active r {} = dget_default (foldl (add_active x) d rs) r {} \<union> active_on replies r"
      "\<forall>r. dmem r active \<longleftrightarrow> dmem r (foldl (add_active x) d rs) \<or> active_on replies r \<noteq> {}"
    using Cons.IH[of "foldl (add_active x) d rs"] Cons.prems by auto
  have "active_by_request d (e # replies) = Inr active" using a(1) by (simp add: e)
  moreover have "dget_default active r {} = dget_default d r {} \<union> active_on (e # replies) r" for r
    using a(2) by (simp add: on add_actives_get(1) Un_assoc)
  moreover have "dmem r active \<longleftrightarrow> dmem r d \<or> active_on (e # replies) r \<noteq> {}" for r
    by (simp only: a(3)[rule_format] on add_actives_get(2)) (cases "r \<in> set rs"; simp)
  ultimately show ?case by blast
qed

lemma dget_map_values: "dget (map (\<lambda>(k, v). (k, f v)) d) k = map_option f (dget d k)"
  by (induction d) (auto)

lemma dget_filter_keys: "dget (filter (\<lambda>(k, _). P k) d) k = (if P k then dget d k else None)"
  by (induction d) (auto)

text \<open>
  Rebuilding the request tables from the answers of the instances. A request is kept
  exactly when some instance reports it; its instances are then all that report it, so
  that an abort reaches both halves of a prefill/decode request, its routing entry is one
  of them, and its server information survives. Everything else is forgotten.
\<close>

theorem reconcile_rebuilds_tables:
  assumes "\<forall>(x, ret)\<in>set replies. is_ok ret" and "\<forall>xs. xs \<noteq> {} \<longrightarrow> pick xs \<in> xs"
  shows "\<exists>m'. get_request_instance m pick replies = (Inr (), m')
    \<and> (\<forall>r. if active_on replies r = {}
         then dget (request_instance m') r = None \<and> dget (request_server_info m') r = None \<and> request_targets m' r = {}
         else dget (request_server_info m') r = dget (request_server_info m) r
           \<and> request_targets m' r = active_on replies r
           \<and> (\<exists>x\<in>active_on replies r. dget (request_instance m') r = Some x))"
proof -
  obtain active where a: "active_by_request [] replies = Inr active"
      "\<forall>r. dget_default active r {} = active_on replies r" "\<forall>r. dmem r active \<longleftrightarrow> active_on replies r \<noteq> {}"
    using active_by_request_get[OF assms(1), of "[]"] by (auto simp: dget_default_def)
  have kept: "request_replies m replies = (replies, m)"
    using assms(1) by (induction replies) (auto simp: is_ok_iff)
  define m' where "m' = m\<lparr>request_instance := map (\<lambda>(r, xs). (r, pick xs)) active, request_instances := active,
      request_server_info := filter (\<lambda>(r, _). dmem r active) (request_server_info m)\<rparr>"
  have "get_request_instance m pick replies = (Inr (), m')"
    by (simp add: get_request_instance_def kept reconcile_request_instances_def a(1) m'_def)
  moreover have "if active_on replies r = {}
         then dget (request_instance m') r = None \<and> dget (request_server_info m') r = None \<and> request_targets m' r = {}
         else dget (request_server_info m') r = dget (request_server_info m) r
           \<and> request_targets m' r = active_on replies r
           \<and> (\<exists>x\<in>active_on replies r. dget (request_instance m') r = Some x)" for r
  proof (cases "dget active r")
    case None
    then have "\<not> dmem r active" by (simp add: dget_None_iff)
    then have "active_on replies r = {}" using a(3) by blast
    with None \<open>\<not> dmem r active\<close> show ?thesis
      by (simp add: m'_def dget_map_values dget_filter_keys request_targets_def)
  next
    case (Some xs)
    then have "active_on replies r \<noteq> {}" "dmem r active" using a(3) dget_dmem by metis+
    moreover have "xs = active_on replies r" using a(2) Some by (metis dget_default_def option.simps(5))
    ultimately show ?thesis using Some assms(2)
      by (simp add: m'_def dget_map_values dget_filter_keys request_targets_def)
  qed
  ultimately show ?thesis by blast
qed

subsection \<open>Examples\<close>

text \<open>A manager of the V1 backend with one prefill and one decode instance that have reported.\<close>

definition example_report :: "string \<Rightarrow> InstanceType \<Rightarrow> string \<Rightarrow> InstanceInfo" where
  "example_report x t e =
    default_InstanceInfo\<lparr>instance_id := x, instance_type := Some t, kv_endpoint := Some e\<rparr>"

definition example_launcher :: Launcher where
  "example_launcher = (case init_Launcher example_pd_args None of Inr l \<Rightarrow> l)"

definition example_manager :: Manager where
  "example_manager =
    (base_Manager example_pd_args (Some (GLOBAL, VLLM)) True
       (gs_update_instance_infos example_scheduler
         [example_report ''p'' PREFILL (''10.0.0.1'' @ CHR '':'' # nat_str 14579),
          example_report ''d'' DECODE (''10.0.0.2'' @ CHR '':'' # nat_str 14580)]) example_launcher)
     \<lparr>mg_instances := [(''p'', ''instance_p''), (''d'', ''instance_d'')], mg_num_instances := 2,
      instance_migrating := [(''p'', False), (''d'', False)],
      instance_last_logged_empty := [(''p'', False), (''d'', False)]\<rparr>"

lemma example_manager_facts:
  "mg_inv example_manager" "is_vllm_v1 example_manager" "mg_enable_pd_disagg example_manager"
  "dispatch_policy (dispatch_scheduler (global_scheduler example_manager)) \<in> {Load, Queue}"
  "0 < topk_random_dispatch (dispatch_scheduler (global_scheduler example_manager))"
  "role_ids PREFILL (instance_info (global_scheduler example_manager)) = [''p'']"
  "role_ids DECODE (instance_info (global_scheduler example_manager)) = [''d'']"
  "\<forall>i\<in>snd ` set (instance_info (global_scheduler example_manager)). endpoint_ok i"
  "request_targets example_manager r = {}"
proof -
  have "gs_inv (global_scheduler example_manager)"
    unfolding example_manager_def by (simp add: base_Manager_def gs_update_inv example_scheduler_facts(1) del: gs_update_instance_infos.simps)
  then show "mg_inv example_manager"
    by (simp add: mg_inv_def members_ok_def example_manager_def base_Manager_def example_scheduler_def Let_def)
  have "endpoint_ok (example_report x t (''10.0.0.1'' @ CHR '':'' # nat_str 14579))"
      "endpoint_ok (example_report x t (''10.0.0.2'' @ CHR '':'' # nat_str 14580))" for x t
    unfolding endpoint_ok_def example_report_def
    by (rule exI[of _ "''10.0.0.1''"], rule exI[of _ 14579], simp) (rule exI[of _ "''10.0.0.2''"], rule exI[of _ 14580], simp)
  then show "\<forall>i\<in>snd ` set (instance_info (global_scheduler example_manager)). endpoint_ok i"
    by (simp add: example_manager_def base_Manager_def example_scheduler_def Let_def example_report_def)
qed (simp_all add: example_manager_def base_Manager_def example_scheduler_def Let_def example_report_def role_ids_def
    request_targets_def example_pd_args_facts)

definition example_request :: gen_request where
  "example_request = \<lparr>gr_id = ''r1'', gr_server_info = ''s'', gr_block_hashes = None, gr_token_ids = None,
     gr_block_size = None, gr_is_prompt = False, gr_sampling = None\<rparr>"

definition example_env :: gen_env where
  "example_env = \<lparr>ge_query_replies = [], ge_draw_prefill = 0, ge_draw_decode = 0, ge_draw_dispatch = 0,
     ge_prefill_reply = Inr (), ge_decode_reply = Inr ()\<rparr>"

lemma example_request_facts:
  "find_sub ''___'' (gr_id example_request) = None"
  "request_block_hashes (\<lambda>_ _. HashInt 0) example_request (ge_query_replies example_env) = Inr None"
  "ge_prefill_reply example_env = Inr ()" "ge_decode_reply example_env = Inr ()"
  by (simp_all add: example_request_def example_env_def request_block_hashes_def startswith_def)


definition idle_manager :: Manager where
  "idle_manager = base_Manager example_pd_args (Some (GLOBAL, VLLM)) True (example_scheduler\<lparr>instance_info := []\<rparr>) example_launcher"

theorem abort_cancels_waiting_request_witness:
  "\<exists>m'. generate (\<lambda>_ _. HashInt 0) idle_manager example_request example_env [abort_tick ''r1'' [] (\<lambda>_. Inr ())]
      = (Inr Cancelled, [], m')"
proof -
  have id: "gr_id example_request = ''r1''" by (simp add: example_request_def)
  have "is_vllm_v1 idle_manager" "mg_enable_pd_disagg idle_manager" "request_targets idle_manager (gr_id example_request) = {}"
      "role_ids PREFILL (instance_info (global_scheduler idle_manager)) = []"
    by (simp_all add: idle_manager_def base_Manager_def example_pd_args_facts request_targets_def role_ids_def)
  then show ?thesis
    using abort_cancels_waiting_request[OF _ _ _ example_request_facts(2), of idle_manager "[]" "\<lambda>_. Inr ()" "[]"]
    unfolding id by blast
qed

definition some_of :: "string set \<Rightarrow> string" where
  "some_of xs = (if ''d'' \<in> xs then ''d'' else SOME x. x \<in> xs)"

theorem reconcile_rebuilds_tables_witness:
  "\<exists>m'. get_request_instance example_manager some_of [(''p'', Inr [''r1'']), (''d'', Inr [''r1'', ''r2''])] = (Inr (), m')
    \<and> request_targets m' ''r1'' = {''p'', ''d''} \<and> request_targets m' ''r3'' = {}"
proof -
  define rep :: "(string \<times> string list res) list" where "rep = [(''p'', Inr [''r1'']), (''d'', Inr [''r1'', ''r2''])]"
  have "\<forall>xs. xs \<noteq> {} \<longrightarrow> some_of xs \<in> xs" by (simp add: some_of_def some_in_eq)
  moreover have "\<forall>(x, ret)\<in>set rep. is_ok ret" by (simp add: rep_def is_ok_iff)
  ultimately obtain m' where "get_request_instance example_manager some_of rep = (Inr (), m')"
      and t: "\<forall>r. if active_on rep r = {} then request_targets m' r = {} else request_targets m' r = active_on rep r"
    using reconcile_rebuilds_tables[of rep some_of example_manager] by (metis (no_types, lifting))
  moreover have "active_on rep ''r1'' = {''p'', ''d''}" "active_on rep ''r3'' = {}"
    by (auto simp: active_on_def rep_def)
  ultimately show ?thesis using t[rule_format, of "''r1''"] t[rule_format, of "''r3''"] unfolding rep_def by auto
qed

end
