(* ===== verification/Manager_Migration.thy ===== *)
theory Manager_Migration
  imports Manager_Requests
begin

text \<open>
  The migrations the manager drives (\<open>manager.py\<close>): the rounds of the original backend,
  where the source instance moves a request by itself, and the rounds of the V1 backend,
  where the manager runs every step of the hand-over. A remote call either succeeds or
  raises; the trace of a migration lists the calls made with their outcome.
\<close>

subsection \<open>Rounds of the original backend\<close>

text \<open>Starting the tasks of a round: a pair is skipped while one of its instances is busy.\<close>

fun start_migrations ::
  "Manager \<Rightarrow> (string \<times> string) list \<Rightarrow> unit res \<times> (string \<times> string) list \<times> Manager" where
  "start_migrations m [] = (Inr (), [], m)"
| "start_migrations m ((x, y) # rest) =
    (case dget (instance_migrating m) x of
       None \<Rightarrow> (Inl KeyError, [], m)
     | Some True \<Rightarrow> start_migrations m rest
     | Some False \<Rightarrow>
        (case dget (instance_migrating m) y of
           None \<Rightarrow> (Inl KeyError, [], m)
         | Some True \<Rightarrow> start_migrations m rest
         | Some False \<Rightarrow>
            let m = m\<lparr>instance_migrating := dset y True (dset x True (instance_migrating m))\<rparr> in
            if \<not> dmem x (mg_instances m) then (Inl KeyError, [], m)
            else (let (r, started, m) = start_migrations m rest in (r, (x, y) # started, m))))"

definition migrate_round ::
  "Manager \<Rightarrow> PairMigrationConstraints \<Rightarrow> unit res \<times> (string \<times> string) list \<times> Manager" where
  "migrate_round m t =
    (case gs_pair_migration (global_scheduler m) t of
       (Inl e, gs) \<Rightarrow> (Inl e, [], m\<lparr>global_scheduler := gs\<rparr>)
     | (Inr pairs, gs) \<Rightarrow> start_migrations (m\<lparr>global_scheduler := gs\<rparr>) pairs)"

definition clear_flag :: "string \<Rightarrow> Manager \<Rightarrow> Manager" where
  "clear_flag x m =
    (if dmem x (instance_migrating m) then m\<lparr>instance_migrating := dset x False (instance_migrating m)\<rparr> else m)"

text \<open>
  The end of a migration. \<open>ready\<close> are the answers of the liveness probes. A failed
  \<open>clear_migration_states\<close> only assigns the loop variable, so it has no effect here.
\<close>

definition migrate_done_callback ::
  "Manager \<Rightarrow> string \<times> string \<Rightarrow> string list res \<Rightarrow> (string \<Rightarrow> unit res) \<Rightarrow> unit res \<times> Manager" where
  "migrate_done_callback m pair ret ready =
    (case pair of (x, y) \<Rightarrow>
       let m = clear_flag y (clear_flag x m) in
       case ret of
         Inl e \<Rightarrow>
          if e \<in> {RayActorError, RayTaskError, KeyError} then
            (case check_instance_error m pair ready of
               Inl err \<Rightarrow> (Inl err, m)
             | Inr (ex, ey) \<Rightarrow>
                let m = (if ex then scale_down1 m x else m) in
                (Inr (), if ey then scale_down1 m y else m))
          else (Inl TypeError, m)
       | Inr [] \<Rightarrow> (Inr (), m)
       | Inr (r # _) \<Rightarrow> (Inr (), m\<lparr>request_instance := dset r y (request_instance m)\<rparr>))"

subsection \<open>The hand-over of one request\<close>

datatype v1_call =
    IncrementalBegin | IncrementalImmutable | IncrementalPrepareIn | IncrementalPreview | PrecopyLayers
  | IncrementalSend string | IncrementalReceive string | IncrementalCommitIn | IncrementalAppend
  | AbortIncrementalSource | AbortIncrementalTarget
  | PrepareOut | PrepareIn | SourceBlocks | LayerNames
  | SendLayer nat string nat | ReceiveLayer nat string nat
  | CommitTarget | RegisterTarget | CommitSource | FinishSource
  | AbortTarget | DropTarget | AbortSource

record v1_replies =
  vr_error :: "v1_call \<Rightarrow> py_error option"
  vr_immutable :: "int list list"
  vr_reserved :: "int list list"
  vr_source_blocks :: "int list list"
  vr_target_blocks :: "int list list"
  vr_layers :: "string list"

type_synonym v1_trace = "(v1_call \<times> bool) list"

text \<open>Awaiting calls in turn, up to the first that raises.\<close>

fun run_calls :: "v1_replies \<Rightarrow> v1_call list \<Rightarrow> v1_trace \<times> unit res" where
  "run_calls v [] = ([], Inr ())"
| "run_calls v (c # cs) =
    (case vr_error v c of
       Some e \<Rightarrow> ([(c, False)], Inl e)
     | None \<Rightarrow> (let (tr, r) = run_calls v cs in ((c, True) # tr, r)))"

fun then_run :: "v1_trace \<times> unit res \<Rightarrow> v1_trace \<times> 'a res \<Rightarrow> v1_trace \<times> 'a res" where
  "then_run (tr, Inl e) k = (tr, Inl e)"
| "then_run (tr, Inr _) (tr', r) = (tr @ tr', r)"

text \<open>Gathering calls whose exceptions are returned and ignored.\<close>

definition gather_calls :: "v1_replies \<Rightarrow> v1_call list \<Rightarrow> v1_trace" where
  "gather_calls v cs = map (\<lambda>c. (c, vr_error v c = None)) cs"

definition cleanup_v1_incremental_precopy :: "v1_replies \<Rightarrow> v1_trace" where
  "cleanup_v1_incremental_precopy v = gather_calls v [AbortIncrementalSource, AbortIncrementalTarget]"

definition single_group :: "int list list \<Rightarrow> bool" where
  "single_group gs \<longleftrightarrow> length gs = 1 \<and> hd gs \<noteq> []"

definition precopy_steps :: "v1_replies \<Rightarrow> v1_trace \<times> (int \<times> int) list res" where
  "precopy_steps v =
    then_run (run_calls v [IncrementalBegin, IncrementalImmutable])
      (if \<not> single_group (vr_immutable v) then then_run (run_calls v [AbortIncrementalSource]) ([], Inr [])
       else then_run (run_calls v [IncrementalPrepareIn])
         (if \<not> single_group (vr_reserved v)
          then then_run (run_calls v [AbortIncrementalSource, AbortIncrementalTarget]) ([], Inr [])
          else then_run (run_calls v ([IncrementalPreview, PrecopyLayers]
                  @ concat (map (\<lambda>l. [IncrementalSend l, IncrementalReceive l]) (vr_layers v))
                  @ [IncrementalCommitIn, IncrementalAppend]))
                ([], Inr (zip (hd (vr_immutable v)) (hd (vr_reserved v))))))"

definition run_v1_incremental_precopy :: "v1_replies \<Rightarrow> v1_trace \<times> (int \<times> int) list" where
  "run_v1_incremental_precopy v =
    (case precopy_steps v of
       (tr, Inr pairs) \<Rightarrow> (tr, pairs)
     | (tr, Inl _) \<Rightarrow> (tr @ cleanup_v1_incremental_precopy v, []))"

definition transfer_calls :: "v1_replies \<Rightarrow> nat \<Rightarrow> v1_call list" where
  "transfer_calls v skip =
    concat (map (\<lambda>g. concat (map (\<lambda>l. [SendLayer g l skip, ReceiveLayer g l skip]) (vr_layers v)))
      [0..<min (length (vr_source_blocks v)) (length (vr_target_blocks v))])"

definition cutover_calls :: "v1_replies \<Rightarrow> nat \<Rightarrow> v1_call list" where
  "cutover_calls v skip =
    [PrepareOut, PrepareIn, SourceBlocks, LayerNames] @ transfer_calls v skip
    @ [CommitTarget, RegisterTarget, CommitSource, FinishSource]"

definition migrate_v1_request :: "bool \<Rightarrow> v1_replies \<Rightarrow> v1_trace \<times> unit res" where
  "migrate_v1_request incremental_precopy v =
    (let (before, pairs) = (if incremental_precopy then run_v1_incremental_precopy v else ([], []));
         (tr, r) = run_calls v (cutover_calls v (length pairs))
     in (before @ tr @ (if incremental_precopy \<and> is_ok r then cleanup_v1_incremental_precopy v else []), r))"

definition cleanup_v1_migration :: "v1_replies \<Rightarrow> v1_trace" where
  "cleanup_v1_migration v =
    gather_calls v [AbortTarget, DropTarget, AbortSource, AbortIncrementalSource, AbortIncrementalTarget]"

subsection \<open>Retries, pairs and rounds of the V1 backend\<close>

fun error_text :: "py_error \<Rightarrow> string" where
  "error_text (RuntimeError s) = s"
| "error_text (MigrationError s) = s"
| "error_text (OtherError s) = s"
| "error_text _ = []"

definition not_migratable :: "py_error \<Rightarrow> bool" where
  "not_migratable e \<longleftrightarrow> find_sub ''request is not migratable'' (error_text e) \<noteq> None"

text \<open>The replies of one attempt, and what other tasks do to the manager before it.\<close>

record v1_attempt =
  va_others :: "Manager \<Rightarrow> Manager"
  va_replies :: v1_replies
  va_ready :: "string \<Rightarrow> unit res"
  va_now :: rat

definition record_migrated :: "Manager \<Rightarrow> string \<Rightarrow> string \<Rightarrow> rat \<Rightarrow> Manager" where
  "record_migrated m r y now =
    m\<lparr>request_instance := dset r y (request_instance m),
      request_instances := dset r {y} (request_instances m),
      v1_migration_retries := dpop r (v1_migration_retries m),
      v1_request_last_migration_time := dset r now (v1_request_last_migration_time m)\<rparr>"

definition count_retry :: "Manager \<Rightarrow> string \<Rightarrow> bool \<Rightarrow> Manager" where
  "count_retry m r again =
    m\<lparr>v1_migration_retries :=
        (if again then dset r (dget_default (v1_migration_retries m) r 0 + 1) (v1_migration_retries m)
         else dpop r (v1_migration_retries m))\<rparr>"

fun v1_attempts ::
  "Manager \<Rightarrow> string \<Rightarrow> string \<Rightarrow> string \<Rightarrow> bool \<Rightarrow> v1_attempt list \<Rightarrow> unit res \<times> v1_trace \<times> Manager" where
  "v1_attempts m x y r incremental_precopy [] = (Inr (), [], m)"
| "v1_attempts m x y r incremental_precopy (a # rest) =
    (let m = va_others a m in
     if \<not> dmem x (mg_instances m) \<or> \<not> dmem y (mg_instances m) then (Inl KeyError, [], m)
     else case migrate_v1_request incremental_precopy (va_replies a) of
         (tr, Inr _) \<Rightarrow> (Inr (), tr, record_migrated m r y (va_now a))
       | (tr, Inl e) \<Rightarrow>
          if e = RayActorError then
            (case check_instance_error m (x, y) (va_ready a) of
               Inl err \<Rightarrow> (Inl err, tr, m)
             | Inr _ \<Rightarrow> (Inr (), tr, m))
          else if not_migratable e then (Inr (), tr, m)
          else (case v1_attempts (count_retry m r (rest \<noteq> [])) x y r incremental_precopy rest of
              (res, tr', m) \<Rightarrow> (res, tr @ cleanup_v1_migration (va_replies a) @ tr', m)))"

text \<open>At most two attempts.\<close>

definition migrate_v1_request_with_retry ::
  "Manager \<Rightarrow> string \<Rightarrow> string \<Rightarrow> string \<Rightarrow> bool \<Rightarrow> v1_attempt \<times> v1_attempt \<Rightarrow>
    unit res \<times> v1_trace \<times> Manager" where
  "migrate_v1_request_with_retry m x y r incremental_precopy attempts =
    v1_attempts m x y r incremental_precopy [fst attempts, snd attempts]"

definition V1_MIGRATION_MIN_RESIDENCY_SECONDS :: rat where
  "V1_MIGRATION_MIN_RESIDENCY_SECONDS = 2"

definition rested :: "Manager \<Rightarrow> rat \<Rightarrow> string \<Rightarrow> bool" where
  "rested m now r \<longleftrightarrow> r \<notin> v1_migrating_requests m
    \<and> \<not> now - dget_default (v1_request_last_migration_time m) r 0 < V1_MIGRATION_MIN_RESIDENCY_SECONDS"

definition select_v1_migration_request ::
  "Manager \<Rightarrow> string \<Rightarrow> string list res \<Rightarrow> rat \<Rightarrow> string option res" where
  "select_v1_migration_request m x candidates now =
    (if \<not> dmem x (mg_instances m) then Inl KeyError
     else case candidates of
         Inl e \<Rightarrow> if e \<in> {RayActorError, KeyError} then Inr None else Inl e
       | Inr ids \<Rightarrow>
          (case find (\<lambda>r. rested m now r \<and> dget (request_instance m) r = Some x) ids of
             Some r \<Rightarrow> Inr (Some r)
           | None \<Rightarrow> Inr (find (rested m now) ids)))"

record v1_pair_env =
  vp_candidates :: "string list res"
  vp_now :: rat
  vp_attempts :: "v1_attempt \<times> v1_attempt"

definition set_migrating :: "Manager \<Rightarrow> string \<Rightarrow> string \<Rightarrow> bool \<Rightarrow> Manager" where
  "set_migrating m x y b = m\<lparr>instance_migrating := dset y b (dset x b (instance_migrating m))\<rparr>"

definition target_full :: "InstanceInfo \<Rightarrow> bool" where
  "target_full i \<longleftrightarrow> 0 < max_num_seqs i \<and> max_num_seqs i \<le> num_running_requests i + num_waiting_requests i"

definition both_endpoints :: "InstanceInfo \<Rightarrow> InstanceInfo \<Rightarrow> bool res" where
  "both_endpoints i j =
    res_bind (valid_p2p_endpoint (kv_endpoint i))
      (\<lambda>ok. if ok then valid_p2p_endpoint (kv_endpoint j) else Inr False)"

definition v1_pair_body ::
  "Manager \<Rightarrow> string \<Rightarrow> string \<Rightarrow> v1_pair_env \<Rightarrow> unit res \<times> v1_trace \<times> Manager" where
  "v1_pair_body m x y e =
    (case (dget (instance_info (global_scheduler m)) x, dget (instance_info (global_scheduler m)) y) of
       (Some i, Some j) \<Rightarrow>
        if target_full j then (Inr (), [], m)
        else (case both_endpoints i j of
            Inl err \<Rightarrow> (Inl err, [], m)
          | Inr False \<Rightarrow> (Inr (), [], m)
          | Inr True \<Rightarrow>
             (case select_v1_migration_request m x (vp_candidates e) (vp_now e) of
                Inl err \<Rightarrow> (Inl err, [], m)
              | Inr None \<Rightarrow> (Inr (), [], m)
              | Inr (Some r) \<Rightarrow>
                 if dget (request_server_info m) r = None then (Inr (), [], m)
                 else
                   let precopy = (''incremental_precopy'' \<in> migration_capabilities i
                                  \<and> ''incremental_precopy'' \<in> migration_capabilities j);
                       m = m\<lparr>v1_migrating_requests := insert r (v1_migrating_requests m),
                             v1_migration_epochs := dset r (dget_default (v1_migration_epochs m) r 0 + 1)
                               (v1_migration_epochs m)\<rparr>
                   in (case migrate_v1_request_with_retry m x y r precopy (vp_attempts e) of
                       (res, tr, m) \<Rightarrow>
                         (res, tr, m\<lparr>v1_migrating_requests := v1_migrating_requests m - {r}\<rparr>))))
     | _ \<Rightarrow> (Inr (), [], m))"

definition migrate_v1_pair ::
  "Manager \<Rightarrow> string \<Rightarrow> string \<Rightarrow> v1_pair_env \<Rightarrow> unit res \<times> v1_trace \<times> Manager" where
  "migrate_v1_pair m x y e =
    (case v1_pair_body (set_migrating m x y True) x y e of
       (res, tr, m) \<Rightarrow> (res, tr, set_migrating m x y False))"

text \<open>
  A round first picks its pairs; the migrations of the pairs are tasks that start later,
  after the round gives up control. Their exceptions are returned and ignored.
\<close>

definition pick_v1_pairs ::
  "Manager \<Rightarrow> PairMigrationConstraints \<Rightarrow> (string \<times> string) list \<times> Manager" where
  "pick_v1_pairs m t =
    (case gs_pair_migration_v1 (global_scheduler m) t of
       (Inl _, gs) \<Rightarrow> ([], m\<lparr>global_scheduler := gs\<rparr>)
     | (Inr pairs, gs) \<Rightarrow>
        (filter (\<lambda>(x, y). \<not> dget_default (instance_migrating m) x False
                         \<and> \<not> dget_default (instance_migrating m) y False) pairs,
         m\<lparr>global_scheduler := gs\<rparr>))"

subsection \<open>The membership invariant under requests and migrations\<close>

lemma mark_aborted_inv: "mg_inv m \<Longrightarrow> mg_inv (mark_aborted m r)"
  by (simp add: mark_aborted_def)

lemma waiting_inv: "mg_inv (start_waiting m r) = mg_inv m" "mg_inv (stop_waiting m r) = mg_inv m"
  by (simp_all add: start_waiting_def stop_waiting_def)

lemma record_request_inv: "mg_inv (record_request m r x s) = mg_inv m"
  by (simp add: record_request_def)

lemma submit_error_inv: "mg_inv m \<Longrightarrow> mg_inv (snd (snd (on_submit_error m x e calls)))"
  by (simp add: on_submit_error_def scale_down_inv)

lemma submit_plain_inv: "mg_inv m \<Longrightarrow> mg_inv (snd (snd (submit_plain m r x steps reply)))"
  by (simp add: submit_plain_def submit_error_inv record_request_inv split: sum.split)

lemma submit_pd_inv: "mg_inv m \<Longrightarrow> mg_inv (snd (snd (submit_pd m r p d r1 r2)))"
  by (simp add: submit_pd_def submit_error_inv submit_plain_inv record_request_inv Let_def
      split: sum.split option.split bool.split prod.split)

lemma select_pd_ids: "instance_id_set (snd (select_v1_pd_instances s h r1 r2)) = instance_id_set s"
  by (simp add: select_v1_pd_instances_def Let_def case_prod_unfold split: sum.split)

lemma wait_roles_inv:
  assumes "mg_inv m"
  shows "mg_inv (snd (wait_roles r h d1 d2 [] m))"
proof -
  have "mg_inv (m\<lparr>global_scheduler := snd (select_v1_pd_instances (global_scheduler m) h d1 d2)\<rparr>)"
    by (rule mg_inv_gs[OF assms select_pd_inv[OF mg_inv_gsD[OF assms]] select_pd_ids])
  then show ?thesis
    by (auto simp: wait_roles.simps Let_def split: prod.split sum.split option.split)
qed

lemma generate_pd_inv:
  assumes "mg_inv m"
  shows "mg_inv (snd (snd (generate_pd m r h e [])))"
  using wait_roles_inv[OF assms, of "gr_id r" h "ge_draw_prefill e" "ge_draw_decode e"]
  by (auto simp: generate_pd_def submit_pd_inv waiting_inv split: prod.split sum.split wait_result.split)

lemma gs_dispatch_ids: "instance_id_set (snd (gs_dispatch s h r)) = instance_id_set s"
  by (simp add: gs_dispatch_def Let_def case_prod_unfold)

lemma generate_plain_inv:
  assumes "mg_inv m"
  shows "mg_inv (snd (snd (generate_plain m r h e)))"
proof -
  have "mg_inv (m\<lparr>global_scheduler := snd (gs_dispatch (global_scheduler m) h (ge_draw_dispatch e))\<rparr>)"
    by (rule mg_inv_gs[OF assms gs_dispatch_inv[OF mg_inv_gsD[OF assms]] gs_dispatch_ids])
  then show ?thesis
    by (auto simp: generate_plain_def submit_plain_inv split: prod.split sum.split)
qed

lemma generate_inv: "mg_inv m \<Longrightarrow> mg_inv (snd (snd (generate hash_block m r e [])))"
  by (simp add: generate_def Let_def wait_instances.simps[of _ _ "[]"] waiting_inv generate_pd_inv generate_plain_inv
      split: sum.split)

lemma forget_inv: "mg_inv m \<Longrightarrow> mg_inv (foldl forget_one m rs)"
  by (induction rs arbitrary: m) (simp_all add: forget_one_def)

lemma manager_abort_inv: "mg_inv m \<Longrightarrow> mg_inv (snd (snd (manager_abort m ids order replies)))"
proof -
  have marks: "mg_inv m \<Longrightarrow> mg_inv (foldl mark_aborted m ids)"
    by (induction ids arbitrary: m) (simp_all add: mark_aborted_inv)
  have "mg_inv m \<Longrightarrow> mg_inv (foldl (\<lambda>m (x, rs). abort_done_callback m x rs (replies x)) m sent)" for m sent
  proof (induction sent arbitrary: m)
    case (Cons a sent)
    then show ?case by (cases a) (simp add: abort_done_callback_def scale_down_inv forget_inv)
  qed simp
  with marks show "mg_inv m \<Longrightarrow> ?thesis" by (simp add: manager_abort_def Let_def split: prod.split)
qed

lemma reconcile_inv: "mg_inv m \<Longrightarrow> mg_inv (snd (get_request_instance m pick replies))"
proof -
  have "mg_inv m \<Longrightarrow> mg_inv (snd (request_replies m replies))"
    by (induction m replies rule: request_replies.induct) (auto simp: scale_down_inv Let_def split: prod.split)
  then show "mg_inv m \<Longrightarrow> ?thesis"
    by (auto simp: get_request_instance_def reconcile_request_instances_def split: prod.split sum.split)
qed

text \<open>The three ways a pair is treated, as a case rule.\<close>

lemma start_migrations_cases [case_names stop skip flagged start]:
  assumes "start_migrations m ((x, y) # rest) = (Inl KeyError, [], m) \<Longrightarrow>
      dget (instance_migrating m) x = None \<or> dget (instance_migrating m) y = None \<Longrightarrow> P"
    and "start_migrations m ((x, y) # rest) = start_migrations m rest \<Longrightarrow> P"
    and "dget (instance_migrating m) x = Some False \<Longrightarrow> dget (instance_migrating m) y = Some False \<Longrightarrow>
      start_migrations m ((x, y) # rest) = (Inl KeyError, [], set_migrating m x y True) \<Longrightarrow> \<not> dmem x (mg_instances m) \<Longrightarrow> P"
    and "\<And>r st m'. dget (instance_migrating m) x = Some False \<Longrightarrow> dget (instance_migrating m) y = Some False \<Longrightarrow>
      start_migrations (set_migrating m x y True) rest = (r, st, m') \<Longrightarrow>
      start_migrations m ((x, y) # rest) = (r, (x, y) # st, m') \<Longrightarrow> P"
  shows P
proof (cases "dget (instance_migrating m) x")
  case None
  then show ?thesis using assms(1) by simp
next
  case (Some bx)
  show ?thesis
  proof (cases "bx \<or> dget (instance_migrating m) y \<noteq> Some False")
    case True
    then show ?thesis using Some assms(1,2) by (cases bx; cases "dget (instance_migrating m) y"; auto)
  next
    case False
    then have flags: "dget (instance_migrating m) x = Some False" "dget (instance_migrating m) y = Some False"
      using Some by auto
    obtain r st m' where st: "start_migrations (set_migrating m x y True) rest = (r, st, m')"
      by (cases "start_migrations (set_migrating m x y True) rest")
    show ?thesis
      using flags assms(3,4) st by (cases "dmem x (mg_instances m)") (simp_all add: set_migrating_def)
  qed
qed

declare start_migrations.simps(2) [simp del]

lemma set_migrating_inv: "mg_inv m \<Longrightarrow> mg_inv (set_migrating m x y b)"
  using mg_inv_migrating[of "m\<lparr>instance_migrating := dset x b (instance_migrating m)\<rparr>" y b] mg_inv_migrating[of m x b]
  by (simp add: set_migrating_def)

lemma start_migrations_inv: "mg_inv m \<Longrightarrow> mg_inv (snd (snd (start_migrations m ps)))"
proof (induction ps arbitrary: m)
  case (Cons p rest)
  obtain x y where p: "p = (x, y)" by (cases p)
  show ?case
  proof (cases rule: start_migrations_cases[of m x y rest])
    case (start r st m')
    then show ?thesis using Cons.IH[OF set_migrating_inv[OF Cons.prems], of x y True] by (simp add: p)
  qed (use Cons.prems Cons.IH set_migrating_inv in \<open>simp_all add: p\<close>)
qed simp

lemma gs_pair_ids:
  "instance_id_set (snd (gs_pair_migration s t)) = instance_id_set s"
  "instance_id_set (snd (gs_pair_migration_v1 s t)) = instance_id_set s"
  by (simp_all add: gs_pair_migration_def gs_pair_migration_v1_def Let_def split: sum.split)

lemma migrate_round_inv:
  assumes "mg_inv m"
  shows "mg_inv (snd (snd (migrate_round m t)))"
proof -
  have "mg_inv (m\<lparr>global_scheduler := snd (gs_pair_migration (global_scheduler m) t)\<rparr>)"
    by (rule mg_inv_gs[OF assms gs_pair_inv[OF mg_inv_gsD[OF assms]] gs_pair_ids(1)])
  then show ?thesis by (auto simp: migrate_round_def start_migrations_inv split: prod.split sum.split)
qed

lemma clear_flag_inv: "mg_inv m \<Longrightarrow> mg_inv (clear_flag x m)"
  by (simp add: clear_flag_def mg_inv_migrating)

lemma migrate_done_inv: "mg_inv m \<Longrightarrow> mg_inv (snd (migrate_done_callback m pair ret ready))"
  by (cases pair) (simp add: migrate_done_callback_def clear_flag_inv scale_down_inv Let_def
      split: sum.split list.split prod.split)

lemma v1_attempts_inv:
  "mg_inv m \<Longrightarrow> \<forall>a\<in>set as. \<forall>m. mg_inv m \<longrightarrow> mg_inv (va_others a m) \<Longrightarrow>
    mg_inv (snd (snd (v1_attempts m x y r pc as)))"
proof (induction as arbitrary: m)
  case (Cons a as)
  have o: "mg_inv (va_others a m)" using Cons.prems by simp
  then have "mg_inv (record_migrated (va_others a m) r y t)" "mg_inv (count_retry (va_others a m) r b)" for t b
    by (simp_all add: record_migrated_def count_retry_def)
  moreover from this(2) have "mg_inv m'" if "v1_attempts (count_retry (va_others a m) r b) x y r pc as = (res, tr, m')" for b res tr m'
    using Cons.IH[of "count_retry (va_others a m) r b"] Cons.prems(2) that by simp
  ultimately show ?case
    using o by (auto simp: Let_def split: prod.split sum.split)
qed simp

text \<open>What other tasks do while a migration waits keeps the invariant.\<close>

definition quiet_pair :: "v1_pair_env \<Rightarrow> bool" where
  "quiet_pair e \<longleftrightarrow> (\<forall>a\<in>{fst (vp_attempts e), snd (vp_attempts e)}. \<forall>m. mg_inv m \<longrightarrow> mg_inv (va_others a m))"

lemma v1_pair_inv:
  assumes "mg_inv m" and "quiet_pair e"
  shows "mg_inv (snd (snd (migrate_v1_pair m x y e)))"
proof -
  have retry: "mg_inv m' \<Longrightarrow> mg_inv (snd (snd (migrate_v1_request_with_retry m' x y r pc (vp_attempts e))))" for m' r pc
    using assms(2) unfolding migrate_v1_request_with_retry_def quiet_pair_def by (intro v1_attempts_inv) auto
  have kept: "mg_inv m'' \<and> True" if "migrate_v1_request_with_retry m' x y r pc (vp_attempts e) = (res, tr, m'')" "mg_inv m'"
    for m' r pc res tr m'' using retry[OF that(2), of r pc] that(1) by simp
  have "mg_inv (set_migrating m x y True)" by (rule set_migrating_inv[OF assms(1)])
  then have "mg_inv (snd (snd (v1_pair_body (set_migrating m x y True) x y e)))"
    by (auto simp: v1_pair_body_def Let_def dest!: kept split: option.split sum.split bool.split prod.split)
  then show ?thesis by (auto simp: migrate_v1_pair_def set_migrating_inv split: prod.split)
qed

lemma pick_v1_pairs_inv:
  assumes "mg_inv m"
  shows "mg_inv (snd (pick_v1_pairs m t))"
proof -
  have "mg_inv (m\<lparr>global_scheduler := snd (gs_pair_migration_v1 (global_scheduler m) t)\<rparr>)"
    by (rule mg_inv_gs[OF assms gs_pair_v1_inv[OF mg_inv_gsD[OF assms]] gs_pair_ids(2)])
  then show ?thesis by (auto simp: pick_v1_pairs_def split: prod.split sum.split)
qed

subsection \<open>All events of the manager\<close>

datatype manager_event =
    EvRegister "(string \<times> string \<times> InstanceType) list"
  | EvScaleDown "string list"
  | EvAutoScale scale_env
  | EvWatch "string list \<times> string list \<times> string list" "string \<Rightarrow> bool \<times> bool \<times> bool"
  | EvPoll "(string \<times> InstanceInfo option res) list"
  | EvGenerate gen_request gen_env
  | EvAbort "string list" "string list" "string \<Rightarrow> unit res"
  | EvReconcile "string set \<Rightarrow> string" "(string \<times> string list res) list"
  | EvMigrate PairMigrationConstraints
  | EvMigrated "string \<times> string" "string list res" "string \<Rightarrow> unit res"
  | EvPickV1 PairMigrationConstraints
  | EvMigrateV1 string string v1_pair_env

text \<open>Interleaving is between events, so nothing else runs inside one.\<close>

definition alone :: "v1_pair_env \<Rightarrow> v1_pair_env" where
  "alone e = e\<lparr>vp_attempts := map_prod (\<lambda>a. a\<lparr>va_others := id\<rparr>) (\<lambda>a. a\<lparr>va_others := id\<rparr>) (vp_attempts e)\<rparr>"

lemma alone_quiet: "quiet_pair (alone e)"
  by (simp add: quiet_pair_def alone_def)

fun manager_step ::
  "(block_hash option \<Rightarrow> int list \<Rightarrow> block_hash) \<Rightarrow> EntrypointsArgs \<Rightarrow> InstanceArgs \<Rightarrow> Manager \<Rightarrow> manager_event \<Rightarrow> Manager" where
  "manager_step hb ea ia m (EvRegister entries) = snd (scale_up m entries)"
| "manager_step hb ea ia m (EvScaleDown xs) = snd (scale_down m xs True)"
| "manager_step hb ea ia m (EvAutoScale e) = snd (auto_scale_up_step m ea ia e)"
| "manager_step hb ea ia m (EvWatch cur later) = check_deployment_states m cur later"
| "manager_step hb ea ia m (EvPoll replies) = snd (poll_round m replies)"
| "manager_step hb ea ia m (EvGenerate r e) = snd (snd (generate hb m r e []))"
| "manager_step hb ea ia m (EvAbort ids order replies) = snd (snd (manager_abort m ids order replies))"
| "manager_step hb ea ia m (EvReconcile pick replies) = snd (get_request_instance m pick replies)"
| "manager_step hb ea ia m (EvMigrate t) = snd (snd (migrate_round m t))"
| "manager_step hb ea ia m (EvMigrated pair ret ready) = snd (migrate_done_callback m pair ret ready)"
| "manager_step hb ea ia m (EvPickV1 t) = snd (pick_v1_pairs m t)"
| "manager_step hb ea ia m (EvMigrateV1 x y e) = snd (snd (migrate_v1_pair m x y (alone e)))"

interpretation mg_machine: invariant_machine "manager_step hb ea ia" mg_inv
proof (unfold_locales, goal_cases)
  case (1 m e)
  then show ?case
    by (cases e) (simp_all add: scale_up_inv scale_down_inv auto_scale_up_inv check_deployment_inv poll_round_inv
        generate_inv manager_abort_inv reconcile_inv migrate_round_inv migrate_done_inv pick_v1_pairs_inv
        v1_pair_inv[OF _ alone_quiet])
qed

text \<open>
  C6: the manager and its scheduler never disagree about the cluster. From its
  construction on, after any interleaving of registrations, removals, scaling, deployment
  checks, polls, requests, aborts, reconciliations and migrations, whatever the remote
  calls answer, the schedulers know exactly the registered instances, every counter is
  their number, every registered instance has a report and a migration flag, and requests
  are dispatched to every registered instance except those that only decode.
\<close>

theorem manager_membership_consistent:
  assumes "init_Manager a la v stored actors = Inr m0" and "m = foldl (manager_step hb ea ia) m0 es"
  shows "instance_id_set (global_scheduler m) = fst ` set (mg_instances m)
    \<and> mg_num_instances m = length (mg_instances m) \<and> num_instances (global_scheduler m) = mg_num_instances m
    \<and> fst ` set (instance_info (global_scheduler m)) = fst ` set (mg_instances m)
    \<and> fst ` set (mg_instances m) \<subseteq> fst ` set (instance_migrating m)
    \<and> available_dispatch_instance_set (dispatch_scheduler (global_scheduler m))
        = fst ` set (mg_instances m) - instance_type_id_set (scaling_scheduler (global_scheduler m)) DECODE"
proof -
  have inv: "mg_inv m" unfolding assms(2) by (rule mg_machine.run_preserves[OF init_manager_inv[OF assms(1)]])
  then have gs: "gs_inv (global_scheduler m)" by (rule mg_inv_gsD)
  have "instance_id_set (global_scheduler m) = fst ` set (mg_instances m)" "mg_num_instances m = length (mg_instances m)"
      "fst ` set (mg_instances m) \<subseteq> fst ` set (instance_migrating m)"
    using inv by (simp_all add: mg_inv_def members_ok_def)
  moreover have "num_instances (global_scheduler m) = card (instance_id_set (global_scheduler m))"
      "fst ` set (instance_info (global_scheduler m)) = instance_id_set (global_scheduler m)"
    using gs by (simp_all add: gs_inv_def)
  moreover have "available_dispatch_instance_set (dispatch_scheduler (global_scheduler m))
      = instance_id_set (global_scheduler m) - instance_type_id_set (scaling_scheduler (global_scheduler m)) DECODE"
    using gs unfolding gs_inv_def types_ok_def by blast
  ultimately show ?thesis using mg_inv_length[OF inv] by simp
qed

subsection \<open>Exclusive migrations\<close>

definition pair_ids :: "(string \<times> string) list \<Rightarrow> string list" where
  "pair_ids ps = map fst ps @ map snd ps"

lemma pair_ids_simps:
  "set (pair_ids []) = {}" "set (pair_ids ((x, y) # ps)) = {x, y} \<union> set (pair_ids ps)"
  "distinct (pair_ids ((x, y) # ps)) \<longleftrightarrow> x \<noteq> y \<and> x \<notin> set (pair_ids ps) \<and> y \<notin> set (pair_ids ps) \<and> distinct (pair_ids ps)"
  "set (pair_ids (ps @ qs)) = set (pair_ids ps) \<union> set (pair_ids qs)"
  "distinct (pair_ids (ps @ qs)) \<longleftrightarrow> distinct (pair_ids ps) \<and> distinct (pair_ids qs) \<and> set (pair_ids ps) \<inter> set (pair_ids qs) = {}"
  by (auto simp: pair_ids_def)

lemma start_migrations_flags:
  "\<forall>(x, y)\<in>set ps. x \<noteq> y \<Longrightarrow> start_migrations m ps = (r, st, m') \<Longrightarrow>
    distinct (pair_ids st) \<and> set st \<subseteq> set ps
    \<and> (\<forall>z\<in>set (pair_ids st). dget (instance_migrating m) z = Some False \<and> dget (instance_migrating m') z = Some True)
    \<and> (\<forall>z. dget (instance_migrating m) z \<noteq> Some False \<longrightarrow> dget (instance_migrating m') z = dget (instance_migrating m) z)"
proof (induction ps arbitrary: m r st m')
  case Nil
  then show ?case by (simp add: pair_ids_def)
next
  case (Cons p rest)
  obtain x y where p: "p = (x, y)" by (cases p)
  have ne: "x \<noteq> y" and rest: "\<forall>(x, y)\<in>set rest. x \<noteq> y" using Cons.prems(1) by (auto simp: p)
  have step: "start_migrations m ((x, y) # rest) = (r, st, m')" using Cons.prems(2) by (simp add: p)
  show ?case
  proof (cases rule: start_migrations_cases[of m x y rest])
    case stop
    then show ?thesis using step by (simp add: pair_ids_def)
  next
    case skip
    then show ?thesis using Cons.IH[OF rest, of m r st m'] step by (auto simp: p)
  next
    case flagged
    then show ?thesis using step by (auto simp: pair_ids_def set_migrating_def dget_dset)
  next
    case (start r' st' n)
    have "st = (x, y) # st'" "m' = n" using start(4) step by simp_all
    moreover have flags: "dget (instance_migrating (set_migrating m x y True)) z
        = (if z \<in> {x, y} then Some True else dget (instance_migrating m) z)" for z
      by (simp add: set_migrating_def dget_dset)
    ultimately show ?thesis
      using Cons.IH[OF rest start(3)] start(1,2) ne unfolding p flags
      by (auto simp: pair_ids_simps split: if_splits)
  qed
qed

lemma deregister_flags:
  "dget (instance_migrating (snd (foldl deregister_instance s xs))) z \<in> {None, dget (instance_migrating (snd s)) z}"
proof (induction xs arbitrary: s)
  case (Cons x xs)
  have "dget (instance_migrating (snd (deregister_instance s x))) z \<in> {None, dget (instance_migrating (snd s)) z}"
    by (cases s) (simp add: Let_def dget_dpop)
  then show ?case using Cons.IH[of "deregister_instance s x"] by auto
qed simp

lemma scale_down_flags:
  "dget (instance_migrating (snd (scale_down m xs b))) z \<in> {None, dget (instance_migrating m) z}"
proof -
  obtain u m1 where r: "deregister_instances m xs = (u, m1)" by (cases "deregister_instances m xs")
  then show ?thesis
    using deregister_flags[of "(False, m)" xs z] by (simp add: deregister_instances_def scale_down_def Let_def)
qed

lemma scale_up_flags:
  "z \<noteq> x \<Longrightarrow> dget (instance_migrating (snd (scale_up m [(x, h, t)]))) z = dget (instance_migrating m) z"
  by (simp add: scale_up_def register_instances_def Let_def dget_dset)

lemma clear_flags:
  "z \<noteq> x \<Longrightarrow> dget (instance_migrating (clear_flag x m)) z = dget (instance_migrating m) z"
  by (simp add: clear_flag_def dget_dset)

lemma migrate_done_flags:
  assumes "z \<noteq> x" and "z \<noteq> y"
  shows "dget (instance_migrating (snd (migrate_done_callback m (x, y) ret ready))) z \<in> {None, dget (instance_migrating m) z}"
proof -
  have two: "dget (instance_migrating (scale_down1 (scale_down1 n x) y)) z \<in> {None, dget (instance_migrating n) z}" for n
    using scale_down_flags[of "scale_down1 n x" "[y]" True z] scale_down_flags[of n "[x]" True z] by auto
  let ?m = "clear_flag y (clear_flag x m)"
  have "dget (instance_migrating ?m) z = dget (instance_migrating m) z" using assms by (simp add: clear_flags)
  then show ?thesis
    using two[of ?m] scale_down_flags[of ?m "[x]" True z] scale_down_flags[of ?m "[y]" True z]
    by (simp add: migrate_done_callback_def Let_def split: sum.split list.split prod.split)
qed

text \<open>
  Rounds, their completions and changes of membership in any order, with the pairs whose
  migration has started and not completed. Instance ids are fresh: an id that joins does
  not belong to a running migration.
\<close>

datatype migration_event =
    MgRound PairMigrationConstraints
  | MgDone nat "string list res" "string \<Rightarrow> unit res"
  | MgJoin string string InstanceType
  | MgLeave "string list"

type_synonym migration_state = "Manager \<times> (string \<times> string) list"

fun migration_step :: "migration_state \<Rightarrow> migration_event \<Rightarrow> migration_state" where
  "migration_step (m, running) (MgRound t) =
    (case migrate_round m t of (_, started, m) \<Rightarrow> (m, running @ started))"
| "migration_step (m, running) (MgDone i ret ready) =
    (if i < length running
     then (snd (migrate_done_callback m (running ! i) ret ready), take i running @ drop (Suc i) running)
     else (m, running))"
| "migration_step (m, running) (MgJoin x h t) =
    (if x \<in> set (pair_ids running) then (m, running) else (snd (scale_up m [(x, h, t)]), running))"
| "migration_step (m, running) (MgLeave xs) = (snd (scale_down m xs True), running)"

definition exclusive :: "migration_state \<Rightarrow> bool" where
  "exclusive s \<longleftrightarrow> mg_inv (fst s) \<and> distinct (pair_ids (snd s))
    \<and> (\<forall>z\<in>set (pair_ids (snd s)). dget (instance_migrating (fst s)) z \<in> {None, Some True})"

lemma migrate_round_pairs:
  assumes "mg_inv m" and "migrate_round m t = (r, st, m')"
  shows "distinct (pair_ids st) \<and> set (pair_ids st) \<subseteq> fst ` set (mg_instances m)
    \<and> (\<forall>z\<in>set (pair_ids st). dget (instance_migrating m) z = Some False \<and> dget (instance_migrating m') z = Some True)
    \<and> (\<forall>z. dget (instance_migrating m) z \<noteq> Some False \<longrightarrow> dget (instance_migrating m') z = dget (instance_migrating m) z)"
proof (cases "fst (gs_pair_migration (global_scheduler m) t)")
  case (Inl e)
  then show ?thesis using assms(2) by (auto simp: migrate_round_def pair_ids_def split: prod.splits)
next
  case (Inr pairs)
  define gs where "gs = snd (gs_pair_migration (global_scheduler m) t)"
  have p: "ms_pair_migration (ms_update_instance_infos (migration_scheduler (global_scheduler m)) (instance_info (global_scheduler m))) t = Inr pairs"
    using Inr by (simp add: gs_pair_migration_def Let_def)
  have k: "keyed (instance_info (global_scheduler m))" using mg_inv_gsD[OF assms(1)] by (simp add: gs_inv_def)
  have d: "distinct (map fst pairs @ map snd pairs)"
      "set (map fst pairs @ map snd pairs) \<subseteq> instance_id ` set (dvalues (instance_info (global_scheduler m)))"
    using ms_pairs_matching[OF p _ keyed_distinct_ids[OF k]] by (simp_all add: ms_update_instance_infos_def)
  have ids: "instance_id ` set (dvalues (instance_info (global_scheduler m))) = fst ` set (mg_instances m)"
  proof -
    have "instance_id ` set (dvalues (instance_info (global_scheduler m))) = fst ` set (instance_info (global_scheduler m))"
      using keyed_ids[OF k] by (metis list.set_map)
    then show ?thesis using assms(1) mg_inv_gsD[OF assms(1)] by (simp add: mg_inv_def gs_inv_def)
  qed
  have "\<forall>(x, y)\<in>set pairs. x \<noteq> y" using d(1) by (force simp: in_set_zip)
  moreover have "start_migrations (m\<lparr>global_scheduler := gs\<rparr>) pairs = (r, st, m')"
    using assms(2) Inr by (simp add: migrate_round_def gs_def case_prod_unfold)
  ultimately have "distinct (pair_ids st) \<and> set st \<subseteq> set pairs
    \<and> (\<forall>z\<in>set (pair_ids st). dget (instance_migrating m) z = Some False \<and> dget (instance_migrating m') z = Some True)
    \<and> (\<forall>z. dget (instance_migrating m) z \<noteq> Some False \<longrightarrow> dget (instance_migrating m') z = dget (instance_migrating m) z)"
    using start_migrations_flags[of pairs "m\<lparr>global_scheduler := gs\<rparr>" r st m'] by simp
  moreover from this have "set (pair_ids st) \<subseteq> set (map fst pairs @ map snd pairs)"
    by (auto simp: pair_ids_def)
  then have "set (pair_ids st) \<subseteq> fst ` set (mg_instances m)" using d(2) ids by (metis order_trans)
  ultimately show ?thesis by blast
qed

lemma exclusive_round: "exclusive (m, running) \<Longrightarrow> exclusive (migration_step (m, running) (MgRound t))"
proof -
  assume ex: "exclusive (m, running)"
  obtain r st m' where mr: "migrate_round m t = (r, st, m')" by (cases "migrate_round m t")
  have "mg_inv m'" using migrate_round_inv[of m t] ex mr by (simp add: exclusive_def)
  moreover note migrate_round_pairs[OF _ mr]
  ultimately show ?thesis
    using ex by (auto simp: exclusive_def mr pair_ids_simps)
qed

lemma exclusive_done: "exclusive (m, running) \<Longrightarrow> exclusive (migration_step (m, running) (MgDone i ret ready))"
proof (cases "i < length running")
  case True
  assume ex: "exclusive (m, running)"
  obtain x y where xy: "running ! i = (x, y)" by (cases "running ! i")
  define rest where "rest = take i running @ drop (Suc i) running"
  have split: "running = take i running @ (x, y) # drop (Suc i) running"
    using id_take_nth_drop[OF True] xy by simp
  have "distinct (pair_ids running) \<longleftrightarrow> x \<noteq> y \<and> x \<notin> set (pair_ids rest) \<and> y \<notin> set (pair_ids rest) \<and> distinct (pair_ids rest)"
    by (subst split) (auto simp: rest_def pair_ids_simps)
  moreover have "set (pair_ids running) = {x, y} \<union> set (pair_ids rest)"
    by (subst split) (auto simp: rest_def pair_ids_simps)
  ultimately have "distinct (pair_ids rest)" "\<forall>z\<in>set (pair_ids rest). z \<noteq> x \<and> z \<noteq> y \<and> dget (instance_migrating m) z \<in> {None, Some True}"
    using ex by (auto simp: exclusive_def)
  moreover from this have "dget (instance_migrating (snd (migrate_done_callback m (x, y) ret ready))) z \<in> {None, Some True}"
    if "z \<in> set (pair_ids rest)" for z
    using that migrate_done_flags[of z x y m ret ready] by auto
  ultimately show ?thesis
    using True ex migrate_done_inv[of m "(x, y)" ret ready] by (simp add: exclusive_def xy rest_def[symmetric])
qed simp

interpretation mx_machine: invariant_machine migration_step exclusive
proof (unfold_locales, goal_cases)
  case (1 s e)
  obtain m running where s: "s = (m, running)" by (cases s)
  show ?case
  proof (cases e)
    case (MgJoin x h t)
    have "dget (instance_migrating (snd (scale_up m [(x, h, t)]))) z = dget (instance_migrating m) z"
      if "z \<in> set (pair_ids running)" "x \<notin> set (pair_ids running)" for z
      by (rule scale_up_flags) (use that in blast)
    with MgJoin show ?thesis using 1 by (simp add: s exclusive_def scale_up_inv)
  next
    case (MgLeave xs)
    have "dget (instance_migrating (snd (scale_down m xs True))) z \<in> {None, Some True}"
      if "z \<in> set (pair_ids running)" for z
      using that 1 scale_down_flags[of m xs True z] by (auto simp: s exclusive_def)
    with MgLeave show ?thesis using 1 by (simp add: s exclusive_def scale_down_inv)
  qed (use 1 exclusive_round exclusive_done s in auto)
qed

text \<open>
  C13: in the original backend an instance takes part in at most one migration at a time.
  Whatever rounds, completions, joins and departures follow each other, also of both kinds
  of rounds of a prefill/decode cluster, the migrations in progress never share an
  instance, and each of their instances is marked busy as long as it is registered.
\<close>

theorem migrations_exclusive:
  assumes "init_Manager a la v stored actors = Inr m0" and "(m, running) = foldl migration_step (m0, []) es"
  shows "distinct (map fst running @ map snd running)
    \<and> (\<forall>z\<in>set (map fst running @ map snd running). dmem z (mg_instances m) \<longrightarrow> dget (instance_migrating m) z = Some True)"
proof -
  have "exclusive (m0, [])" using init_manager_inv[OF assms(1)] by (simp add: exclusive_def pair_ids_def)
  then have ex: "exclusive (m, running)" unfolding assms(2) by (rule mx_machine.run_preserves)
  then have "dget (instance_migrating m) z = Some True" if "z \<in> set (pair_ids running)" "dmem z (mg_instances m)" for z
    using that dget_None_iff[of "instance_migrating m" z] by (auto simp: exclusive_def mg_inv_def members_ok_def)
  with ex show ?thesis by (simp add: exclusive_def pair_ids_def)
qed

subsection \<open>Examples\<close>

lemma example_manager_starts: "\<exists>m0. init_Manager example_pd_args None False None [(''p'', Inr PREFILL), (''d'', Inr DECODE)] = Inr m0"
proof -
  have "\<exists>gs. init_GlobalScheduler (create_global_scheduler_config example_pd_args b) = Inr gs" for b
    by (simp add: example_pd_args_def init_ManagerArgs_def no_ManagerArgs_def default_def parse_ratio_def
        py_int_def strip_def is_space_def is_decimal_def digit_value_def Let_def create_global_scheduler_config_def
        init_GlobalScheduler_def init_DispatchScheduler_def get_dispatch_policy_def
        init_MigrationScheduler_def register_migration_backend_init_filter_def init_CustomFilter_def
        get_pair_policy_def init_ScalingScheduler_def get_scale_policy_def)
  moreover have "\<exists>l. init_Launcher example_pd_args None = Inr l" by (simp add: init_Launcher_def example_pd_args_facts)
  ultimately obtain gs l where "init_Launcher example_pd_args None = Inr l"
      "init_GlobalScheduler (create_global_scheduler_config example_pd_args
        (ma_is_group_kind_migration_backend example_pd_args = Some True)) = Inr gs"
    by meson
  then show ?thesis by (simp add: init_Manager_def)
qed

theorem manager_membership_consistent_witness:
  "\<exists>m0 m. init_Manager example_pd_args None False None [(''p'', Inr PREFILL), (''d'', Inr DECODE)] = Inr m0
    \<and> m = foldl (manager_step (\<lambda>_ _. HashInt 0) default_EntrypointsArgs default_InstanceArgs) m0
        [EvMigrate PREFILL_2_DECODING, EvScaleDown [''p''], EvPoll [(''d'', Inl RayActorError)]]
    \<and> instance_id_set (global_scheduler m) = fst ` set (mg_instances m)"
proof -
  obtain m0 where m0: "init_Manager example_pd_args None False None [(''p'', Inr PREFILL), (''d'', Inr DECODE)] = Inr m0"
    using example_manager_starts by blast
  show ?thesis
    by (intro exI conjI) (rule m0, rule refl, rule manager_membership_consistent[OF m0 refl, THEN conjunct1])
qed

theorem migrations_exclusive_witness:
  "\<exists>m0 m running. init_Manager example_pd_args None False None [(''p'', Inr PREFILL), (''d'', Inr DECODE)] = Inr m0
    \<and> (m, running) = foldl migration_step (m0, []) [MgRound PREFILL_2_DECODING, MgRound DECODING_2_DECODING, MgLeave [''d'']]
    \<and> distinct (map fst running @ map snd running)"
proof -
  obtain m0 where m0: "init_Manager example_pd_args None False None [(''p'', Inr PREFILL), (''d'', Inr DECODE)] = Inr m0"
    using example_manager_starts by blast
  obtain m running where run: "(m, running)
      = foldl migration_step (m0, []) [MgRound PREFILL_2_DECODING, MgRound DECODING_2_DECODING, MgLeave [''d'']]"
    by (metis prod.exhaust)
  show ?thesis
    by (intro exI conjI) (rule m0, rule run, rule migrations_exclusive[OF m0 run, THEN conjunct1])
qed

end
