(* ===== verification/Manager_Handover.thy ===== *)
theory Manager_Handover
  imports Manager_Migration
begin

text \<open>
  What the manager guarantees about the hand-over of a request between V1 instances: the
  order of the calls of one attempt, and the effect of the attempts on the routing.
\<close>

subsection \<open>Traces\<close>

lemma run_calls_ok: "snd (run_calls v cs) = Inr () \<longleftrightarrow> (\<forall>c\<in>set cs. vr_error v c = None)"
  by (induction cs) (auto simp: Let_def split: option.split prod.split)

lemma run_calls_trace:
  "run_calls v cs = (tr, r) \<Longrightarrow> tr = pre @ (c, b) # post \<Longrightarrow>
    \<exists>before after. cs = before @ c # after \<and> pre = map (\<lambda>c. (c, True)) before \<and> (b \<longleftrightarrow> vr_error v c = None)"
proof (induction cs arbitrary: tr pre)
  case (Cons d cs)
  show ?case
  proof (cases "vr_error v d")
    case None
    obtain tr' where tr': "run_calls v cs = (tr', r)" "tr = (d, True) # tr'"
      using Cons.prems(1) None by (auto simp: Let_def split: prod.splits)
    show ?thesis
    proof (cases pre)
      case Nil
      then show ?thesis using tr'(2) Cons.prems(2) None by auto
    next
      case (Cons q pre')
      then have "tr' = pre' @ (c, b) # post" "q = (d, True)" using tr'(2) Cons.prems(2) by auto
      from Cons.IH[OF tr'(1) this(1)] obtain before after where
        "cs = before @ c # after" "pre' = map (\<lambda>c. (c, True)) before" "b \<longleftrightarrow> vr_error v c = None" by blast
      then show ?thesis using Cons \<open>q = (d, True)\<close> by (intro exI[of _ "d # before"] exI[of _ after]) auto
    qed
  next
    case (Some e)
    then have "pre = []" "d = c" "\<not> b" using Cons.prems by (auto simp: Cons_eq_append_conv)
    then show ?thesis using Some by auto
  qed
qed simp

lemma run_calls_subset: "fst ` set (fst (run_calls v cs)) \<subseteq> set cs"
proof (induction cs)
  case (Cons c cs)
  then show ?case by (simp add: Let_def case_prod_unfold split: option.split) blast
qed simp

lemma then_run_subset: "fst ` set (fst (then_run p q)) \<subseteq> fst ` set (fst p) \<union> fst ` set (fst q)"
  by (cases "(p, q)" rule: then_run.cases) auto

definition precopy_calls :: "v1_replies \<Rightarrow> v1_call set" where
  "precopy_calls v = {IncrementalBegin, IncrementalImmutable, IncrementalPrepareIn, IncrementalPreview, PrecopyLayers,
     IncrementalCommitIn, IncrementalAppend, AbortIncrementalSource, AbortIncrementalTarget}
     \<union> IncrementalSend ` set (vr_layers v) \<union> IncrementalReceive ` set (vr_layers v)"

lemma gather_calls_subset: "fst ` set (gather_calls v cs) = set cs"
  by (simp add: gather_calls_def image_image)

lemma precopy_cleanup_calls: "fst ` set (cleanup_v1_incremental_precopy v) \<subseteq> precopy_calls v"
  by (simp only: cleanup_v1_incremental_precopy_def gather_calls_subset) (simp add: precopy_calls_def)

lemma precopy_calls_only: "fst ` set (fst (run_v1_incremental_precopy v)) \<subseteq> precopy_calls v"
proof -
  have run: "set cs \<subseteq> precopy_calls v \<Longrightarrow> fst ` set (fst (run_calls v cs)) \<subseteq> precopy_calls v" for cs
    using run_calls_subset by (rule order_trans)
  have thn: "fst ` set (fst p) \<subseteq> precopy_calls v \<Longrightarrow> fst ` set (fst q) \<subseteq> precopy_calls v \<Longrightarrow>
      fst ` set (fst (then_run p q)) \<subseteq> precopy_calls v" for p and q :: "v1_trace \<times> (int \<times> int) list res"
    by (rule order_trans[OF then_run_subset]) (rule Un_least)
  have steps: "fst ` set (fst (precopy_steps v)) \<subseteq> precopy_calls v"
    unfolding precopy_steps_def
    by (cases "single_group (vr_immutable v)"; cases "single_group (vr_reserved v)";
        simp only: not_True_eq_False not_False_eq_True if_True if_False; intro thn run)
      (auto simp: precopy_calls_def)
  with precopy_cleanup_calls[of v] show ?thesis
    by (auto simp: run_v1_incremental_precopy_def split: prod.split sum.split) (metis fst_conv image_eqI subsetD)+
qed

subsection \<open>One attempt\<close>

lemma split_after_front:
  "front @ rest = pre @ x # post \<Longrightarrow> x \<notin> set front \<Longrightarrow> \<exists>us. pre = front @ us \<and> rest = us @ x # post"
  by (induction front arbitrary: pre) (auto simp: Cons_eq_append_conv)

lemma split_before_back:
  "rest @ rear = us @ x # post \<Longrightarrow> x \<notin> set rear \<Longrightarrow> \<exists>vs. rest = us @ x # vs"
proof (induction rest arbitrary: us)
  case (Cons r rest)
  then show ?case by (cases us) auto
qed simp

lemma commit_source_position:
  assumes "cutover_calls v skip = before @ CommitSource # after"
  shows "set before = {PrepareOut, PrepareIn, SourceBlocks, LayerNames, CommitTarget, RegisterTarget} \<union> set (transfer_calls v skip)"
proof -
  let ?A = "[PrepareOut, PrepareIn, SourceBlocks, LayerNames] @ transfer_calls v skip @ [CommitTarget, RegisterTarget]"
  have "CommitSource \<notin> set ?A" by (auto simp: transfer_calls_def)
  moreover have "cutover_calls v skip = ?A @ CommitSource # [FinishSource]" by (simp add: cutover_calls_def)
  moreover have "CommitSource \<notin> set [FinishSource]" by simp
  ultimately have "before = ?A" using assms by (metis append_Cons_eq_iff)
  then show ?thesis by auto
qed

lemma migrate_v1_request_parts:
  assumes "migrate_v1_request pc v = (tr, r)"
  obtains pre cut post and pairs :: "(int \<times> int) list" where "tr = pre @ cut @ post" "run_calls v (cutover_calls v (length pairs)) = (cut, r)"
    "fst ` set pre \<subseteq> precopy_calls v" "fst ` set post \<subseteq> precopy_calls v"
proof -
  define bp where "bp = (if pc then run_v1_incremental_precopy v else ([], []))"
  obtain cut r' where cut: "run_calls v (cutover_calls v (length (snd bp))) = (cut, r')"
    by (cases "run_calls v (cutover_calls v (length (snd bp)))")
  define post where "post = (if pc \<and> is_ok r' then cleanup_v1_incremental_precopy v else [])"
  have tr: "tr = fst bp @ cut @ post" "r = r'"
    using assms cut by (auto simp: migrate_v1_request_def Let_def bp_def[symmetric] post_def case_prod_unfold)
  have front: "fst ` set (fst bp) \<subseteq> precopy_calls v"
    using precopy_calls_only by (simp add: bp_def)
  have rear: "fst ` set post \<subseteq> precopy_calls v"
  proof -
    have "post = cleanup_v1_incremental_precopy v \<or> post = []" by (simp add: post_def)
    then show ?thesis using precopy_cleanup_calls[of v] by (elim disjE) (simp_all only: list.set image_empty empty_subsetI)
  qed
  show thesis by (rule that[OF tr(1) cut[folded tr(2)] front rear])
qed

text \<open>
  C7: the source keeps its copy until the target is complete. Whenever an attempt asks the
  source to release a request, with or without pre-copied blocks and whichever calls raise,
  it has before transferred every layer of every block group, sent and received, and the
  target has confirmed its commit and its registration. The attempt succeeds exactly when
  every call of the cutover does.
\<close>

theorem v1_source_released_last:
  assumes "migrate_v1_request pc v = (tr, r)"
  shows "(\<forall>pre b post. tr = pre @ (CommitSource, b) # post \<longrightarrow>
      (CommitTarget, True) \<in> set pre \<and> (RegisterTarget, True) \<in> set pre \<and> (PrepareOut, True) \<in> set pre
      \<and> (\<exists>skip. \<forall>g < min (length (vr_source_blocks v)) (length (vr_target_blocks v)). \<forall>l\<in>set (vr_layers v).
          (SendLayer g l skip, True) \<in> set pre \<and> (ReceiveLayer g l skip, True) \<in> set pre))
    \<and> (\<exists>skip. r = Inr () \<longleftrightarrow> (\<forall>c\<in>set (cutover_calls v skip). vr_error v c = None))"
proof -
  obtain front cut rear and pairs :: "(int \<times> int) list" where parts: "tr = front @ cut @ rear"
      "run_calls v (cutover_calls v (length pairs)) = (cut, r)"
      "fst ` set front \<subseteq> precopy_calls v" "fst ` set rear \<subseteq> precopy_calls v"
    by (rule migrate_v1_request_parts[OF assms])
  have absent: "(CommitSource, b) \<notin> set front" "(CommitSource, b) \<notin> set rear" for b
    using parts(3,4) by (force simp: precopy_calls_def)+
  let ?before = "{PrepareOut, PrepareIn, SourceBlocks, LayerNames, CommitTarget, RegisterTarget} \<union> set (transfer_calls v (length pairs))"
  have before: "(c, True) \<in> set pre" if "c \<in> ?before" and at: "tr = pre @ (CommitSource, b) # post" for pre b post c
  proof -
    obtain us where us: "pre = front @ us" "cut @ rear = us @ (CommitSource, b) # post"
      using split_after_front[OF at[unfolded parts(1)] absent(1)] by blast
    obtain vs where vs: "cut = us @ (CommitSource, b) # vs" using split_before_back[OF us(2) absent(2)] by blast
    obtain cs rest where cs: "cutover_calls v (length pairs) = cs @ CommitSource # rest" "us = map (\<lambda>c. (c, True)) cs"
      using run_calls_trace[OF parts(2) vs] by blast
    show ?thesis using that(1) unfolding commit_source_position[OF cs(1), symmetric] by (simp add: us(1) cs(2))
  qed
  have layers: "SendLayer g l (length pairs) \<in> ?before \<and> ReceiveLayer g l (length pairs) \<in> ?before"
    if "g < min (length (vr_source_blocks v)) (length (vr_target_blocks v))" "l \<in> set (vr_layers v)" for g l
    using that by (auto simp: transfer_calls_def)
  have ok: "r = Inr () \<longleftrightarrow> (\<forall>c\<in>set (cutover_calls v (length pairs)). vr_error v c = None)"
    using run_calls_ok[of v "cutover_calls v (length pairs)"] parts(2) by simp
  show ?thesis
  proof (intro conjI allI impI)
    fix pre b post assume at: "tr = pre @ (CommitSource, b) # post"
    show "(CommitTarget, True) \<in> set pre" "(RegisterTarget, True) \<in> set pre" "(PrepareOut, True) \<in> set pre"
      by (rule before[OF _ at], simp)+
    show "\<exists>skip. \<forall>g < min (length (vr_source_blocks v)) (length (vr_target_blocks v)). \<forall>l\<in>set (vr_layers v).
          (SendLayer g l skip, True) \<in> set pre \<and> (ReceiveLayer g l skip, True) \<in> set pre"
      using before[OF _ at] layers by blast
  qed (use ok in blast)
qed

subsection \<open>Attempts and routing\<close>

text \<open>An attempt ends the migration, or it raised an ordinary error and is undone.\<close>

definition ordinary :: "py_error \<Rightarrow> bool" where
  "ordinary e \<longleftrightarrow> e \<noteq> RayActorError \<and> \<not> not_migratable e"

definition routing :: "Manager \<Rightarrow> string \<Rightarrow> string option \<times> string set option" where
  "routing m r = (dget (request_instance m) r, dget (request_instances m) r)"

lemma record_migrated_routing: "routing (record_migrated m r y t) r = (Some y, Some {y})"
    "dget (v1_migration_retries (record_migrated m r y t)) r = None"
  by (simp_all add: routing_def record_migrated_def dget_dset dget_dpop)

lemma v1_attempts_step:
  assumes "va_others a = id" and "dmem x (mg_instances m)" and "dmem y (mg_instances m)"
    and "migrate_v1_request pc (va_replies a) = (tr, res)"
  shows "v1_attempts m x y r pc (a # rest) =
    (case res of
       Inr _ \<Rightarrow> (Inr (), tr, record_migrated m r y (va_now a))
     | Inl e \<Rightarrow> if \<not> ordinary e then (Inr (), tr, m)
         else (case v1_attempts (count_retry m r (rest \<noteq> [])) x y r pc rest of
             (res', tr', m') \<Rightarrow> (res', tr @ cleanup_v1_migration (va_replies a) @ tr', m')))"
  using assms by (simp add: ordinary_def check_instance_error_def split: sum.split)

lemma count_retry_keeps:
  "dget (v1_migration_retries (count_retry m r False)) r = None"
  "routing (count_retry m r b) q = routing m q" "mg_instances (count_retry m r b) = mg_instances m"
  by (simp_all add: routing_def count_retry_def dget_dpop)



text \<open>
  When the last call of the cutover fails the source has released the request already, and
  the clean-up drops it at the target too.
\<close>

lemma v1_late_failure_drops_both:
  assumes "dmem x (mg_instances m)" and "dmem y (mg_instances m)" and "va_others a = id"
    and "\<forall>c. c \<noteq> FinishSource \<longrightarrow> vr_error (va_replies a) c = None"
    and "vr_error (va_replies a) FinishSource = Some (RuntimeError [])" and "vr_layers (va_replies a) = []"
  shows "\<exists>pre post. fst (snd (migrate_v1_request_with_retry m x y r False (a, b)))
    = pre @ [(CommitSource, True), (FinishSource, False), (AbortTarget, True), (DropTarget, True)] @ post"
proof -
  obtain pre where pre: "migrate_v1_request False (va_replies a) = (pre @ [(CommitSource, True), (FinishSource, False)], Inl (RuntimeError []))"
    using assms(4-6) by (simp add: migrate_v1_request_def cutover_calls_def transfer_calls_def map_replicate_const)
  have "ordinary (RuntimeError [])" by (simp add: ordinary_def not_migratable_def)
  then have "fst (snd (migrate_v1_request_with_retry m x y r False (a, b)))
    = pre @ [(CommitSource, True), (FinishSource, False), (AbortTarget, True), (DropTarget, True)]
        @ [(AbortSource, True), (AbortIncrementalSource, True), (AbortIncrementalTarget, True)]
        @ fst (snd (v1_attempts (count_retry m r True) x y r False [b]))"
    using assms(4) v1_attempts_step[OF assms(3,1,2) pre]
    by (simp add: migrate_v1_request_with_retry_def cleanup_v1_migration_def gather_calls_def case_prod_unfold
        del: v1_attempts.simps)
  then show ?thesis by blast
qed

subsection \<open>Examples\<close>

definition smooth_replies :: v1_replies where
  "smooth_replies = \<lparr>vr_error = \<lambda>_. None, vr_immutable = [[1, 2]], vr_reserved = [[7, 8]],
     vr_source_blocks = [[1, 2, 3]], vr_target_blocks = [[7, 8, 9]], vr_layers = [''l0'']\<rparr>"

theorem v1_source_released_last_witness:
  "\<exists>tr r. migrate_v1_request True smooth_replies = (tr, r) \<and> r = Inr ()
    \<and> (\<forall>pre b post. tr = pre @ (CommitSource, b) # post \<longrightarrow> (CommitTarget, True) \<in> set pre)"
proof -
  obtain tr r where tr: "migrate_v1_request True smooth_replies = (tr, r)"
    by (cases "migrate_v1_request True smooth_replies")
  from v1_source_released_last[OF tr] tr show ?thesis by (auto simp: smooth_replies_def)
qed

definition example_attempt :: "v1_replies \<Rightarrow> v1_attempt" where
  "example_attempt v = \<lparr>va_others = id, va_replies = v, va_ready = \<lambda>_. Inr (), va_now = 5\<rparr>"

definition broken_replies :: "v1_call \<Rightarrow> py_error \<Rightarrow> v1_replies" where
  "broken_replies c e = smooth_replies\<lparr>vr_error := (\<lambda>d. if d = c then Some e else None)\<rparr>"



end
