(* ===== verification/V1_Migration.thy ===== *)
theory V1_Migration
  imports Py_Prelude
begin

text \<open>
  The reference state machine of the V1 key/value-cache migration
  (\<open>backends/vllm/v1_migration.py\<close>): snapshots, blocks, reservations and the
  \<open>MigrationCoordinator\<close>. The digests are parameters: \<open>canonical_checksum\<close> maps the
  serialised fields of a snapshot to its digest and \<open>sha256\<close> a block payload to its hex
  digest; nothing is assumed of them. Each operation returns its result and the state it
  leaves, also when it raises.
\<close>

definition PROTOCOL_VERSION :: int where
  "PROTOCOL_VERSION = 1"

datatype MigrationState = RUNNING | MIGRATING_OUT | OUT_READY | IMPORTING | IMPORT_READY | RELEASED

datatype stop_value = StopInt int | StopStr string

text \<open>The fields of a snapshot that its checksum covers.\<close>

record snapshot_fields =
  protocol_version :: int
  request_id :: string
  migration_epoch :: int
  prompt_token_ids :: "int list"
  all_token_ids :: "int list"
  output_token_ids :: "int list"
  num_computed_tokens :: int
  max_tokens :: int
  sampling_params :: "nat list"
  stop_reason :: "stop_value option"
  kv_layout_version :: string
  kv_group_block_counts :: "int list"
  feature_flags :: "string set"

datatype RequestMigrationSnapshot = Snapshot (fields_of: snapshot_fields) (snapshot_checksum: string)

definition compute_checksum :: "(snapshot_fields \<Rightarrow> string) \<Rightarrow> RequestMigrationSnapshot \<Rightarrow> string" where
  "compute_checksum canonical_checksum s = canonical_checksum (fields_of s)"

text \<open>The constructor with its validation; an empty checksum is filled in.\<close>

definition make_snapshot ::
  "(snapshot_fields \<Rightarrow> string) \<Rightarrow> snapshot_fields \<Rightarrow> string \<Rightarrow> RequestMigrationSnapshot res" where
  "make_snapshot canonical_checksum f checksum =
    (if request_id f = [] then Inl (MigrationError ''request_id must not be empty'')
     else if migration_epoch f \<le> 0 then Inl (MigrationError ''migration_epoch must be positive'')
     else if num_computed_tokens f < 0 \<or> max_tokens f < 0
       then Inl (MigrationError ''token counts must be non-negative'')
     else if num_computed_tokens f > int (length (all_token_ids f))
       then Inl (MigrationError ''num_computed_tokens exceeds token state'')
     else if protocol_version f \<noteq> PROTOCOL_VERSION
       then Inl (MigrationError ''unsupported migration protocol'')
     else if \<exists>n \<in> set (kv_group_block_counts f). n < 0
       then Inl (MigrationError ''KV block counts must be non-negative'')
     else Inr (Snapshot f (if checksum = [] then canonical_checksum f else checksum)))"

definition validate_checksum :: "(snapshot_fields \<Rightarrow> string) \<Rightarrow> RequestMigrationSnapshot \<Rightarrow> unit res" where
  "validate_checksum canonical_checksum s =
    (if snapshot_checksum s \<noteq> compute_checksum canonical_checksum s
     then Inl (MigrationError ''request snapshot checksum mismatch'') else Inr ())"

record KVBlock =
  group :: int
  ordinal :: int
  payload :: "nat list"
  block_checksum :: string

definition make_KVBlock :: "(nat list \<Rightarrow> string) \<Rightarrow> int \<Rightarrow> int \<Rightarrow> nat list \<Rightarrow> string \<Rightarrow> KVBlock res" where
  "make_KVBlock sha256 g n bytes checksum =
    (if g < 0 \<or> n < 0 then Inl (MigrationError ''block coordinates must be non-negative'')
     else let expected = sha256 bytes in
       if checksum \<noteq> [] \<and> checksum \<noteq> expected then Inl (MigrationError ''KV block checksum mismatch'')
       else Inr \<lparr>group = g, ordinal = n, payload = bytes,
                 block_checksum = (if checksum = [] then expected else checksum)\<rparr>)"

record ImportReservation =
  res_request_id :: string
  res_migration_epoch :: int
  block_ids :: "int list list"

record MigrationCoordinator =
  states :: "(string, MigrationState) dict"
  snapshots :: "(string, RequestMigrationSnapshot) dict"
  source_blocks :: "(string, KVBlock list) dict"
  reservations :: "(string \<times> int, ImportReservation) dict"
  imported :: "(string \<times> int, KVBlock list) dict"
  next_block_id :: int

definition init_MigrationCoordinator :: MigrationCoordinator where
  "init_MigrationCoordinator = \<lparr>states = [], snapshots = [], source_blocks = [],
     reservations = [], imported = [], next_block_id = 0\<rparr>"

definition register_running ::
  "MigrationCoordinator \<Rightarrow> string \<Rightarrow> KVBlock list \<Rightarrow> unit res \<times> MigrationCoordinator" where
  "register_running c x blocks =
    (if dmem x (states c) then (Inl (MigrationError ''request already registered''), c)
     else (Inr (), c\<lparr>states := dset x RUNNING (states c),
                     source_blocks := dset x blocks (source_blocks c)\<rparr>))"

definition prepare_migration_out ::
  "(snapshot_fields \<Rightarrow> string) \<Rightarrow> MigrationCoordinator \<Rightarrow> RequestMigrationSnapshot \<Rightarrow> KVBlock list \<Rightarrow>
    unit res \<times> MigrationCoordinator" where
  "prepare_migration_out canonical_checksum c s blocks =
    (case validate_checksum canonical_checksum s of
       Inl e \<Rightarrow> (Inl e, c)
     | Inr _ \<Rightarrow>
        let x = request_id (fields_of s) in
        if dget (states c) x \<noteq> Some RUNNING then (Inl (MigrationError ''request is not running''), c)
        else if int (length blocks) \<noteq> sum_list (kv_group_block_counts (fields_of s))
          then (Inl (MigrationError ''snapshot block count does not match payload''), c)
        else (Inr (), c\<lparr>states := dset x MIGRATING_OUT (states c),
                        snapshots := dset x s (snapshots c),
                        source_blocks := dset x blocks (source_blocks c)\<rparr>))"

definition export_migration ::
  "MigrationCoordinator \<Rightarrow> string \<Rightarrow> (RequestMigrationSnapshot \<times> KVBlock list) res \<times> MigrationCoordinator" where
  "export_migration c x =
    (if dget (states c) x \<noteq> Some MIGRATING_OUT
     then (Inl (MigrationError ''request is not in MIGRATING_OUT''), c)
     else let c = c\<lparr>states := dset x OUT_READY (states c)\<rparr> in
       case (dget (snapshots c) x, dget (source_blocks c) x) of
         (Some s, Some blocks) \<Rightarrow> (Inr (s, blocks), c)
       | _ \<Rightarrow> (Inl KeyError, c))"

definition allocate_id :: "MigrationCoordinator \<Rightarrow> int \<Rightarrow> int list \<times> MigrationCoordinator" where
  "allocate_id c n =
    ([next_block_id c .. next_block_id c + n - 1], c\<lparr>next_block_id := next_block_id c + n\<rparr>)"

fun allocate_groups :: "MigrationCoordinator \<Rightarrow> int list \<Rightarrow> int list list \<times> MigrationCoordinator" where
  "allocate_groups c [] = ([], c)"
| "allocate_groups c (n # counts) =
    (let (ids, c) = allocate_id c n; (rest, c) = allocate_groups c counts in (ids # rest, c))"

definition reserve_import ::
  "(snapshot_fields \<Rightarrow> string) \<Rightarrow> MigrationCoordinator \<Rightarrow> RequestMigrationSnapshot \<Rightarrow>
    ImportReservation res \<times> MigrationCoordinator" where
  "reserve_import canonical_checksum c s =
    (case validate_checksum canonical_checksum s of
       Inl e \<Rightarrow> (Inl e, c)
     | Inr _ \<Rightarrow>
        let f = fields_of s; key = (request_id f, migration_epoch f) in
        if dmem key (reservations c) then (Inl (MigrationError ''duplicate migration epoch''), c)
        else
          let (groups, c) = allocate_groups c (kv_group_block_counts f);
              reservation = \<lparr>res_request_id = request_id f, res_migration_epoch = migration_epoch f,
                             block_ids = groups\<rparr>
          in (Inr reservation, c\<lparr>reservations := dset key reservation (reservations c),
                                 states := dset (request_id f) IMPORTING (states c)\<rparr>))"

definition import_blocks ::
  "(nat list \<Rightarrow> string) \<Rightarrow> MigrationCoordinator \<Rightarrow> ImportReservation \<Rightarrow> KVBlock list \<Rightarrow>
    unit res \<times> MigrationCoordinator" where
  "import_blocks sha256 c r blocks =
    (let key = (res_request_id r, res_migration_epoch r) in
     if dget (reservations c) key \<noteq> Some r then (Inl (MigrationError ''unknown import reservation''), c)
     else if int (length blocks) \<noteq> sum_list (map (int \<circ> length) (block_ids r))
       then (Inl (MigrationError ''import block count mismatch''), c)
     else case res_map (\<lambda>b. make_KVBlock sha256 (group b) (ordinal b) (payload b) (block_checksum b)) blocks of
         Inl e \<Rightarrow> (Inl e, c)
       | Inr _ \<Rightarrow> (Inr (), c\<lparr>imported := dset key blocks (imported c),
                             states := dset (res_request_id r) IMPORT_READY (states c)\<rparr>))"

definition commit_import :: "MigrationCoordinator \<Rightarrow> ImportReservation \<Rightarrow> unit res \<times> MigrationCoordinator" where
  "commit_import c r =
    (let key = (res_request_id r, res_migration_epoch r) in
     if dget (states c) (res_request_id r) \<noteq> Some IMPORT_READY
       then (Inl (MigrationError ''import is not ready''), c)
     else if \<not> dmem key (imported c) then (Inl (MigrationError ''no imported KV payload''), c)
     else (Inr (), c\<lparr>states := dset (res_request_id r) RUNNING (states c)\<rparr>))"

definition commit_export :: "MigrationCoordinator \<Rightarrow> string \<Rightarrow> int \<Rightarrow> unit res \<times> MigrationCoordinator" where
  "commit_export c x epoch =
    (if dget (states c) x \<noteq> Some OUT_READY then (Inl (MigrationError ''export is not ready''), c)
     else case dget (snapshots c) x of
         None \<Rightarrow> (Inl KeyError, c)
       | Some s \<Rightarrow>
          if migration_epoch (fields_of s) \<noteq> epoch then (Inl (MigrationError ''migration epoch mismatch''), c)
          else (Inr (), c\<lparr>states := dset x RELEASED (states c), source_blocks := dpop x (source_blocks c)\<rparr>))"

definition imported_blocks :: "MigrationCoordinator \<Rightarrow> string \<Rightarrow> int \<Rightarrow> KVBlock list" where
  "imported_blocks c x epoch = dget_default (imported c) (x, epoch) []"

definition abort :: "MigrationCoordinator \<Rightarrow> string \<Rightarrow> int \<Rightarrow> unit res \<times> MigrationCoordinator" where
  "abort c x epoch =
    (let state = dget (states c) x in
     if (case dget (snapshots c) x of None \<Rightarrow> False | Some s \<Rightarrow> migration_epoch (fields_of s) \<noteq> epoch)
       then (Inl (MigrationError ''migration epoch mismatch''), c)
     else
       let drop = (\<lambda>c. c\<lparr>reservations := dpop (x, epoch) (reservations c),
                          imported := dpop (x, epoch) (imported c)\<rparr>)
       in if state \<in> {Some MIGRATING_OUT, Some OUT_READY}
            then (Inr (), drop (c\<lparr>states := dset x RUNNING (states c)\<rparr>))
          else if state \<in> {Some IMPORTING, Some IMPORT_READY}
            then (Inr (), drop (c\<lparr>states := dpop x (states c)\<rparr>))
          else (Inl (MigrationError ''cannot abort from state''), c))"

definition state_of :: "MigrationCoordinator \<Rightarrow> string \<Rightarrow> MigrationState res" where
  "state_of c x = (case dget (states c) x of
     None \<Rightarrow> Inl (MigrationError ''unknown request'') | Some s \<Rightarrow> Inr s)"

definition source_blocks_of :: "MigrationCoordinator \<Rightarrow> string \<Rightarrow> KVBlock list" where
  "source_blocks_of c x = dget_default (source_blocks c) x []"

subsection \<open>Runs and the invariant\<close>

text \<open>
  Snapshots reach the coordinator through their constructor, so the events that take one
  carry its fields and checksum; a construction that raises leaves the state alone.
\<close>

datatype mc_event =
    ERegister string "KVBlock list"
  | EPrepare snapshot_fields string "KVBlock list"
  | EExport string
  | EReserve snapshot_fields string
  | EImport ImportReservation "KVBlock list"
  | ECommitImport ImportReservation
  | ECommitExport string int
  | EAbort string int

fun mc_step ::
  "(snapshot_fields \<Rightarrow> string) \<Rightarrow> (nat list \<Rightarrow> string) \<Rightarrow> MigrationCoordinator \<Rightarrow> mc_event \<Rightarrow> MigrationCoordinator" where
  "mc_step cks sha c (ERegister x blocks) = snd (register_running c x blocks)"
| "mc_step cks sha c (EPrepare f k blocks) =
    (case make_snapshot cks f k of Inl _ \<Rightarrow> c | Inr s \<Rightarrow> snd (prepare_migration_out cks c s blocks))"
| "mc_step cks sha c (EExport x) = snd (export_migration c x)"
| "mc_step cks sha c (EReserve f k) =
    (case make_snapshot cks f k of Inl _ \<Rightarrow> c | Inr s \<Rightarrow> snd (reserve_import cks c s))"
| "mc_step cks sha c (EImport r blocks) = snd (import_blocks sha c r blocks)"
| "mc_step cks sha c (ECommitImport r) = snd (commit_import c r)"
| "mc_step cks sha c (ECommitExport x e) = snd (commit_export c x e)"
| "mc_step cks sha c (EAbort x e) = snd (abort c x e)"

definition reserved_ids :: "(string \<times> int, ImportReservation) dict \<Rightarrow> int list" where
  "reserved_ids d = concat (map (concat \<circ> block_ids) (dvalues d))"

text \<open>Every block a coordinator accepts has non-negative coordinates and its digest.\<close>

definition block_ok :: "(nat list \<Rightarrow> string) \<Rightarrow> KVBlock \<Rightarrow> bool" where
  "block_ok sha b \<longleftrightarrow> 0 \<le> group b \<and> 0 \<le> ordinal b
    \<and> (block_checksum b = [] \<or> block_checksum b = sha (payload b))"

definition ids_inv :: "MigrationCoordinator \<Rightarrow> bool" where
  "ids_inv c \<longleftrightarrow> distinct (dkeys (reservations c)) \<and> distinct (reserved_ids (reservations c))
    \<and> (\<forall>i \<in> set (reserved_ids (reservations c)). 0 \<le> i \<and> i < next_block_id c) \<and> 0 \<le> next_block_id c
    \<and> (\<forall>(k, r) \<in> set (reservations c). k = (res_request_id r, res_migration_epoch r))"

definition import_inv :: "(nat list \<Rightarrow> string) \<Rightarrow> MigrationCoordinator \<Rightarrow> bool" where
  "import_inv sha c \<longleftrightarrow>
     (\<forall>k bs. dget (imported c) k = Some bs \<longrightarrow> (\<exists>r. dget (reservations c) k = Some r
        \<and> length bs = length (concat (block_ids r)) \<and> (\<forall>b \<in> set bs. block_ok sha b)))
   \<and> (\<forall>x. dget (states c) x = Some IMPORT_READY \<longrightarrow> (\<exists>e. dmem (x, e) (imported c)))"

definition export_inv :: "MigrationCoordinator \<Rightarrow> bool" where
  "export_inv c \<longleftrightarrow>
     (\<forall>x. dget (states c) x \<in> {Some MIGRATING_OUT, Some OUT_READY} \<longrightarrow>
        (\<exists>s bs. dget (snapshots c) x = Some s \<and> dget (source_blocks c) x = Some bs
           \<and> int (length bs) = sum_list (kv_group_block_counts (fields_of s))))
   \<and> (\<forall>x s. dget (snapshots c) x = Some s \<longrightarrow> request_id (fields_of s) = x)"

definition mc_inv :: "(nat list \<Rightarrow> string) \<Rightarrow> MigrationCoordinator \<Rightarrow> bool" where
  "mc_inv sha c \<longleftrightarrow> ids_inv c \<and> import_inv sha c \<and> export_inv c"

lemma upto_append:
  fixes a n m :: int
  assumes "0 \<le> n" and "0 \<le> m"
  shows "[a .. a + n - 1] @ [a + n .. a + n + m - 1] = [a .. a + n + m - 1]"
proof (cases "m = 0")
  case False
  then have "a \<le> a + n" "a + n \<le> a + n + m - 1" using assms by auto
  from upto_split1[OF this] show ?thesis by simp
qed simp

lemma allocate_groups_result:
  "allocate_groups c ns = (groups, c') \<Longrightarrow> \<forall>n \<in> set ns. 0 \<le> n \<Longrightarrow>
    concat groups = [next_block_id c .. next_block_id c + sum_list ns - 1]
    \<and> c' = c\<lparr>next_block_id := next_block_id c + sum_list ns\<rparr> \<and> map (int \<circ> length) groups = ns"
proof (induction ns arbitrary: c groups c')
  case Nil
  then show ?case by simp
next
  case (Cons n ns)
  let ?d = "c\<lparr>next_block_id := next_block_id c + n\<rparr>"
  obtain rest where rest: "allocate_groups ?d ns = (rest, c')"
    "groups = [next_block_id c .. next_block_id c + n - 1] # rest"
    using Cons.prems(1) by (auto simp: allocate_id_def Let_def split: prod.splits)
  have IH: "concat rest = [next_block_id ?d .. next_block_id ?d + sum_list ns - 1]"
    "c' = ?d\<lparr>next_block_id := next_block_id ?d + sum_list ns\<rparr>" "map (int \<circ> length) rest = ns"
    using Cons.IH[OF rest(1)] Cons.prems(2) by auto
  have "0 \<le> sum_list ns" using Cons.prems(2) by (simp add: sum_list_nonneg)
  then have "concat groups = [next_block_id c .. next_block_id c + n + sum_list ns - 1]"
    using rest(2) IH(1) Cons.prems(2) upto_append[of n "sum_list ns" "next_block_id c"] by simp
  then show ?case using rest(2) IH(2,3) Cons.prems(2) by (simp add: add.assoc comp_def)
qed

lemma reserved_ids_dset:
  "\<not> dmem k d \<Longrightarrow> reserved_ids (dset k r d) = reserved_ids d @ concat (block_ids r)"
  by (simp add: dset_new reserved_ids_def)

lemma reserved_ids_dpop: "set (reserved_ids (dpop k d)) \<subseteq> set (reserved_ids d)"
  by (auto simp: reserved_ids_def dest: dpop_entries)

lemma distinct_reserved_ids_dpop: "distinct (reserved_ids d) \<Longrightarrow> distinct (reserved_ids (dpop k d))"
proof (induction d)
  case (Cons p d)
  then show ?case using reserved_ids_dpop[of k d] by (auto simp: reserved_ids_def)
qed (simp add: reserved_ids_def)

lemma make_snapshotD:
  "make_snapshot cks f k = Inr s \<Longrightarrow> fields_of s = f \<and> (\<forall>n \<in> set (kv_group_block_counts f). 0 \<le> n)
    \<and> 0 < migration_epoch f \<and> request_id f \<noteq> []"
  by (auto simp: make_snapshot_def split: if_splits)

lemma make_KVBlock_ok:
  "make_KVBlock sha (group b) (ordinal b) (payload b) (block_checksum b) = Inr b' \<Longrightarrow> block_ok sha b"
  by (auto simp: make_KVBlock_def block_ok_def Let_def split: if_splits)

lemma register_inv: "mc_inv sha c \<Longrightarrow> mc_inv sha (snd (register_running c x bs))"
  by (auto simp: register_running_def mc_inv_def ids_inv_def import_inv_def export_inv_def dget_dset)

lemma prepare_inv: "mc_inv sha c \<Longrightarrow> mc_inv sha (snd (prepare_migration_out cks c s bs))"
  by (auto simp: prepare_migration_out_def mc_inv_def ids_inv_def import_inv_def export_inv_def dget_dset
      Let_def split: sum.split)

lemma export_step_inv: "mc_inv sha c \<Longrightarrow> mc_inv sha (snd (export_migration c x))"
  by (auto simp: export_migration_def mc_inv_def ids_inv_def import_inv_def export_inv_def dget_dset
      Let_def split: option.split)

lemma commit_import_inv: "mc_inv sha c \<Longrightarrow> mc_inv sha (snd (commit_import c r))"
  by (auto simp: commit_import_def mc_inv_def ids_inv_def import_inv_def export_inv_def dget_dset Let_def)

lemma commit_export_inv: "mc_inv sha c \<Longrightarrow> mc_inv sha (snd (commit_export c x e))"
  by (auto simp: commit_export_def mc_inv_def ids_inv_def import_inv_def export_inv_def dget_dset dget_dpop
      split: option.split)

lemma reserve_inv:
  assumes "mc_inv sha c" and "\<forall>n \<in> set (kv_group_block_counts (fields_of s)). 0 \<le> n"
  shows "mc_inv sha (snd (reserve_import cks c s))"
proof (cases "validate_checksum cks s")
  case (Inl e)
  then show ?thesis using assms(1) by (simp add: reserve_import_def)
next
  case (Inr u)
  let ?f = "fields_of s"
  let ?key = "(request_id ?f, migration_epoch ?f)"
  show ?thesis
  proof (cases "dmem ?key (reservations c)")
    case True
    then show ?thesis using assms(1) Inr by (simp add: reserve_import_def Let_def)
  next
    case False
    obtain groups c' where g: "allocate_groups c (kv_group_block_counts ?f) = (groups, c')" by fastforce
    let ?n = "sum_list (kv_group_block_counts ?f)"
    let ?r = "\<lparr>res_request_id = request_id ?f, res_migration_epoch = migration_epoch ?f, block_ids = groups\<rparr>"
    have groups: "concat groups = [next_block_id c .. next_block_id c + ?n - 1]"
      and c': "c' = c\<lparr>next_block_id := next_block_id c + ?n\<rparr>"
      using allocate_groups_result[OF g assms(2)] by auto
    have n: "0 \<le> ?n" using assms(2) by (simp add: sum_list_nonneg)
    have result: "snd (reserve_import cks c s) =
        c'\<lparr>reservations := dset ?key ?r (reservations c), states := dset (request_id ?f) IMPORTING (states c)\<rparr>"
      using False Inr g c' by (simp add: reserve_import_def Let_def)
    have "ids_inv (snd (reserve_import cks c s))"
      using assms(1) False groups n c' unfolding result
      by (auto simp: mc_inv_def ids_inv_def reserved_ids_dset distinct_dset dest: dset_entries)
    moreover have "import_inv sha (snd (reserve_import cks c s))"
      using assms(1) False c' unfolding result
      by (fastforce simp: mc_inv_def import_inv_def dget_dset dmem_iff)
    moreover have "export_inv (snd (reserve_import cks c s))"
      using assms(1) c' unfolding result by (auto simp: mc_inv_def export_inv_def dget_dset)
    ultimately show ?thesis by (simp add: mc_inv_def)
  qed
qed

lemma int_length_concat: "int (length (concat xs)) = sum_list (map (int \<circ> length) xs)"
  by (induction xs) auto

lemma import_blocks_inv:
  assumes "mc_inv sha c"
  shows "mc_inv sha (snd (import_blocks sha c r bs))"
proof (cases "fst (import_blocks sha c r bs)")
  case (Inl e)
  then have "snd (import_blocks sha c r bs) = c"
    by (auto simp: import_blocks_def Let_def split: if_splits sum.splits)
  with assms show ?thesis by simp
next
  case (Inr u)
  let ?key = "(res_request_id r, res_migration_epoch r)"
  have r: "dget (reservations c) ?key = Some r"
    and len: "int (length bs) = sum_list (map (int \<circ> length) (block_ids r))"
    and ok: "is_ok (res_map (\<lambda>b. make_KVBlock sha (group b) (ordinal b) (payload b) (block_checksum b)) bs)"
    and result: "snd (import_blocks sha c r bs) = c\<lparr>imported := dset ?key bs (imported c),
        states := dset (res_request_id r) IMPORT_READY (states c)\<rparr>"
    using Inr by (auto simp: import_blocks_def Let_def split: if_splits sum.splits)
  have "length bs = length (concat (block_ids r))" using len int_length_concat by (metis of_nat_eq_iff)
  moreover have "\<forall>b \<in> set bs. block_ok sha b"
    using ok res_map_mem make_KVBlock_ok by (fastforce simp: is_ok_iff)
  ultimately show ?thesis
    using assms r unfolding result
    by (auto simp: mc_inv_def ids_inv_def import_inv_def export_inv_def dget_dset dkeys_dset)
qed

text \<open>The state after a successful abort, from the source and from the importing side.\<close>

definition dropped :: "MigrationCoordinator \<Rightarrow> string \<Rightarrow> int \<Rightarrow> MigrationCoordinator" where
  "dropped c x e = c\<lparr>reservations := dpop (x, e) (reservations c), imported := dpop (x, e) (imported c)\<rparr>"

lemma abort_cases:
  obtains (failed) err where "abort c x e = (Inl err, c)"
  | (source) "dget (states c) x \<in> {Some MIGRATING_OUT, Some OUT_READY}"
      "abort c x e = (Inr (), dropped (c\<lparr>states := dset x RUNNING (states c)\<rparr>) x e)"
  | (importing) "dget (states c) x \<in> {Some IMPORTING, Some IMPORT_READY}"
      "abort c x e = (Inr (), dropped (c\<lparr>states := dpop x (states c)\<rparr>) x e)"
proof -
  let ?mismatch = "case dget (snapshots c) x of None \<Rightarrow> False | Some s \<Rightarrow> migration_epoch (fields_of s) \<noteq> e"
  let ?out = "dget (states c) x \<in> {Some MIGRATING_OUT, Some OUT_READY}"
  let ?in = "dget (states c) x \<in> {Some IMPORTING, Some IMPORT_READY}"
  consider "?mismatch" | "\<not> ?mismatch" "?out" | "\<not> ?mismatch" "\<not> ?out" "?in"
    | "\<not> ?mismatch" "\<not> ?out" "\<not> ?in" by blast
  then show thesis
  proof cases
    case 1
    show thesis by (rule that(1)) (simp only: abort_def Let_def 1 if_True)
  next
    case 2
    show thesis
      by (rule that(2)[OF 2(2)]) (simp only: abort_def Let_def 2 if_True if_False dropped_def)
  next
    case 3
    show thesis
      by (rule that(3)[OF 3(3)]) (simp only: abort_def Let_def 3 if_True if_False dropped_def)
  next
    case 4
    show thesis by (rule that(1)) (simp only: abort_def Let_def 4 if_False)
  qed
qed

lemma dropped_ids_inv: "ids_inv c \<Longrightarrow> ids_inv (dropped c x e)"
  using reserved_ids_dpop[of "(x, e)" "reservations c"]
  by (auto simp: ids_inv_def dropped_def distinct_dpop distinct_reserved_ids_dpop dest: dpop_entries)

lemma abort_inv:
  assumes "mc_inv sha c"
  shows "mc_inv sha (snd (abort c x e))"
proof (cases rule: abort_cases[of c x e])
  case (failed err)
  with assms show ?thesis by simp
next
  case source
  have "ids_inv (snd (abort c x e))"
    unfolding source(2) snd_conv by (rule dropped_ids_inv) (use assms in \<open>simp add: mc_inv_def ids_inv_def\<close>)
  moreover have "import_inv sha (snd (abort c x e))" "export_inv (snd (abort c x e))"
    using assms unfolding source(2) snd_conv
    by (fastforce simp: mc_inv_def import_inv_def export_inv_def dropped_def dget_dset dget_dpop dkeys_dpop)+
  ultimately show ?thesis by (simp add: mc_inv_def)
next
  case importing
  have "ids_inv (snd (abort c x e))"
    unfolding importing(2) snd_conv by (rule dropped_ids_inv) (use assms in \<open>simp add: mc_inv_def ids_inv_def\<close>)
  moreover have "import_inv sha (snd (abort c x e))" "export_inv (snd (abort c x e))"
    using assms unfolding importing(2) snd_conv
    by (fastforce simp: mc_inv_def import_inv_def export_inv_def dropped_def dget_dset dget_dpop dkeys_dpop)+
  ultimately show ?thesis by (simp add: mc_inv_def)
qed

interpretation mc_machine: invariant_machine "mc_step cks sha" "mc_inv sha" for cks sha
proof unfold_locales
  fix c e assume "mc_inv sha c"
  then show "mc_inv sha (mc_step cks sha c e)"
    by (cases e) (auto split: sum.split intro: register_inv prepare_inv export_step_inv reserve_inv
        import_blocks_inv commit_import_inv commit_export_inv abort_inv dest: make_snapshotD)
qed

lemma init_mc_inv: "mc_inv sha init_MigrationCoordinator"
  by (simp add: mc_inv_def ids_inv_def import_inv_def export_inv_def init_MigrationCoordinator_def reserved_ids_def)

subsection \<open>Properties\<close>

text \<open>
  C8: over every sequence of operations of a coordinator, the block ids held by import
  reservations are pairwise distinct and were handed out once, also after aborts; an
  imported payload belongs to a reservation of exactly its size and every block of it
  passed the digest check; and a request that is leaving has its snapshot and a payload
  of the size the snapshot announces.
\<close>

theorem coordinator_invariant: "mc_inv sha (foldl (mc_step cks sha) init_MigrationCoordinator events)"
  using init_mc_inv by (rule mc_machine.run_preserves)

text \<open>
  Exporting a request and committing an export raise only migration errors. The
  dictionary lookups in them cannot fail in a state the coordinator can reach.
\<close>

theorem export_lookups_defined:
  fixes events cks sha
  defines "c \<equiv> foldl (mc_step cks sha) init_MigrationCoordinator events"
  shows "fst (export_migration c x) \<noteq> Inl KeyError \<and> fst (commit_export c x e) \<noteq> Inl KeyError"
proof -
  have "export_inv c"
    using mc_machine.run_preserves[OF init_mc_inv, of sha cks events] by (simp add: c_def mc_inv_def)
  then have "dget (states c) x \<in> {Some MIGRATING_OUT, Some OUT_READY} \<Longrightarrow>
      \<exists>s bs. dget (snapshots c) x = Some s \<and> dget (source_blocks c) x = Some bs"
    unfolding export_inv_def by blast
  then show ?thesis by (auto simp: export_migration_def commit_export_def Let_def split: option.split)
qed

text \<open>
  C9: the two-phase handover completes. From a running request whose blocks match its
  snapshot, with no reservation for that epoch at the destination, every step of
  prepare, export, reserve, import, commit at the destination and commit at the source
  succeeds; then the request runs at the destination with exactly the blocks of the
  source, and the source has released it and its blocks.
\<close>

theorem handover_completes:
  assumes "make_snapshot cks f [] = Inr s" and "dget (states src) (request_id f) = Some RUNNING"
    and "int (length blocks) = sum_list (kv_group_block_counts f)" and "\<forall>b \<in> set blocks. block_ok sha b"
    and "\<not> dmem (request_id f, migration_epoch f) (reservations dst)"
  shows "\<exists>r src1 src2 src3 dst1 dst2 dst3.
      prepare_migration_out cks src s blocks = (Inr (), src1)
    \<and> export_migration src1 (request_id f) = (Inr (s, blocks), src2)
    \<and> reserve_import cks dst s = (Inr r, dst1)
    \<and> import_blocks sha dst1 r blocks = (Inr (), dst2)
    \<and> commit_import dst2 r = (Inr (), dst3)
    \<and> commit_export src2 (request_id f) (migration_epoch f) = (Inr (), src3)
    \<and> state_of dst3 (request_id f) = Inr RUNNING
    \<and> imported_blocks dst3 (request_id f) (migration_epoch f) = blocks
    \<and> state_of src3 (request_id f) = Inr RELEASED \<and> source_blocks_of src3 (request_id f) = []"
proof -
  have s: "s = Snapshot f (cks f)" using assms(1) by (auto simp: make_snapshot_def split: if_splits)
  have valid: "validate_checksum cks s = Inr ()" by (simp add: s validate_checksum_def compute_checksum_def)
  have counts: "\<forall>n \<in> set (kv_group_block_counts f). 0 \<le> n" using make_snapshotD[OF assms(1)] by blast
  obtain groups d where g: "allocate_groups dst (kv_group_block_counts f) = (groups, d)" by fastforce
  have len: "map (int \<circ> length) groups = kv_group_block_counts f" "reservations d = reservations dst"
    using allocate_groups_result[OF g counts] by auto
  have block: "make_KVBlock sha (group b) (ordinal b) (payload b) (block_checksum b)
      = Inr (b\<lparr>block_checksum := sha (payload b)\<rparr>)" if "block_ok sha b" for b
    using that by (auto simp: block_ok_def make_KVBlock_def Let_def)
  have checked: "res_map (\<lambda>b. make_KVBlock sha (group b) (ordinal b) (payload b) (block_checksum b)) blocks
      = Inr (map (\<lambda>b. b\<lparr>block_checksum := sha (payload b)\<rparr>) blocks)"
    by (rule res_map_total, rule block) (use assms(4) in simp)
  show ?thesis
    using assms(2,3,5) valid len g checked
    by (auto simp: prepare_migration_out_def export_migration_def reserve_import_def import_blocks_def
        commit_import_def commit_export_def state_of_def imported_blocks_def source_blocks_of_def
        dget_default_def Let_def s dict_simps)
qed

text \<open>
  An abort at the source undoes the freeze. A request that is leaving, aborted with
  the epoch of its snapshot, is running again with the blocks it had; no other request
  changes state and no other reservation or payload is touched.
\<close>

theorem source_abort_restores:
  assumes "dget (states c) x \<in> {Some MIGRATING_OUT, Some OUT_READY}" and "dget (snapshots c) x = Some s"
    and "migration_epoch (fields_of s) = e"
  shows "\<exists>c'. abort c x e = (Inr (), c') \<and> state_of c' x = Inr RUNNING
    \<and> source_blocks c' = source_blocks c \<and> (\<forall>y. y \<noteq> x \<longrightarrow> state_of c' y = state_of c y)
    \<and> (\<forall>k. k \<noteq> (x, e) \<longrightarrow> dget (reservations c') k = dget (reservations c) k
          \<and> dget (imported c') k = dget (imported c) k)"
proof -
  have "abort c x e = (Inr (), dropped (c\<lparr>states := dset x RUNNING (states c)\<rparr>) x e)"
    using assms by (auto simp: abort_def dropped_def Let_def)
  then show ?thesis by (auto simp: dropped_def state_of_def dict_simps)
qed

definition example_fields :: "int \<Rightarrow> snapshot_fields" where
  "example_fields epoch = \<lparr>protocol_version = 1, request_id = ''r'', migration_epoch = epoch,
    prompt_token_ids = [1], all_token_ids = [1, 2], output_token_ids = [2], num_computed_tokens = 1,
    max_tokens = 8, sampling_params = [], stop_reason = None, kv_layout_version = ''vllm-v1'',
    kv_group_block_counts = [1], feature_flags = {}\<rparr>"

definition example_block :: KVBlock where
  "example_block = \<lparr>group = 0, ordinal = 0, payload = [7], block_checksum = []\<rparr>"

definition running_coordinator :: MigrationCoordinator where
  "running_coordinator = init_MigrationCoordinator
    \<lparr>states := [(''r'', RUNNING)], source_blocks := [(''r'', [example_block])]\<rparr>"

theorem handover_completes_witness:
  "\<exists>r dst1 dst2 dst3.
      reserve_import (\<lambda>_. ''k'') init_MigrationCoordinator (Snapshot (example_fields 1) ''k'') = (Inr r, dst1)
    \<and> import_blocks (\<lambda>_. ''h'') dst1 r [example_block] = (Inr (), dst2)
    \<and> commit_import dst2 r = (Inr (), dst3) \<and> state_of dst3 ''r'' = Inr RUNNING"
proof -
  have "make_snapshot (\<lambda>_. ''k'') (example_fields 1) [] = Inr (Snapshot (example_fields 1) ''k'')"
    by (simp add: make_snapshot_def example_fields_def PROTOCOL_VERSION_def)
  from handover_completes[OF this, of running_coordinator "[example_block]" "\<lambda>_. ''h''" init_MigrationCoordinator]
  show ?thesis
    by (auto simp: running_coordinator_def example_fields_def example_block_def block_ok_def
        init_MigrationCoordinator_def)
qed

theorem source_abort_restores_witness:
  "\<exists>c'. abort (running_coordinator\<lparr>states := [(''r'', OUT_READY)],
        snapshots := [(''r'', Snapshot (example_fields 3) ''k'')]\<rparr>) ''r'' 3 = (Inr (), c')
      \<and> state_of c' ''r'' = Inr RUNNING"
  using source_abort_restores[of "running_coordinator\<lparr>states := [(''r'', OUT_READY)],
      snapshots := [(''r'', Snapshot (example_fields 3) ''k'')]\<rparr>" "''r''" "Snapshot (example_fields 3) ''k''" 3]
  by (auto simp: example_fields_def)


end
