(* ===== verification/Command_Line.thy ===== *)
theory Command_Line
  imports Launching
begin

text \<open>
  The command line and the configuration tree (\<open>arg_utils.py\<close>, \<open>config/\<close>): the option
  tables, the check of the choices against the parser, the tree of defaults, merging a
  file into it, and overriding its leaves by the parsed options. The merge of the yacs
  library is not modelled: the tree after it is an argument.
\<close>

subsection \<open>Option tables\<close>

datatype cli_kind = TypeInt | TypeFloat | TypeStr | TypeBool | StoreTrue | StoreFalse

record cli_option =
  opt_flag :: string
  opt_dest :: string
  opt_kind :: cli_kind
  opt_choices :: "string list option"
  opt_default :: "bool option"

text \<open>The attribute name argparse derives from a long flag.\<close>

definition dest_of :: "string \<Rightarrow> string" where
  "dest_of flag = map (\<lambda>c. if c = CHR ''-'' then CHR ''_'' else c) (drop 2 flag)"

text \<open>
  \<open>add_argument\<close> of the Llumnix parser: a default is refused, and the default of a
  \<open>store_true\<close> option becomes \<open>None\<close>. A \<open>store_false\<close> option keeps argparse's \<open>True\<close>.
\<close>

definition add_argument ::
  "string \<Rightarrow> string option \<Rightarrow> cli_kind \<Rightarrow> string list option \<Rightarrow> bool option option \<Rightarrow> cli_option res" where
  "add_argument flag dest kind choices given_default =
    (if given_default \<notin> {None, Some None} then Inl AssertionError
     else Inr \<lparr>opt_flag = flag, opt_dest = (case dest of None \<Rightarrow> dest_of flag | Some d \<Rightarrow> d), opt_kind = kind,
               opt_choices = choices, opt_default = (if kind = StoreFalse then Some True else None)\<rparr>)"

abbreviation plain_option :: "string \<Rightarrow> cli_kind \<Rightarrow> cli_option res" where
  "plain_option flag kind \<equiv> add_argument flag None kind None None"

abbreviation choice_option :: "string \<Rightarrow> string list \<Rightarrow> cli_option res" where
  "choice_option flag choices \<equiv> add_argument flag None TypeStr (Some choices) None"

definition entrypoints_cli :: "cli_option res list" where
  "entrypoints_cli =
    [plain_option ''--launch-ray-cluster'' StoreTrue,
     add_argument ''--no-launch-ray-cluster'' (Some ''launch_ray_cluster'') StoreFalse None None,
     plain_option ''--ray-cluster-port'' TypeInt,
     plain_option ''--disable-log-to-driver'' StoreTrue,
     choice_option ''--request-output-queue-type'' [''rayqueue'', ''zmq''],
     plain_option ''--request-output-queue-port'' TypeInt,
     plain_option ''--disable-log-requests-server'' StoreTrue,
     plain_option ''--log-request-timestamps'' StoreTrue,
     plain_option ''--config-file'' TypeStr]"

definition manager_cli :: "cli_option res list" where
  "manager_cli =
    [plain_option ''--initial-instances'' TypeInt,
     plain_option ''--polling-interval'' TypeFloat,
     choice_option ''--scaling-load-metric'' [''remaining_steps'', ''usage_ratio'', ''virtual_usage''],
     choice_option ''--dispatch-policy'' [''balanced'', ''load'', ''queue'', ''flood'', ''rr''],
     plain_option ''--topk-random-dispatch'' TypeInt,
     plain_option ''--enable-migration'' StoreTrue,
     plain_option ''--pair-migration-frequency'' TypeInt,
     choice_option ''--pair-migration-policy'' [''balanced'', ''defrag''],
     plain_option ''--migrate-out-threshold'' TypeFloat,
     plain_option ''--enable-scaling'' StoreTrue,
     plain_option ''--min-instances'' TypeInt,
     plain_option ''--max-instances'' TypeInt,
     plain_option ''--scaling-interval'' TypeInt,
     choice_option ''--scaling-policy'' [''max_load'', ''avg_load''],
     plain_option ''--scale-up-threshold'' TypeFloat,
     plain_option ''--scale-down-threshold'' TypeFloat,
     plain_option ''--disable-log-requests-manager'' StoreTrue,
     plain_option ''--log-instance-info'' StoreTrue,
     plain_option ''--log-filename'' TypeStr,
     plain_option ''--enable-port-increment'' StoreTrue,
     plain_option ''--enable-port-offset-store'' StoreTrue,
     plain_option ''--enable-pd-disagg'' StoreTrue,
     plain_option ''--pd-ratio'' TypeStr]"

definition instance_cli :: "cli_option res list" where
  "instance_cli =
    [choice_option ''--instance-type'' [''prefill'', ''decode'', ''no_constraints''],
     plain_option ''--profiling-result-file-path'' TypeStr,
     plain_option ''--simulator-mode'' StoreTrue,
     choice_option ''--dispatch-load-metric'' [''remaining_steps'', ''usage_ratio'', ''virtual_usage''],
     choice_option ''--migration-load-metric'' [''remaining_steps'', ''usage_ratio''],
     plain_option ''--enable-defrag'' TypeBool,
     add_argument ''--request-migration-policy'' None TypeStr
       (Some [''LCR'', ''SR'', ''LR'', ''FCW'', ''FCWSR'']) (Some None),
     choice_option ''--migration-backend'' [''gloo'', ''nccl'', ''rayrpc'', ''grpc'', ''kvtransfer''],
     plain_option ''--migration-buffer-blocks'' TypeInt,
     plain_option ''--migration-num-layers'' TypeInt,
     plain_option ''--migration-backend-init-timeout'' TypeFloat,
     choice_option ''--migration-backend-transfer-type''
       [''cuda_ipc'', ''rdma'', ''SharedStorageConnector'', ''P2pNcclConnector'', ''NixlConnector'',
        ''LMCacheConnectorV1'', ''OffloadingConnector'', ''CoreXP2pNcclConnector''],
     plain_option ''--grpc-migration-backend-server-address'' TypeStr,
     plain_option ''--kvtransfer-migration-backend-naming-url'' TypeStr,
     plain_option ''--migration-max-stages'' TypeInt,
     plain_option ''--migration-last-stage-max-blocks'' TypeInt]"

definition cli_options :: "cli_option list res" where
  "cli_options = res_map id (entrypoints_cli @ manager_cli @ instance_cli)"

text \<open>
  The loop of every \<open>check_args\<close>: options with choices whose name is an attribute. Only
  attributes that hold a string can differ here, since only string options have choices.
\<close>

definition check_choices :: "cli_option list \<Rightarrow> (string \<Rightarrow> string option) \<Rightarrow> bool" where
  "check_choices options attr \<longleftrightarrow>
    list_all (\<lambda>opt. case (opt_choices opt, attr (opt_dest opt)) of
        (Some choices, Some v) \<Rightarrow> v \<in> set choices
      | _ \<Rightarrow> True) options"

definition manager_attr :: "ManagerArgs \<Rightarrow> string \<Rightarrow> string option" where
  "manager_attr a = map_of
    [(''dispatch_policy'', ma_dispatch_policy a), (''scaling_load_metric'', ma_scaling_load_metric a),
     (''pair_migration_policy'', ma_pair_migration_policy a), (''scaling_policy'', ma_scaling_policy a),
     (''log_filename'', log_filename a)]"

definition instance_attr :: "InstanceArgs \<Rightarrow> string \<Rightarrow> string option" where
  "instance_attr a = map_of
    [(''instance_type'', ia_instance_type a), (''dispatch_load_metric'', ia_dispatch_load_metric a),
     (''migration_load_metric'', ia_migration_load_metric a),
     (''request_migration_policy'', ia_request_migration_policy a), (''migration_backend'', ia_migration_backend a),
     (''migration_backend_transfer_type'', ia_migration_backend_transfer_type a),
     (''grpc_migration_backend_server_address'', ia_grpc_migration_backend_server_address a),
     (''kvtransfer_migration_backend_naming_url'', ia_kvtransfer_migration_backend_naming_url a)]"

definition entrypoints_attr :: "EntrypointsArgs \<Rightarrow> string \<Rightarrow> string option" where
  "entrypoints_attr a = map_of
    [(''host'', ea_host a), (''log_level'', ea_log_level a), (''request_output_queue_type'', ea_request_output_queue_type a)]"

definition entrypoints_check_args :: "EntrypointsArgs \<Rightarrow> unit res" where
  "entrypoints_check_args a =
    res_bind cli_options (\<lambda>options. if check_choices options (entrypoints_attr a) then Inr () else Inl AssertionError)"

subsection \<open>The configuration tree\<close>

datatype cfg_value = CNone | CBool bool | CInt int | CFloat pynum | CStr string | CNode "(string \<times> cfg_value) list"

fun merge_a_into_b :: "(string, cfg_value) dict \<Rightarrow> (string, cfg_value) dict \<Rightarrow> (string, cfg_value) dict res" where
  "merge_a_into_b [] b = Inr b"
| "merge_a_into_b ((k, CNode n) # a) b =
    (case dget b k of
       None \<Rightarrow> merge_a_into_b a (dset k (CNode n) b)
     | Some (CNode old) \<Rightarrow> res_bind (merge_a_into_b n old) (\<lambda>new. merge_a_into_b a (dset k (CNode new) b))
     | Some _ \<Rightarrow> Inl AssertionError)"
| "merge_a_into_b ((k, v) # a) b = merge_a_into_b a (dset k v b)"

definition lower_char :: "char \<Rightarrow> char" where
  "lower_char c =
    (case map_of (zip ''ABCDEFGHIJKLMNOPQRSTUVWXYZ'' ''abcdefghijklmnopqrstuvwxyz'') c of None \<Rightarrow> c | Some l \<Rightarrow> l)"

abbreviation lower :: "string \<Rightarrow> string" where
  "lower s \<equiv> map lower_char s"

text \<open>Overriding the leaves: the name of a leaf in lower case is the name of its option.\<close>

fun update_value :: "(string, cfg_value) dict \<Rightarrow> string \<times> cfg_value \<Rightarrow> string \<times> cfg_value" where
  "update_value args (k, CNode n) = (k, CNode (map (update_value args) n))"
| "update_value args (k, v) =
    (k, case dget args (lower k) of None \<Rightarrow> v | Some CNone \<Rightarrow> v | Some w \<Rightarrow> w)"

definition update_config :: "(string, cfg_value) dict \<Rightarrow> (string, cfg_value) dict \<Rightarrow> (string, cfg_value) dict" where
  "update_config args config = map (update_value args) config"

definition server_defaults :: "(string, cfg_value) dict" where
  "server_defaults =
    [(''HOST'', CStr ''localhost''), (''PORT'', CInt 8000), (''SSL_KEYFILE'', CNone), (''SSL_CERTFILE'', CNone),
     (''LOG_LEVEL'', CStr ''info''), (''REQUEST_OUTPUT_QUEUE_TYPE'', CStr ''rayqueue''),
     (''REQUEST_OUTPUT_QUEUE_PORT'', CInt 1234), (''DISABLE_LOG_REQUESTS_SERVER'', CBool False),
     (''LOG_REQUEST_TIMESTAMPS'', CBool False), (''CONFIG_FILE'', CNone),
     (''DISABLE_KEEP_SERVE_PROCESS_ALIVE'', CBool False), (''LAUNCH_RAY_CLUSTER'', CBool False),
     (''RAY_CLUSTER_PORT'', CInt 6379), (''DISABLE_LOG_TO_DRIVER'', CBool False)]"

definition manager_defaults :: "(string, cfg_value) dict" where
  "manager_defaults =
    [(''INITIAL_INSTANCES'', CInt 1), (''POLLING_INTERVAL'', CFloat (Fin (1 / 20))),
     (''DISABLE_LOG_REQUESTS_MANAGER'', CBool False), (''LOG_INSTANCE_INFO'', CBool False),
     (''LOG_FILENAME'', CStr ''server.log''), (''ENABLE_PORT_INCREMENT'', CBool False),
     (''ENABLE_PORT_OFFSET_STORE'', CBool False), (''ENABLE_PD_DISAGG'', CBool False), (''PD_RATIO'', CStr ''1:1''),
     (''DISPATCH_POLICY'', CStr ''load''), (''TOPK_RANDOM_DISPATCH'', CInt 1), (''ENABLE_MIGRATION'', CBool False),
     (''PAIR_MIGRATION_FREQUENCY'', CInt 1), (''PAIR_MIGRATION_POLICY'', CStr ''defrag''),
     (''MIGRATE_OUT_THRESHOLD'', CFloat (Fin (- 3))), (''ENABLE_SCALING'', CBool False),
     (''SCALING_LOAD_METRIC'', CStr ''remaining_steps''), (''MIN_INSTANCES'', CInt (- 1)),
     (''MAX_INSTANCES'', CInt (- 1)), (''SCALING_INTERVAL'', CInt 10), (''SCALING_POLICY'', CStr ''avg_load''),
     (''SCALE_UP_THRESHOLD'', CInt (- 10)), (''SCALE_DOWN_THRESHOLD'', CInt (- 60))]"

definition instance_defaults :: "(string, cfg_value) dict" where
  "instance_defaults =
    [(''INSTANCE_TYPE'', CStr ''no_constraints''), (''SIMULATOR_MODE'', CBool False),
     (''PROFILING_RESULT_FILE_PATH'', CNone), (''DISPATCH_LOAD_METRIC'', CStr ''virtual_usage''),
     (''MIGRATION_LOAD_METRIC'', CStr ''remaining_steps''), (''ENABLE_DEFRAG'', CBool False),
     (''REQUEST_MIGRATION_POLICY'', CStr ''SR''), (''MIGRATION_MAX_STAGES'', CInt 3),
     (''MIGRATION_LAST_STAGE_MAX_BLOCKS'', CInt 16), (''MIGRATION_BACKEND'', CStr ''gloo''),
     (''MIGRATION_BUFFER_BLOCKS'', CInt 512), (''MIGRATION_NUM_LAYERS'', CInt 1),
     (''MIGRATION_BACKEND_INIT_TIMEOUT'', CFloat (Fin 10)), (''MIGRATION_BACKEND_TRANSFER_TYPE'', CStr ''rdma''),
     (''GRPC_MIGRATION_BACKEND_SERVER_ADDRESS'', CStr ''127.0.0.1:50051''),
     (''KVTRANSFER_MIGRATION_BACKEND_NAMING_URL'', CStr ''file:/tmp/llumnix/naming/'')]"

definition default_config :: "(string, cfg_value) dict" where
  "default_config =
    [(''SERVER'', CNode server_defaults), (''MANAGER'', CNode manager_defaults), (''INSTANCE'', CNode instance_defaults)]"

text \<open>\<open>merged\<close> is the tree after the file was merged into the defaults, if one was given.\<close>

definition get_llumnix_config ::
  "(string, cfg_value) dict option \<Rightarrow> (string, cfg_value) dict option \<Rightarrow> (string, cfg_value) dict" where
  "get_llumnix_config merged others =
    (let cfg = (case merged of None \<Rightarrow> default_config | Some m \<Rightarrow> m)
     in case others of None \<Rightarrow> cfg | Some args \<Rightarrow> update_config args cfg)"

subsection \<open>Arguments from the configuration\<close>

text \<open>Values of the types the fields are annotated with; an integer serves as a float.\<close>

fun as_int :: "cfg_value \<Rightarrow> int option" where
  "as_int (CInt i) = Some i" | "as_int _ = None"

fun as_float :: "cfg_value \<Rightarrow> pynum option" where
  "as_float (CFloat q) = Some q" | "as_float (CInt i) = Some (Fin (of_int i))" | "as_float _ = None"

fun as_str :: "cfg_value \<Rightarrow> string option" where
  "as_str (CStr s) = Some s" | "as_str _ = None"

fun as_bool :: "cfg_value \<Rightarrow> bool option" where
  "as_bool (CBool b) = Some b" | "as_bool _ = None"

definition cfg_leaf :: "(string, cfg_value) dict \<Rightarrow> string \<Rightarrow> string \<Rightarrow> cfg_value" where
  "cfg_leaf cfg section_name key =
    (case dget cfg section_name of
       Some (CNode n) \<Rightarrow> (case dget n key of None \<Rightarrow> CNone | Some v \<Rightarrow> v)
     | _ \<Rightarrow> CNone)"

definition manager_from_llumnix_config :: "(string, cfg_value) dict \<Rightarrow> RawManagerArgs" where
  "manager_from_llumnix_config cfg =
    (let leaf = cfg_leaf cfg ''MANAGER'' in
     \<lparr>raw_initial_instances = as_int (leaf ''INITIAL_INSTANCES''), raw_polling_interval = as_float (leaf ''POLLING_INTERVAL''),
      raw_dispatch_policy = as_str (leaf ''DISPATCH_POLICY''), raw_scaling_load_metric = as_str (leaf ''SCALING_LOAD_METRIC''),
      raw_topk_random_dispatch = as_int (leaf ''TOPK_RANDOM_DISPATCH''), raw_enable_migration = as_bool (leaf ''ENABLE_MIGRATION''),
      raw_pair_migration_frequency = as_int (leaf ''PAIR_MIGRATION_FREQUENCY''),
      raw_pair_migration_policy = as_str (leaf ''PAIR_MIGRATION_POLICY''),
      raw_migrate_out_threshold = as_float (leaf ''MIGRATE_OUT_THRESHOLD''), raw_enable_scaling = as_bool (leaf ''ENABLE_SCALING''),
      raw_min_instances = as_int (leaf ''MIN_INSTANCES''), raw_max_instances = as_int (leaf ''MAX_INSTANCES''),
      raw_scaling_interval = as_int (leaf ''SCALING_INTERVAL''), raw_scaling_policy = as_str (leaf ''SCALING_POLICY''),
      raw_scale_up_threshold = as_float (leaf ''SCALE_UP_THRESHOLD''), raw_scale_down_threshold = as_float (leaf ''SCALE_DOWN_THRESHOLD''),
      raw_disable_log_requests_manager = as_bool (leaf ''DISABLE_LOG_REQUESTS_MANAGER''),
      raw_log_instance_info = as_bool (leaf ''LOG_INSTANCE_INFO''), raw_log_filename = as_str (leaf ''LOG_FILENAME''),
      raw_enable_port_increment = as_bool (leaf ''ENABLE_PORT_INCREMENT''),
      raw_enable_port_offset_store = as_bool (leaf ''ENABLE_PORT_OFFSET_STORE''),
      raw_enable_pd_disagg = as_bool (leaf ''ENABLE_PD_DISAGG''), raw_pd_ratio = as_str (leaf ''PD_RATIO'')\<rparr>)"

text \<open>The namespace the parser fills, \<open>CNone\<close> for an option that is not given.\<close>

definition given :: "('a \<Rightarrow> cfg_value) \<Rightarrow> 'a option \<Rightarrow> cfg_value" where
  "given f v = (case v of None \<Rightarrow> CNone | Some x \<Rightarrow> f x)"

definition manager_namespace :: "RawManagerArgs \<Rightarrow> (string, cfg_value) dict" where
  "manager_namespace a =
    [(''initial_instances'', given CInt (raw_initial_instances a)), (''polling_interval'', given CFloat (raw_polling_interval a)),
     (''scaling_load_metric'', given CStr (raw_scaling_load_metric a)), (''dispatch_policy'', given CStr (raw_dispatch_policy a)),
     (''topk_random_dispatch'', given CInt (raw_topk_random_dispatch a)), (''enable_migration'', given CBool (raw_enable_migration a)),
     (''pair_migration_frequency'', given CInt (raw_pair_migration_frequency a)),
     (''pair_migration_policy'', given CStr (raw_pair_migration_policy a)),
     (''migrate_out_threshold'', given CFloat (raw_migrate_out_threshold a)), (''enable_scaling'', given CBool (raw_enable_scaling a)),
     (''min_instances'', given CInt (raw_min_instances a)), (''max_instances'', given CInt (raw_max_instances a)),
     (''scaling_interval'', given CInt (raw_scaling_interval a)), (''scaling_policy'', given CStr (raw_scaling_policy a)),
     (''scale_up_threshold'', given CFloat (raw_scale_up_threshold a)),
     (''scale_down_threshold'', given CFloat (raw_scale_down_threshold a)),
     (''disable_log_requests_manager'', given CBool (raw_disable_log_requests_manager a)),
     (''log_instance_info'', given CBool (raw_log_instance_info a)), (''log_filename'', given CStr (raw_log_filename a)),
     (''enable_port_increment'', given CBool (raw_enable_port_increment a)),
     (''enable_port_offset_store'', given CBool (raw_enable_port_offset_store a)),
     (''enable_pd_disagg'', given CBool (raw_enable_pd_disagg a)), (''pd_ratio'', given CStr (raw_pd_ratio a))]"

subsection \<open>Properties\<close>

lemma dget_update:
  "dget (map (update_value args) c) k = map_option (\<lambda>v. snd (update_value args (k, v))) (dget c k)"
proof (induction c)
  case (Cons e c)
  obtain j v where "e = (j, v)" by (cases e)
  then show ?case using Cons by (cases v) auto
qed simp

definition override :: "(string, cfg_value) dict \<Rightarrow> string \<Rightarrow> cfg_value \<Rightarrow> cfg_value" where
  "override args key v = (case dget args key of None \<Rightarrow> v | Some CNone \<Rightarrow> v | Some w \<Rightarrow> w)"

definition is_leaf :: "cfg_value \<Rightarrow> bool" where
  "is_leaf v \<longleftrightarrow> (\<forall>n. v \<noteq> CNode n)"

lemma update_leaf: "is_leaf v \<Longrightarrow> snd (update_value args (k, v)) = override args (lower k) v"
  by (cases v) (simp_all add: is_leaf_def override_def)

text \<open>The value of a leaf: the option if it was given, otherwise what the tree has.\<close>

lemma cfg_leaf_update:
  assumes "dget cfg sec = Some (CNode n)" and "dget n key = Some v" and "is_leaf v"
  shows "cfg_leaf (update_config args cfg) sec key = override args (lower key) v"
  using assms by (simp add: cfg_leaf_def update_config_def dget_update update_leaf)

lemma manager_leaf:
  assumes "dget manager_defaults key = Some v" and "is_leaf v"
  shows "cfg_leaf (update_config args default_config) ''MANAGER'' key = override args (lower key) v"
  by (rule cfg_leaf_update[OF _ assms]) (simp add: default_config_def)

lemma as_override:
  "dget args k = Some (given CInt i) \<Longrightarrow> as_int (override args k (CInt d)) = Some (default d i)"
  "dget args k = Some (given CFloat q) \<Longrightarrow> as_float (override args k (CFloat e)) = Some (default e q)"
  "dget args k = Some (given CFloat q) \<Longrightarrow> as_float (override args k (CInt d)) = Some (default (Fin (of_int d)) q)"
  "dget args k = Some (given CStr s) \<Longrightarrow> as_str (override args k (CStr u)) = Some (default u s)"
  "dget args k = Some (given CBool b) \<Longrightarrow> as_bool (override args k (CBool c)) = Some (default c b)"
  by (cases i; cases q; cases s; cases b; simp add: override_def given_def default_def)+

text \<open>The options with choices.\<close>

definition choice_table :: "cli_option list \<Rightarrow> (string \<times> string list) list" where
  "choice_table options = List.map_filter (\<lambda>opt. map_option (Pair (opt_dest opt)) (opt_choices opt)) options"

lemma check_choice_table:
  "check_choices options attr \<longleftrightarrow>
    list_all (\<lambda>(dest, choices). case attr dest of None \<Rightarrow> True | Some v \<Rightarrow> v \<in> set choices) (choice_table options)"
  by (induction options) (auto simp: check_choices_def choice_table_def List.map_filter_simps split: option.split)

definition cli_choices :: "(string \<times> string list) list" where
  "cli_choices =
    [(''request_output_queue_type'', [''rayqueue'', ''zmq'']),
     (''scaling_load_metric'', [''remaining_steps'', ''usage_ratio'', ''virtual_usage'']),
     (''dispatch_policy'', [''balanced'', ''load'', ''queue'', ''flood'', ''rr'']),
     (''pair_migration_policy'', [''balanced'', ''defrag'']),
     (''scaling_policy'', [''max_load'', ''avg_load'']),
     (''instance_type'', [''prefill'', ''decode'', ''no_constraints'']),
     (''dispatch_load_metric'', [''remaining_steps'', ''usage_ratio'', ''virtual_usage'']),
     (''migration_load_metric'', [''remaining_steps'', ''usage_ratio'']),
     (''request_migration_policy'', [''LCR'', ''SR'', ''LR'', ''FCW'', ''FCWSR'']),
     (''migration_backend'', [''gloo'', ''nccl'', ''rayrpc'', ''grpc'', ''kvtransfer'']),
     (''migration_backend_transfer_type'', [''cuda_ipc'', ''rdma'', ''SharedStorageConnector'', ''P2pNcclConnector'',
        ''NixlConnector'', ''LMCacheConnectorV1'', ''OffloadingConnector'', ''CoreXP2pNcclConnector''])]"

lemma cli_choice_table: "\<exists>options. cli_options = Inr options \<and> choice_table options = cli_choices"
  by (simp add: cli_options_def entrypoints_cli_def manager_cli_def instance_cli_def add_argument_def dest_of_def
      cli_choices_def choice_table_def List.map_filter_simps)

text \<open>
  The checks of the arguments. Every option of the three tables is accepted by the
  Llumnix parser, and the loops over the parser's options, which look an attribute up by
  name, check exactly the fields of the arguments that have choices, with the same values;
  for the entrypoint arguments, that the queue type is one the queues are built for.
\<close>

theorem choices_checked_by_field:
  "\<exists>options. cli_options = Inr options
    \<and> (\<forall>a. check_choices options (manager_attr a) \<longleftrightarrow> manager_choices a)
    \<and> (\<forall>a. check_choices options (instance_attr a) \<longleftrightarrow> instance_choices a)
    \<and> (\<forall>a. entrypoints_check_args a = Inr () \<longleftrightarrow> is_ok (queue_type_of (ea_request_output_queue_type a)))"
proof -
  obtain options where opts: "cli_options = Inr options" and rows: "choice_table options = cli_choices"
    using cli_choice_table by blast
  have "check_choices options (manager_attr a) \<longleftrightarrow> manager_choices a" for a
    unfolding check_choice_table rows by (simp add: cli_choices_def manager_attr_def manager_choices_def)
  moreover have "check_choices options (instance_attr a) \<longleftrightarrow> instance_choices a" for a
    unfolding check_choice_table rows by (simp add: cli_choices_def instance_attr_def instance_choices_def)
  moreover have "check_choices options (entrypoints_attr a) \<longleftrightarrow> is_ok (queue_type_of (ea_request_output_queue_type a))" for a
    unfolding check_choice_table rows by (simp add: cli_choices_def entrypoints_attr_def queue_type_of_def)
  ultimately show ?thesis by (intro exI[of _ options]) (simp add: entrypoints_check_args_def opts)
qed

lemma manager_leaves:
  fixes raw :: RawManagerArgs
  defines "leaf \<equiv> cfg_leaf (update_config (manager_namespace raw) default_config) ''MANAGER''"
  shows
    "as_int (leaf ''INITIAL_INSTANCES'') = Some (default 1 (raw_initial_instances raw))"
    "as_float (leaf ''POLLING_INTERVAL'') = Some (default (Fin (1 / 20)) (raw_polling_interval raw))"
    "as_str (leaf ''DISPATCH_POLICY'') = Some (default ''load'' (raw_dispatch_policy raw))"
    "as_str (leaf ''SCALING_LOAD_METRIC'') = Some (default ''remaining_steps'' (raw_scaling_load_metric raw))"
    "as_int (leaf ''TOPK_RANDOM_DISPATCH'') = Some (default 1 (raw_topk_random_dispatch raw))"
    "as_bool (leaf ''ENABLE_MIGRATION'') = Some (default False (raw_enable_migration raw))"
    "as_int (leaf ''PAIR_MIGRATION_FREQUENCY'') = Some (default 1 (raw_pair_migration_frequency raw))"
    "as_str (leaf ''PAIR_MIGRATION_POLICY'') = Some (default ''defrag'' (raw_pair_migration_policy raw))"
    "as_float (leaf ''MIGRATE_OUT_THRESHOLD'') = Some (default (Fin (- 3)) (raw_migrate_out_threshold raw))"
    "as_bool (leaf ''ENABLE_SCALING'') = Some (default False (raw_enable_scaling raw))"
    "as_int (leaf ''MIN_INSTANCES'') = Some (default (- 1) (raw_min_instances raw))"
    "as_int (leaf ''MAX_INSTANCES'') = Some (default (- 1) (raw_max_instances raw))"
    "as_int (leaf ''SCALING_INTERVAL'') = Some (default 10 (raw_scaling_interval raw))"
    "as_str (leaf ''SCALING_POLICY'') = Some (default ''avg_load'' (raw_scaling_policy raw))"
    "as_float (leaf ''SCALE_UP_THRESHOLD'') = Some (default (Fin (- 10)) (raw_scale_up_threshold raw))"
    "as_float (leaf ''SCALE_DOWN_THRESHOLD'') = Some (default (Fin (- 60)) (raw_scale_down_threshold raw))"
    "as_bool (leaf ''DISABLE_LOG_REQUESTS_MANAGER'') = Some (default False (raw_disable_log_requests_manager raw))"
    "as_bool (leaf ''LOG_INSTANCE_INFO'') = Some (default False (raw_log_instance_info raw))"
    "as_str (leaf ''LOG_FILENAME'') = Some (default ''server.log'' (raw_log_filename raw))"
    "as_bool (leaf ''ENABLE_PORT_INCREMENT'') = Some (default False (raw_enable_port_increment raw))"
    "as_bool (leaf ''ENABLE_PORT_OFFSET_STORE'') = Some (default False (raw_enable_port_offset_store raw))"
    "as_bool (leaf ''ENABLE_PD_DISAGG'') = Some (default False (raw_enable_pd_disagg raw))"
    "as_str (leaf ''PD_RATIO'') = Some (default ''1:1'' (raw_pd_ratio raw))"
  unfolding leaf_def
  by (simp_all add: manager_leaf is_leaf_def manager_defaults_def lower_char_def)
    (simp_all add: manager_namespace_def as_override)

lemma default_again: "default d (Some (default d v)) = default d v"
  by (simp add: default_def)

text \<open>
  C31: the two ways to the manager's arguments agree. Taking the tree of defaults,
  overriding its leaves by the options that were given, and building the arguments from
  the tree gives the same result as building them from the options alone, errors of the
  ratio included.
\<close>

theorem config_tree_agrees_with_options:
  "init_ManagerArgs (manager_from_llumnix_config (get_llumnix_config None (Some (manager_namespace raw)))) = init_ManagerArgs raw"
  unfolding get_llumnix_config_def manager_from_llumnix_config_def Let_def option.case manager_leaves init_ManagerArgs_def
  by (simp add: default_again)

end
