(* ===== verification/Local_Migration.thy ===== *)
theory Local_Migration
  imports Instance_Info
begin

text \<open>
  The requests of one instance and the choice of the requests that leave it:
  \<open>llumlet/request.py\<close>, \<open>backends/vllm/sequence.py\<close> and
  \<open>llumlet/local_migration_scheduler.py\<close>. The queues of the engine hold references to
  request objects which the migration tasks mutate, so the objects live in a store indexed
  by addresses and a queue is a list of addresses. What the methods of vLLM's
  \<open>Sequence\<close> return is data of the object; an engine request has one sequence, as
  \<open>add_request\<close> builds it.
\<close>

datatype RequestStatus = RUNNING | WAITING | FINISHED | RUNNING_MIGRATING | WAITING_MIGRATING

definition status_is_migrating :: "RequestStatus \<Rightarrow> bool" where
  "status_is_migrating st \<longleftrightarrow> st \<in> {RUNNING_MIGRATING, WAITING_MIGRATING}"

record LlumnixRequest =
  rq_request_id :: string
  rq_server_info :: nat
  expected_steps :: pynum
  last_preemption_time :: "rat option"
  stage_timestamps :: "rat list"
  stage_num_blocks_list :: "nat list"
  try_schedule_times :: nat
  status_override :: "RequestStatus option"
  migration_start_time :: "rat option"
  is_migrating :: bool
  eom :: bool

text \<open>vLLM's state of a sequence, with its finished states as one.\<close>

datatype SequenceStatus = SEQ_WAITING | SEQ_RUNNING | SEQ_SWAPPED | SEQ_FINISHED

record SequenceGroupLlumnix = LlumnixRequest +
  seq_id :: nat
  seq_status :: SequenceStatus
  seq_len :: nat
  seq_prompt_len :: nat
  seq_output_len :: nat
  seq_n_blocks :: nat
  seq_token_ids :: "nat list"
  seq_block_size :: nat
  sg_is_prefill :: bool
  arrival_time :: rat

definition init_LlumnixRequest :: "string \<Rightarrow> nat \<Rightarrow> pynum \<Rightarrow> LlumnixRequest" where
  "init_LlumnixRequest request_id server_info steps =
     \<lparr>rq_request_id = request_id, rq_server_info = server_info, expected_steps = steps,
      last_preemption_time = None, stage_timestamps = [], stage_num_blocks_list = [], try_schedule_times = 0,
      status_override = None, migration_start_time = None, is_migrating = False, eom = False\<rparr>"

text \<open>The sequence data of vLLM's group becomes part of a fresh Llumnix request.\<close>

definition init_SequenceGroupLlumnix ::
  "string \<Rightarrow> nat \<Rightarrow> pynum \<Rightarrow> SequenceGroupLlumnix \<Rightarrow> SequenceGroupLlumnix" where
  "init_SequenceGroupLlumnix request_id server_info steps seq_group =
     LlumnixRequest.extend (init_LlumnixRequest request_id server_info steps) (SequenceGroupLlumnix.fields
       (seq_id seq_group) (seq_status seq_group) (seq_len seq_group) (seq_prompt_len seq_group)
       (seq_output_len seq_group) (seq_n_blocks seq_group) (seq_token_ids seq_group) (seq_block_size seq_group)
       (sg_is_prefill seq_group) (arrival_time seq_group))"

definition reset_migration_args_dst :: "SequenceGroupLlumnix \<Rightarrow> SequenceGroupLlumnix" where
  "reset_migration_args_dst r = r\<lparr>expected_steps := PInf, last_preemption_time := None, stage_timestamps := [],
     stage_num_blocks_list := [], try_schedule_times := 0, migration_start_time := None, is_migrating := False\<rparr>"

definition reset_migration_args_src :: "SequenceGroupLlumnix \<Rightarrow> SequenceGroupLlumnix" where
  "reset_migration_args_src r = r\<lparr>last_preemption_time := None, stage_timestamps := [],
     stage_num_blocks_list := [], migration_start_time := None, is_migrating := False\<rparr>"

definition reset_status :: "SequenceGroupLlumnix \<Rightarrow> SequenceGroupLlumnix" where
  "reset_status r = r\<lparr>status_override := None\<rparr>"

definition set_status :: "RequestStatus \<Rightarrow> SequenceGroupLlumnix \<Rightarrow> SequenceGroupLlumnix" where
  "set_status st r = r\<lparr>status_override := Some st\<rparr>"

definition request_inference_type :: "SequenceGroupLlumnix \<Rightarrow> RequestInferenceType" where
  "request_inference_type r = (if sg_is_prefill r then Inference_PREFILL else Inference_DECODE)"

definition request_finished :: "SequenceGroupLlumnix \<Rightarrow> bool" where
  "request_finished r \<longleftrightarrow> seq_status r = SEQ_FINISHED"

definition request_status :: "SequenceGroupLlumnix \<Rightarrow> RequestStatus" where
  "request_status r = (case status_override r of
     Some st \<Rightarrow> st
   | None \<Rightarrow> if seq_status r = SEQ_RUNNING then RUNNING
             else if seq_status r = SEQ_WAITING then WAITING else FINISHED)"

text \<open>The waiting request's blocks are those of its sequence.\<close>

definition prefill_num_blocks :: "SequenceGroupLlumnix \<Rightarrow> nat" where
  "prefill_num_blocks r = seq_n_blocks r"

definition blocking_migration :: "SequenceGroupLlumnix \<Rightarrow> bool" where
  "blocking_migration r \<longleftrightarrow> expected_steps r \<le> of_py_nat (seq_output_len r)"

text \<open>Comparing a preemption time with a start time that is not set raises.\<close>

definition should_abort_migration :: "SequenceGroupLlumnix \<Rightarrow> bool res" where
  "should_abort_migration r =
     (let begin_time = (if stage_timestamps r \<noteq> [] then Some (last (stage_timestamps r)) else migration_start_time r)
      in case (last_preemption_time r, begin_time) of
           (None, _) \<Rightarrow> Inr (request_finished r)
         | (Some t, None) \<Rightarrow> Inl TypeError
         | (Some t, Some b) \<Rightarrow> Inr (request_finished r \<or> t > b))"

subsection \<open>Choosing the requests to migrate\<close>

type_synonym ref = nat

type_synonym store = "ref \<Rightarrow> SequenceGroupLlumnix"

definition required_migration :: "SequenceGroupLlumnix \<Rightarrow> bool" where
  "required_migration r \<longleftrightarrow> request_status r = RUNNING \<and> request_inference_type r = Inference_DECODE
     \<and> expected_steps r \<le> of_py_nat (seq_output_len r)"

definition get_required_migration_request :: "store \<Rightarrow> ref list \<Rightarrow> ref list" where
  "get_required_migration_request h running = filter (required_migration \<circ> h) (rev running)"

definition len_between :: "pynum \<Rightarrow> pynum \<Rightarrow> SequenceGroupLlumnix \<Rightarrow> bool" where
  "len_between min_len max_len r \<longleftrightarrow> min_len < of_py_nat (seq_len r) \<and> of_py_nat (seq_len r) < max_len"

definition running_eligible :: "pynum \<Rightarrow> pynum \<Rightarrow> SequenceGroupLlumnix \<Rightarrow> bool" where
  "running_eligible min_len max_len r \<longleftrightarrow> request_status r = RUNNING \<and> request_inference_type r = Inference_DECODE
     \<and> len_between min_len max_len r \<and> \<not> is_migrating r"

definition waiting_eligible :: "pynum \<Rightarrow> pynum \<Rightarrow> SequenceGroupLlumnix \<Rightarrow> bool" where
  "waiting_eligible min_len max_len r \<longleftrightarrow> request_status r = WAITING \<and> try_schedule_times r \<ge> 1
     \<and> len_between min_len max_len r \<and> \<not> is_migrating r"

definition filter_running_queue :: "store \<Rightarrow> pynum \<Rightarrow> pynum \<Rightarrow> ref list \<Rightarrow> ref list" where
  "filter_running_queue h min_len max_len running = filter (running_eligible min_len max_len \<circ> h) running"

definition filter_waiting_queue :: "store \<Rightarrow> pynum \<Rightarrow> pynum \<Rightarrow> ref list \<Rightarrow> ref list" where
  "filter_waiting_queue h min_len max_len waiting = filter (waiting_eligible min_len max_len \<circ> h) waiting"

text \<open>\<open>max(..., default=None)\<close> and the list built from its result.\<close>

definition opt_list :: "'a res \<Rightarrow> 'a list" where
  "opt_list r = (case r of Inl _ \<Rightarrow> [] | Inr x \<Rightarrow> [x])"

definition get_last_running_request :: "store \<Rightarrow> pynum \<Rightarrow> pynum \<Rightarrow> ref list \<Rightarrow> ref list" where
  "get_last_running_request h min_len max_len running =
     (let f = filter_running_queue h min_len max_len running in if f \<noteq> [] then [last f] else [])"

definition get_longest_running_request :: "store \<Rightarrow> pynum \<Rightarrow> pynum \<Rightarrow> ref list \<Rightarrow> ref list" where
  "get_longest_running_request h min_len max_len running =
     opt_list (py_max_by (\<lambda>r. seq_len (h r)) (filter_running_queue h min_len max_len running))"

definition get_shortest_running_request :: "store \<Rightarrow> pynum \<Rightarrow> pynum \<Rightarrow> ref list \<Rightarrow> ref list" where
  "get_shortest_running_request h min_len max_len running =
     opt_list (py_min_by (\<lambda>r. seq_len (h r)) (filter_running_queue h min_len max_len running))"

definition get_first_waiting_request :: "store \<Rightarrow> pynum \<Rightarrow> pynum \<Rightarrow> ref list \<Rightarrow> ref list" where
  "get_first_waiting_request h min_len max_len waiting =
     (if filter_waiting_queue h min_len max_len waiting \<noteq> [] then [waiting ! 0] else [])"

text \<open>The first waiting request is marked as the end of the migration.\<close>

definition get_first_waiting_and_shortest_running_requests ::
  "store \<Rightarrow> pynum \<Rightarrow> pynum \<Rightarrow> ref list \<Rightarrow> ref list \<Rightarrow> ref list \<times> store" where
  "get_first_waiting_and_shortest_running_requests h min_len max_len running waiting =
     (let w = get_first_waiting_request h min_len max_len waiting;
          r = get_shortest_running_request h min_len max_len running
      in (w @ r, (case w of [] \<Rightarrow> h | x # _ \<Rightarrow> h(x := (h x)\<lparr>eom := True\<rparr>))))"

definition get_migrate_out_requests ::
  "string \<Rightarrow> store \<Rightarrow> pynum \<Rightarrow> pynum \<Rightarrow> ref list \<Rightarrow> ref list \<Rightarrow> ref list \<times> store" where
  "get_migrate_out_requests policy h min_len max_len running waiting =
     (let required = get_required_migration_request h running
      in if required \<noteq> [] then (required, h)
         else if policy = ''LCR'' then (get_last_running_request h min_len max_len running, h)
         else if policy = ''LR'' then (get_longest_running_request h min_len max_len running, h)
         else if policy = ''SR'' then (get_shortest_running_request h min_len max_len running, h)
         else if policy = ''FCW'' then (get_first_waiting_request h min_len max_len waiting, h)
         else if policy = ''FCWSR'' then get_first_waiting_and_shortest_running_requests h min_len max_len running waiting
         else ([], h))"

lemma opt_list_simps [simp]:
  "opt_list (Inl e) = []" "opt_list (Inr x) = [x]"
  by (simp_all add: opt_list_def)

lemma opt_list_max:
  "opt_list (py_max_by key xs) = [] \<longleftrightarrow> xs = []" "length (opt_list (py_max_by key xs)) \<le> Suc 0"
  by (cases xs; simp add: py_max_by_def)+

lemma opt_list_min:
  "opt_list (py_min_by key xs) = [] \<longleftrightarrow> xs = []" "length (opt_list (py_min_by key xs)) \<le> Suc 0"
  by (cases xs; simp add: py_min_by_def)+

lemma opt_list_max_mem:
  fixes key :: "'a \<Rightarrow> 'b :: linorder"
  assumes "x \<in> set (opt_list (py_max_by key xs))"
  shows "x \<in> set xs" and "y \<in> set xs \<Longrightarrow> key y \<le> key x"
  using assms py_max_by_in[of key xs] py_max_by_upper[of key xs] by (cases "py_max_by key xs"; simp)+

lemma opt_list_min_mem:
  fixes key :: "'a \<Rightarrow> 'b :: linorder"
  assumes "x \<in> set (opt_list (py_min_by key xs))"
  shows "x \<in> set xs" and "y \<in> set xs \<Longrightarrow> key x \<le> key y"
  using assms py_min_by_in[of key xs] py_min_by_lower[of key xs] by (cases "py_min_by key xs"; simp)+

lemma filter_running_mem:
  "r \<in> set (filter_running_queue h lo hi running) \<longleftrightarrow> r \<in> set running \<and> running_eligible lo hi (h r)"
  by (auto simp: filter_running_queue_def)

lemma filter_running_empty:
  "filter_running_queue h lo hi running = [] \<longleftrightarrow> (\<forall>r \<in> set running. \<not> running_eligible lo hi (h r))"
  by (simp add: filter_running_queue_def filter_empty_conv)

lemma no_required:
  "(\<forall>r \<in> set running. \<not> required_migration (h r)) \<longleftrightarrow> get_required_migration_request h running = []"
  by (simp add: get_required_migration_request_def filter_empty_conv)

lemma last_running_mem:
  "r \<in> set (get_last_running_request h lo hi running) \<Longrightarrow> r \<in> set running \<and> running_eligible lo hi (h r)"
  by (simp add: get_last_running_request_def Let_def filter_running_mem[symmetric] split: if_splits)

text \<open>
  The running-request policies. When no request has reached its expected steps, each
  of the three policies picks at most one request, none exactly when no running request is
  eligible, and the pick is an eligible running request, of minimal length for the
  shortest-request policy and of maximal length for the longest-request policy.
\<close>

theorem migrate_out_choice:
  assumes "\<forall>r \<in> set running. \<not> required_migration (h r)"
    and "policy \<in> {''LCR'', ''LR'', ''SR''}"
    and "get_migrate_out_requests policy h lo hi running waiting = (rs, h')"
  shows "h' = h \<and> length rs \<le> 1
    \<and> (rs = [] \<longleftrightarrow> (\<forall>r \<in> set running. \<not> running_eligible lo hi (h r)))
    \<and> (\<forall>r \<in> set rs. r \<in> set running \<and> running_eligible lo hi (h r)
        \<and> (policy = ''SR'' \<longrightarrow> (\<forall>x \<in> set running. running_eligible lo hi (h x) \<longrightarrow> seq_len (h r) \<le> seq_len (h x)))
        \<and> (policy = ''LR'' \<longrightarrow> (\<forall>x \<in> set running. running_eligible lo hi (h x) \<longrightarrow> seq_len (h x) \<le> seq_len (h r))))"
proof -
  let ?f = "filter_running_queue h lo hi running"
  have none: "get_required_migration_request h running = []" using assms(1) no_required by blast
  consider "policy = ''LCR''" | "policy = ''LR''" | "policy = ''SR''" using assms(2) by auto
  thus ?thesis
  proof cases
    case 1
    hence "rs = get_last_running_request h lo hi running" "h' = h"
      using assms(3) none by (auto simp: get_migrate_out_requests_def)
    thus ?thesis using 1 last_running_mem
      by (simp add: get_last_running_request_def Let_def filter_running_empty[symmetric] filter_running_mem[symmetric])
  next
    case 2
    hence rs: "rs = opt_list (py_max_by (\<lambda>r. seq_len (h r)) ?f)" "h' = h"
      using assms(3) none by (auto simp: get_migrate_out_requests_def get_longest_running_request_def)
    show ?thesis unfolding rs 2 filter_running_empty[symmetric]
      using opt_list_max_mem[of _ "\<lambda>r. seq_len (h r)" ?f] by (simp add: opt_list_max filter_running_mem)
  next
    case 3
    hence rs: "rs = opt_list (py_min_by (\<lambda>r. seq_len (h r)) ?f)" "h' = h"
      using assms(3) none by (auto simp: get_migrate_out_requests_def get_shortest_running_request_def)
    show ?thesis unfolding rs 3 filter_running_empty[symmetric]
      using opt_list_min_mem[of _ "\<lambda>r. seq_len (h r)" ?f] by (simp add: opt_list_min filter_running_mem)
  qed
qed

definition example_request_group :: SequenceGroupLlumnix where
  "example_request_group = \<lparr>rq_request_id = ''a'', rq_server_info = 0, expected_steps = PInf,
     last_preemption_time = None, stage_timestamps = [], stage_num_blocks_list = [], try_schedule_times = 0,
     status_override = None, migration_start_time = None, is_migrating = False, eom = False,
     seq_id = 0, seq_status = SEQ_RUNNING, seq_len = 10, seq_prompt_len = 8, seq_output_len = 2,
     seq_n_blocks = 3, seq_token_ids = [0..<10], seq_block_size = 4, sg_is_prefill = False, arrival_time = 0\<rparr>"

definition example_store :: store where
  "example_store = (\<lambda>_. example_request_group)
     (1 := example_request_group\<lparr>rq_request_id := ''b'', seq_len := 7\<rparr>,
      2 := example_request_group\<lparr>rq_request_id := ''c'', seq_len := 7\<rparr>,
      3 := example_request_group\<lparr>rq_request_id := ''d'', seq_status := SEQ_WAITING, is_migrating := True\<rparr>,
      4 := example_request_group\<lparr>rq_request_id := ''e'', seq_status := SEQ_WAITING, try_schedule_times := 1\<rparr>)"

lemma example_none_required: "\<forall>r \<in> set [0, 1, 2]. \<not> required_migration (example_store r)"
  by (simp add: required_migration_def example_store_def example_request_group_def pynum_defs)

lemma example_shortest:
  "get_migrate_out_requests ''SR'' example_store 0 PInf [0, 1, 2] [] = ([1], example_store)"
  by (simp add: get_migrate_out_requests_def get_required_migration_request_def get_shortest_running_request_def
      filter_running_queue_def running_eligible_def required_migration_def len_between_def request_status_def
      request_inference_type_def example_store_def example_request_group_def py_min_by_def pynum_defs)

theorem migrate_out_choice_witness:
  "seq_len (example_store 1) \<le> seq_len (example_store 0) \<and> running_eligible 0 PInf (example_store 1)"
  using migrate_out_choice[OF example_none_required _ example_shortest]
  by (simp add: running_eligible_def required_migration_def len_between_def request_status_def
      request_inference_type_def example_store_def example_request_group_def pynum_defs)


end
