(* ===== verification/Block_Scheduler.thy ===== *)
theory Block_Scheduler
  imports Local_Migration
begin

text \<open>
  The request and block bookkeeping of one engine (\<open>backends/vllm/scheduler.py\<close>): the
  queues, the block tables, the blocks reserved for requests that migrate in and the
  requests in the last stage of migrating out. vLLM's block allocator is a parameter, the
  record \<open>block_ops\<close>; the scheduling passes of vLLM's own scheduler are arguments of the
  methods that wrap them.
\<close>

text \<open>A block table of vLLM: the physical block ids and the number of occupied slots.\<close>

record BlockTable =
  physical_block_ids :: "nat list"
  num_full_slots :: nat

definition empty_BlockTable :: BlockTable where
  "empty_BlockTable = \<lparr>physical_block_ids = [], num_full_slots = 0\<rparr>"

text \<open>The operations of vLLM's allocator on its pool of blocks.\<close>

record 'p block_ops =
  get_num_free_blocks :: "'p \<Rightarrow> int"
  table_allocate :: "nat list \<Rightarrow> 'p \<Rightarrow> (BlockTable \<times> 'p) res"
  table_append :: "BlockTable \<Rightarrow> nat list \<Rightarrow> 'p \<Rightarrow> (BlockTable \<times> 'p) res"
  table_free :: "BlockTable \<Rightarrow> 'p \<Rightarrow> 'p"

record SchedulerConfig =
  cfg_block_size :: nat
  num_gpu_blocks :: nat
  watermark_blocks :: int
  max_block_sliding_window :: "nat option"
  get_prompt_limit :: "SequenceGroupLlumnix \<Rightarrow> nat"

record 'p SchedulerLlumnix =
  objects :: store
  next_object :: ref
  waiting :: "ref list"
  running :: "ref list"
  swapped :: "ref list"
  pool :: 'p
  block_tables :: "(nat, BlockTable) dict"
  pre_alloc_cache_dict :: "(string, BlockTable) dict"
  migrating_out_requests_last_stage :: "ref list"

abbreviation upd_object ::
  "ref \<Rightarrow> (SequenceGroupLlumnix \<Rightarrow> SequenceGroupLlumnix) \<Rightarrow> 'p SchedulerLlumnix \<Rightarrow> 'p SchedulerLlumnix" where
  "upd_object r f s \<equiv> s\<lparr>objects := (objects s)(r := f (objects s r))\<rparr>"

definition init_SchedulerLlumnix :: "'p \<Rightarrow> store \<Rightarrow> 'p SchedulerLlumnix" where
  "init_SchedulerLlumnix p h = \<lparr>objects = h, next_object = 0, waiting = [], running = [], swapped = [], pool = p,
     block_tables = [], pre_alloc_cache_dict = [], migrating_out_requests_last_stage = []\<rparr>"

subsection \<open>The block manager\<close>

text \<open>Blocks are reserved only above the watermark; otherwise the table stays empty.\<close>

definition get_free_blocks ::
  "'p block_ops \<Rightarrow> SchedulerConfig \<Rightarrow> nat \<Rightarrow> nat list \<Rightarrow> 'p \<Rightarrow> (BlockTable \<times> 'p) res" where
  "get_free_blocks ops cfg num_required_blocks token_ids p =
     (if get_num_free_blocks ops p - int num_required_blocks \<ge> watermark_blocks cfg
      then table_allocate ops token_ids p else Inr (empty_BlockTable, p))"

definition add_block_table :: "BlockTable \<Rightarrow> nat \<Rightarrow> 'p SchedulerLlumnix \<Rightarrow> 'p SchedulerLlumnix" where
  "add_block_table bt sid s = s\<lparr>block_tables := dset sid bt (block_tables s)\<rparr>"

datatype AllocStatus = ALLOC_OK | ALLOC_LATER | ALLOC_NEVER

definition can_allocate :: "(SequenceGroupLlumnix \<Rightarrow> AllocStatus) \<Rightarrow> SequenceGroupLlumnix \<Rightarrow> AllocStatus" where
  "can_allocate super r = (if request_status r = WAITING_MIGRATING then ALLOC_OK else super r)"

subsection \<open>Queues\<close>

definition preempt :: "rat \<Rightarrow> ('p SchedulerLlumnix \<Rightarrow> 'p SchedulerLlumnix) \<Rightarrow> ref \<Rightarrow> 'p SchedulerLlumnix \<Rightarrow> 'p SchedulerLlumnix" where
  "preempt now super r s = super (upd_object r (\<lambda>x. x\<lparr>last_preemption_time := Some now\<rparr>) s)"

text \<open>A preemption time of zero counts as none, as in the truth test of the code.\<close>

definition get_num_killed_requests :: "'p SchedulerLlumnix \<Rightarrow> nat" where
  "get_num_killed_requests s = length (swapped s)
     + length (filter (\<lambda>r. case last_preemption_time (objects s r) of None \<Rightarrow> False | Some t \<Rightarrow> t \<noteq> 0) (waiting s))"

definition get_all_request_ids :: "'p SchedulerLlumnix \<Rightarrow> string list" where
  "get_all_request_ids s = map (\<lambda>r. rq_request_id (objects s r)) (waiting s @ running s @ swapped s)"

text \<open>The blocks after the first \<open>pre\<close> ones and the tokens in them.\<close>

definition get_request_incremental_blocks ::
  "SchedulerConfig \<Rightarrow> ref \<Rightarrow> nat \<Rightarrow> 'p SchedulerLlumnix \<Rightarrow> (nat list \<times> nat list) res" where
  "get_request_incremental_blocks cfg r pre s =
     (let seq = objects s r in
      case dget (block_tables s) (seq_id seq) of
        None \<Rightarrow> Inl KeyError
      | Some bt \<Rightarrow> Inr (drop pre (physical_block_ids bt),
                       drop (pre * cfg_block_size cfg) (take (num_full_slots bt) (seq_token_ids seq))))"

definition remove_running_request :: "string \<Rightarrow> 'p SchedulerLlumnix \<Rightarrow> bool \<times> 'p SchedulerLlumnix" where
  "remove_running_request request_id s =
     (case find (\<lambda>r. rq_request_id (objects s r) = request_id) (rev (running s)) of
        None \<Rightarrow> (False, s)
      | Some r \<Rightarrow> (True, upd_object r (set_status RUNNING_MIGRATING) (s\<lparr>running := remove1 r (running s)\<rparr>)))"

definition remove_waiting_request ::
  "SchedulerConfig \<Rightarrow> string \<Rightarrow> 'p SchedulerLlumnix \<Rightarrow> bool \<times> 'p SchedulerLlumnix" where
  "remove_waiting_request cfg request_id s =
     (case find (\<lambda>r. rq_request_id (objects s r) = request_id
                   \<and> seq_n_blocks (objects s r) * cfg_block_size cfg \<le> get_prompt_limit cfg (objects s r)) (waiting s) of
        None \<Rightarrow> (False, s)
      | Some r \<Rightarrow> (True, upd_object r (set_status WAITING_MIGRATING) (s\<lparr>waiting := remove1 r (waiting s)\<rparr>)))"

definition add_migrating_out_request_last_stage :: "ref \<Rightarrow> 'p SchedulerLlumnix \<Rightarrow> 'p SchedulerLlumnix" where
  "add_migrating_out_request_last_stage r s =
     s\<lparr>migrating_out_requests_last_stage := migrating_out_requests_last_stage s @ [r]\<rparr>"

definition remove_migrating_out_request_last_stage :: "ref \<Rightarrow> 'p SchedulerLlumnix \<Rightarrow> unit res \<times> 'p SchedulerLlumnix" where
  "remove_migrating_out_request_last_stage r s =
     (if r \<in> set (migrating_out_requests_last_stage s)
      then (Inr (), s\<lparr>migrating_out_requests_last_stage := remove1 r (migrating_out_requests_last_stage s)\<rparr>)
      else (Inl ValueError, s))"

definition pop_migrating_out_requests_last_stage :: "'p SchedulerLlumnix \<Rightarrow> ref list \<times> 'p SchedulerLlumnix" where
  "pop_migrating_out_requests_last_stage s =
     (migrating_out_requests_last_stage s, s\<lparr>migrating_out_requests_last_stage := []\<rparr>)"

text \<open>
  \<open>pre_alloc\<close>. A waiting request is taken only when it arrived before the head of the
  queue. A first call allocates a table, a later one appends to it when there are enough
  free blocks; the result is the last \<open>block_num\<close> blocks of the table.
\<close>

definition pre_alloc ::
  "'p block_ops \<Rightarrow> SchedulerConfig \<Rightarrow> string \<Rightarrow> RequestStatus \<Rightarrow> rat \<Rightarrow> nat \<Rightarrow> nat list
    \<Rightarrow> 'p SchedulerLlumnix \<Rightarrow> nat list res \<times> 'p SchedulerLlumnix" where
  "pre_alloc ops cfg request_id st arrival block_num token_ids s =
     (if st = WAITING_MIGRATING \<and> waiting s \<noteq> [] \<and> arrival > arrival_time (objects s (hd (waiting s)))
      then (Inr [], s)
      else let r = (case dget (pre_alloc_cache_dict s) request_id of
                      None \<Rightarrow> get_free_blocks ops cfg block_num token_ids (pool s)
                    | Some bt \<Rightarrow> if get_num_free_blocks ops (pool s) \<ge> int block_num
                                then table_append ops bt token_ids (pool s) else Inr (bt, pool s))
           in case r of
                Inl e \<Rightarrow> (Inl e, s)
              | Inr (bt, p) \<Rightarrow>
                  (if max_block_sliding_window cfg = Some (length (physical_block_ids bt)) then Inr []
                   else Inr (py_drop (- int block_num) (physical_block_ids bt)),
                   s\<lparr>pool := p, pre_alloc_cache_dict := dset request_id bt (pre_alloc_cache_dict s)\<rparr>))"

definition add_running_request :: "ref \<Rightarrow> 'p SchedulerLlumnix \<Rightarrow> 'p SchedulerLlumnix" where
  "add_running_request r s =
     (let s = upd_object r (\<lambda>x. x\<lparr>seq_status := SEQ_RUNNING\<rparr>) s in s\<lparr>running := running s @ [r]\<rparr>)"

text \<open>\<open>bisect.bisect_right\<close>, the binary search of the standard library.\<close>

function bisect_between :: "rat list \<Rightarrow> rat \<Rightarrow> nat \<Rightarrow> nat \<Rightarrow> nat" where
  "bisect_between a x lo hi =
     (if lo < hi then
        let mid = (lo + hi) div 2 in
        if x < a ! mid then bisect_between a x lo mid else bisect_between a x (mid + 1) hi
      else lo)"
  by auto
termination by (relation "measure (\<lambda>(a, x, lo, hi). hi - lo)") auto

declare bisect_between.simps [simp del]

definition bisect_right :: "rat list \<Rightarrow> rat \<Rightarrow> nat" where
  "bisect_right a x = bisect_between a x 0 (length a)"

definition add_waiting_request :: "ref \<Rightarrow> 'p SchedulerLlumnix \<Rightarrow> 'p SchedulerLlumnix" where
  "add_waiting_request r s =
     (let s = upd_object r (\<lambda>x. x\<lparr>seq_status := SEQ_WAITING\<rparr>) s;
          idx = bisect_right (map (\<lambda>x. arrival_time (objects s x)) (waiting s)) (arrival_time (objects s r))
      in if idx < length (waiting s)
         then s\<lparr>waiting := take idx (waiting s) @ r # drop idx (waiting s)\<rparr>
         else s\<lparr>waiting := waiting s @ [r]\<rparr>)"

text \<open>The blocks of a waiting request that migrated in are already allocated.\<close>

definition allocate_and_set_running ::
  "(ref \<Rightarrow> 'p SchedulerLlumnix \<Rightarrow> 'p SchedulerLlumnix) \<Rightarrow> ref \<Rightarrow> 'p SchedulerLlumnix \<Rightarrow> 'p SchedulerLlumnix" where
  "allocate_and_set_running super r s =
     (if request_status (objects s r) = WAITING_MIGRATING
      then upd_object r (\<lambda>x. reset_status (x\<lparr>seq_status := SEQ_RUNNING\<rparr>)) s
      else super r s)"

text \<open>An empty or missing request id frees every reservation.\<close>

definition free_pre_alloc_of :: "'p block_ops \<Rightarrow> string \<Rightarrow> 'p SchedulerLlumnix \<Rightarrow> 'p SchedulerLlumnix" where
  "free_pre_alloc_of ops request_id s =
     (case dget (pre_alloc_cache_dict s) request_id of
        None \<Rightarrow> s
      | Some bt \<Rightarrow> s\<lparr>pool := table_free ops bt (pool s),
                    pre_alloc_cache_dict := dpop request_id (pre_alloc_cache_dict s)\<rparr>)"

definition free_dst_pre_alloc_cache ::
  "'p block_ops \<Rightarrow> string option \<Rightarrow> 'p SchedulerLlumnix \<Rightarrow> 'p SchedulerLlumnix" where
  "free_dst_pre_alloc_cache ops request_id s =
     (case request_id of
        Some (c # cs) \<Rightarrow> free_pre_alloc_of ops (c # cs) s
      | _ \<Rightarrow> fold (free_pre_alloc_of ops) (dkeys (pre_alloc_cache_dict s)) s)"

text \<open>vLLM's \<open>free_seq\<close> returns the blocks of the sequence's table.\<close>

definition free_src_request :: "'p block_ops \<Rightarrow> ref \<Rightarrow> 'p SchedulerLlumnix \<Rightarrow> 'p SchedulerLlumnix" where
  "free_src_request ops r s =
     (let sid = seq_id (objects s r) in
      case dget (block_tables s) sid of
        None \<Rightarrow> s
      | Some bt \<Rightarrow> s\<lparr>pool := table_free ops bt (pool s), block_tables := dpop sid (block_tables s)\<rparr>)"

subsection \<open>Reports and scheduling passes\<close>

text \<open>
  The report of the engine. The result carries the ids of the finished requests, which the
  code stores in an attribute of the report.
\<close>

definition get_instance_info ::
  "'p block_ops \<Rightarrow> SchedulerConfig \<Rightarrow> rat \<Rightarrow> ref list \<Rightarrow> 'p SchedulerLlumnix \<Rightarrow> (InstanceInfo \<times> string list) res" where
  "get_instance_info ops cfg now scheduled s =
     (let total = of_py_nat (num_gpu_blocks cfg);
          free = of_py_int (get_num_free_blocks ops (pool s));
          used = total - free;
          blocks = map (\<lambda>r. Fin (of_nat (seq_len (objects s r)) / of_nat (cfg_block_size cfg))) (waiting s);
          waits = map (\<lambda>r. Fin (now - arrival_time (objects s r))) (waiting s);
          lens = map (\<lambda>r. int (seq_len (objects s r)))
      in res_bind (py_div used total) (\<lambda>usage.
         if waiting s \<noteq> [] \<and> cfg_block_size cfg = 0 then Inl ZeroDivisionError else
         let info = post_init (default_InstanceInfo\<lparr>
               num_total_gpu_blocks := total,
               num_watermark_blocks := of_py_int (watermark_blocks cfg),
               num_used_gpu_blocks := used, num_free_gpu_blocks := free, gpu_cache_usage := usage,
               num_running_requests := int (length (running s)),
               num_waiting_requests := int (length (waiting s)),
               num_killed_requests := int (get_num_killed_requests s),
               num_blocks_first_waiting_request := (if waiting s = [] then 0 else hd blocks),
               waiting_time_first_waiting_request := (if waiting s = [] then 0 else hd waits),
               num_blocks_all_waiting_requests := (if waiting s = [] then 0 else foldl (+) 0 blocks)\<rparr>);
             info = info\<lparr>running_seq_lens := lens scheduled,
               num_seqs := (if scheduled = [] then None else Some (int (length scheduled))),
               waiting_seq_lens := lens (waiting s),
               inference_type := (if scheduled = [] then None
                                  else Some (request_inference_type (objects s (last scheduled))))\<rparr>;
             info = info\<lparr>num_batched_tokens := Some (if inference_type info = Some Inference_PREFILL
               then sum_list (lens scheduled) else int (length (running_seq_lens info)))\<rparr>
         in Inr (info, map (\<lambda>r. rq_request_id (objects s r)) (filter (\<lambda>r. request_finished (objects s r)) (running s)))))"

text \<open>
  \<open>schedule\<close> wraps vLLM's pass, which returns the scheduled requests; the report goes to
  the callback (here the result), and every waiting request counts the attempt.
\<close>

definition schedule ::
  "'p block_ops \<Rightarrow> SchedulerConfig \<Rightarrow> rat \<Rightarrow> ('p SchedulerLlumnix \<Rightarrow> ref list \<times> 'p SchedulerLlumnix)
    \<Rightarrow> 'p SchedulerLlumnix \<Rightarrow> (ref list \<times> InstanceInfo \<times> string list) res \<times> 'p SchedulerLlumnix" where
  "schedule ops cfg now super s =
     (let (scheduled, s) = super s in
      case get_instance_info ops cfg now scheduled s of
        Inl e \<Rightarrow> (Inl e, s)
      | Inr info \<Rightarrow> (Inr (scheduled, info),
          fold (\<lambda>r. upd_object r (\<lambda>x. x\<lparr>try_schedule_times := try_schedule_times x + 1\<rparr>)) (waiting s) s))"

definition past_expected_steps :: "SequenceGroupLlumnix \<Rightarrow> bool" where
  "past_expected_steps r \<longleftrightarrow> expected_steps r \<le> of_py_nat (seq_output_len r)"

text \<open>vLLM's pass over the running queue does not see the requests past their steps.\<close>

definition schedule_running ::
  "('p SchedulerLlumnix \<Rightarrow> 'r \<times> 'p SchedulerLlumnix) \<Rightarrow> 'p SchedulerLlumnix \<Rightarrow> 'r \<times> 'p SchedulerLlumnix" where
  "schedule_running super s =
     (let held = filter (\<lambda>r. past_expected_steps (objects s r)) (running s);
          kept = filter (\<lambda>r. \<not> past_expected_steps (objects s r)) (running s);
          (ret, s) = super (s\<lparr>running := kept\<rparr>)
      in (ret, s\<lparr>running := running s @ held\<rparr>))"

subsection \<open>The waiting queue\<close>

lemma bisect_between_spec:
  assumes "sorted a" "lo \<le> hi" "hi \<le> length a"
    and "\<forall>i < lo. a ! i \<le> x" and "\<forall>i. hi \<le> i \<and> i < length a \<longrightarrow> x < a ! i"
  shows "let k = bisect_between a x lo hi in lo \<le> k \<and> k \<le> hi \<and> (\<forall>i < k. a ! i \<le> x) \<and> (\<forall>i. k \<le> i \<and> i < length a \<longrightarrow> x < a ! i)"
  using assms
proof (induction a x lo hi rule: bisect_between.induct)
  case (1 a x lo hi)
  show ?case
  proof (cases "lo < hi")
    case False
    thus ?thesis using 1(3-7) by (subst bisect_between.simps) (simp add: Let_def)
  next
    case True
    define mid where "mid = (lo + hi) div 2"
    have mid: "lo \<le> mid" "mid < hi" using True by (auto simp: mid_def)
    show ?thesis
    proof (cases "x < a ! mid")
      case above: True
      have "\<forall>i. mid \<le> i \<and> i < length a \<longrightarrow> x < a ! i"
        using above 1(3) by (meson order_less_le_trans sorted_nth_mono)
      from 1(1)[OF True mid_def above 1(3)] this mid 1(5,6) show ?thesis
        by (subst bisect_between.simps) (use True above in \<open>simp add: mid_def[symmetric] Let_def\<close>)
    next
      case below: False
      have "\<forall>i < mid + 1. a ! i \<le> x"
        using below 1(3,5) mid by (metis Suc_eq_plus1 less_Suc_eq_le not_le order_less_le_trans order_trans sorted_nth_mono)
      from 1(2)[OF True mid_def below 1(3)] this mid 1(5,7) show ?thesis
        by (subst bisect_between.simps) (use True below in \<open>simp add: mid_def[symmetric] Let_def\<close>)
    qed
  qed
qed

lemma bisect_right_spec:
  assumes "sorted a"
  shows "bisect_right a x \<le> length a" "i < bisect_right a x \<Longrightarrow> a ! i \<le> x"
    "bisect_right a x \<le> i \<Longrightarrow> i < length a \<Longrightarrow> x < a ! i"
  using bisect_between_spec[OF assms, of 0 "length a" x] by (auto simp: bisect_right_def Let_def)

abbreviation arrivals :: "'p SchedulerLlumnix \<Rightarrow> ref list \<Rightarrow> rat list" where
  "arrivals s rs \<equiv> map (\<lambda>r. arrival_time (objects s r)) rs"

definition waiting_sorted :: "'p SchedulerLlumnix \<Rightarrow> bool" where
  "waiting_sorted s \<longleftrightarrow> sorted (arrivals s (waiting s))"

lemma add_waiting_request_split:
  assumes "waiting_sorted s"
  obtains xs ys where "waiting s = xs @ ys" "waiting (add_waiting_request r s) = xs @ r # ys"
    "\<forall>x \<in> set xs. arrival_time (objects s x) \<le> arrival_time (objects s r)"
    "\<forall>y \<in> set ys. arrival_time (objects s r) < arrival_time (objects s y)"
proof -
  define a where "a = arrivals s (waiting s)"
  define k where "k = bisect_right a (arrival_time (objects s r))"
  have same: "map (\<lambda>x. arrival_time (((objects s)(r := (objects s r)\<lparr>seq_status := SEQ_WAITING\<rparr>)) x)) (waiting s) = a"
    by (simp add: a_def)
  have srt: "sorted a" using assms by (simp add: waiting_sorted_def a_def)
  note k = bisect_right_spec[OF srt, where x = "arrival_time (objects s r)", folded k_def]
  have len: "length a = length (waiting s)" by (simp add: a_def)
  have "waiting (add_waiting_request r s) = take k (waiting s) @ r # drop k (waiting s)"
    using k(1) len unfolding add_waiting_request_def Let_def same[symmetric] k_def a_def by (auto simp: fun_upd_def)
  moreover have "\<forall>x \<in> set (take k (waiting s)). arrival_time (objects s x) \<le> arrival_time (objects s r)"
    using k(1,2) len by (auto simp: in_set_conv_nth a_def)
  moreover have "\<forall>y \<in> set (drop k (waiting s)). arrival_time (objects s r) < arrival_time (objects s y)"
    using k(1,3) len by (auto simp: in_set_conv_nth a_def)
  ultimately show thesis using that[of "take k (waiting s)" "drop k (waiting s)"] by simp
qed

lemma add_waiting_request_objects:
  "objects (add_waiting_request r s) = (objects s)(r := (objects s r)\<lparr>seq_status := SEQ_WAITING\<rparr>)"
  by (simp add: add_waiting_request_def Let_def)

lemma add_waiting_arrival [simp]:
  "arrival_time (objects (add_waiting_request r s) x) = arrival_time (objects s x)"
  by (simp add: add_waiting_request_objects)

lemma add_waiting_request_sorted:
  assumes "waiting_sorted s"
  shows "waiting_sorted (add_waiting_request r s)"
proof -
  obtain xs ys where split: "waiting s = xs @ ys" "waiting (add_waiting_request r s) = xs @ r # ys"
    "\<forall>x \<in> set xs. arrival_time (objects s x) \<le> arrival_time (objects s r)"
    "\<forall>y \<in> set ys. arrival_time (objects s r) < arrival_time (objects s y)"
    using add_waiting_request_split[OF assms] .
  from assms split show ?thesis by (fastforce simp: waiting_sorted_def sorted_append)
qed

lemma mset_take_drop: "mset (take k xs) + mset (drop k xs) = mset xs"
  by (metis append_take_drop_id mset_append)

lemma mset_insert_at: "mset (take k xs @ r # drop k xs) = add_mset r (mset xs)" "mset (xs @ [r]) = add_mset r (mset xs)"
  by (simp_all add: mset_take_drop)

lemma add_waiting_request_rest [simp]:
  "running (add_waiting_request r s) = running s" "swapped (add_waiting_request r s) = swapped s"
  "pool (add_waiting_request r s) = pool s" "block_tables (add_waiting_request r s) = block_tables s"
  "pre_alloc_cache_dict (add_waiting_request r s) = pre_alloc_cache_dict s"
  "migrating_out_requests_last_stage (add_waiting_request r s) = migrating_out_requests_last_stage s"
  "next_object (add_waiting_request r s) = next_object s"
  "mset (waiting (add_waiting_request r s)) = add_mset r (mset (waiting s))"
  by (simp_all add: add_waiting_request_def Let_def mset_insert_at del: mset_append)

subsection \<open>The blocks of the tables\<close>

definition blocks_needed :: "nat \<Rightarrow> nat \<Rightarrow> nat" where
  "blocks_needed bs n = (n + bs - 1) div bs"

definition takes_blocks :: "('p \<Rightarrow> nat set) \<Rightarrow> 'p \<Rightarrow> 'p \<Rightarrow> nat list \<Rightarrow> bool" where
  "takes_blocks free p p' new \<longleftrightarrow> distinct new \<and> set new \<subseteq> free p \<and> free p' = free p - set new"

text \<open>
  What the code relies on of vLLM's allocator for blocks of \<open>bs\<close> slots; \<open>free\<close> is the set
  of free blocks of a pool. Allocating and appending take free blocks, as many as the tokens
  need, and succeed when there are enough; freeing a table returns its blocks.
\<close>

definition allocator_laws :: "'p block_ops \<Rightarrow> nat \<Rightarrow> ('p \<Rightarrow> nat set) \<Rightarrow> bool" where
  "allocator_laws ops bs free \<longleftrightarrow> bs > 0
     \<and> (\<forall>p. finite (free p) \<and> get_num_free_blocks ops p = int (card (free p)))
     \<and> (\<forall>ts p bt p'. table_allocate ops ts p = Inr (bt, p') \<longrightarrow> takes_blocks free p p' (physical_block_ids bt)
          \<and> length (physical_block_ids bt) = blocks_needed bs (length ts) \<and> num_full_slots bt = length ts)
     \<and> (\<forall>ts p. blocks_needed bs (length ts) \<le> card (free p) \<longrightarrow> is_ok (table_allocate ops ts p))
     \<and> (\<forall>bt ts p bt' p'. table_append ops bt ts p = Inr (bt', p') \<longrightarrow>
          (\<exists>new. physical_block_ids bt' = physical_block_ids bt @ new \<and> takes_blocks free p p' new
            \<and> num_full_slots bt' = num_full_slots bt + length ts
            \<and> length new = blocks_needed bs (num_full_slots bt + length ts) - length (physical_block_ids bt)))
     \<and> (\<forall>bt ts p. physical_block_ids bt \<noteq> []
          \<and> blocks_needed bs (num_full_slots bt + length ts) - length (physical_block_ids bt) \<le> card (free p)
          \<longrightarrow> is_ok (table_append ops bt ts p))
     \<and> (\<forall>bt p. free (table_free ops bt p) = free p \<union> set (physical_block_ids bt))"

lemma allocator_lawsD:
  assumes "allocator_laws ops bs free"
  shows "bs > 0" "finite (free p)" "get_num_free_blocks ops p = int (card (free p))"
    "table_allocate ops ts p = Inr (bt, p') \<Longrightarrow> takes_blocks free p p' (physical_block_ids bt)"
    "table_allocate ops ts p = Inr (bt, p') \<Longrightarrow> length (physical_block_ids bt) = blocks_needed bs (length ts)"
    "table_allocate ops ts p = Inr (bt, p') \<Longrightarrow> num_full_slots bt = length ts"
    "blocks_needed bs (length ts) \<le> card (free p) \<Longrightarrow> is_ok (table_allocate ops ts p)"
    "table_append ops bt ts p = Inr (bt', p') \<Longrightarrow>
       \<exists>new. physical_block_ids bt' = physical_block_ids bt @ new \<and> takes_blocks free p p' new
         \<and> num_full_slots bt' = num_full_slots bt + length ts
         \<and> length new = blocks_needed bs (num_full_slots bt + length ts) - length (physical_block_ids bt)"
    "physical_block_ids bt \<noteq> [] \<Longrightarrow>
       blocks_needed bs (num_full_slots bt + length ts) - length (physical_block_ids bt) \<le> card (free p)
       \<Longrightarrow> is_ok (table_append ops bt ts p)"
    "free (table_free ops bt p) = free p \<union> set (physical_block_ids bt)"
  using assms unfolding allocator_laws_def by blast+

text \<open>An allocator with the laws: a list of free block ids, taken from the front.\<close>

definition list_allocator :: "nat \<Rightarrow> nat list block_ops" where
  "list_allocator bs = \<lparr>
     get_num_free_blocks = (\<lambda>p. int (card (set p))),
     table_allocate = (\<lambda>ts p. let q = remdups p; n = blocks_needed bs (length ts) in
       if n \<le> length q then Inr (\<lparr>physical_block_ids = take n q, num_full_slots = length ts\<rparr>, drop n q) else Inl ValueError),
     table_append = (\<lambda>bt ts p. let q = remdups p;
         n = blocks_needed bs (num_full_slots bt + length ts) - length (physical_block_ids bt) in
       if physical_block_ids bt = [] then Inl AssertionError
       else if n \<le> length q
       then Inr (\<lparr>physical_block_ids = physical_block_ids bt @ take n q, num_full_slots = num_full_slots bt + length ts\<rparr>,
                 drop n q)
       else Inl ValueError),
     table_free = (\<lambda>bt p. p @ physical_block_ids bt)\<rparr>"

lemma takes_front:
  "takes_blocks set p (drop n (remdups p)) (take n (remdups p))"
proof -
  let ?t = "take n (remdups p)" and ?d = "drop n (remdups p)"
  have "set p = set ?t \<union> set ?d" by (metis append_take_drop_id set_append set_remdups)
  moreover have "set ?t \<inter> set ?d = {}" by (simp add: set_take_disj_set_drop_if_distinct)
  ultimately show ?thesis by (auto simp: takes_blocks_def distinct_take)
qed

lemma list_allocator_laws: "bs > 0 \<Longrightarrow> allocator_laws (list_allocator bs) bs set"
  unfolding allocator_laws_def list_allocator_def
  by (simp add: Let_def takes_front length_remdups_card_conv split: if_splits)

definition table_blocks :: "('k, BlockTable) dict \<Rightarrow> nat multiset" where
  "table_blocks d = sum_list (map (mset \<circ> physical_block_ids \<circ> snd) d)"

definition owned :: "'p SchedulerLlumnix \<Rightarrow> nat multiset" where
  "owned s = table_blocks (block_tables s) + table_blocks (pre_alloc_cache_dict s)"

text \<open>No block belongs to two tables, or to a table and to the free pool.\<close>

definition blocks_ok :: "('p \<Rightarrow> nat set) \<Rightarrow> 'p SchedulerLlumnix \<Rightarrow> bool" where
  "blocks_ok free s \<longleftrightarrow> distinct (dkeys (block_tables s)) \<and> distinct (dkeys (pre_alloc_cache_dict s))
     \<and> (\<forall>b. count (owned s) b \<le> 1) \<and> set_mset (owned s) \<inter> free (pool s) = {}"

definition all_blocks :: "('p \<Rightarrow> nat set) \<Rightarrow> 'p SchedulerLlumnix \<Rightarrow> nat set" where
  "all_blocks free s = set_mset (owned s) \<union> free (pool s)"

lemma dpop_Cons: "dpop k ((k', v) # d) = (if k' = k then dpop k d else (k', v) # dpop k d)"
  by (simp add: AList.delete_eq)

lemma table_blocks_Nil [simp]: "table_blocks [] = {#}"
  by (simp add: table_blocks_def)

lemma table_blocks_Cons [simp]: "table_blocks ((k, bt) # d) = mset (physical_block_ids bt) + table_blocks d"
  by (simp add: table_blocks_def)

lemma table_blocks_dpop:
  "distinct (dkeys d) \<Longrightarrow> dget d k = Some bt \<Longrightarrow> table_blocks d = mset (physical_block_ids bt) + table_blocks (dpop k d)"
proof (induction d)
  case (Cons x d)
  obtain k' v where x: "x = (k', v)" by (cases x)
  show ?case
  proof (cases "k' = k")
    case True
    with Cons.prems x have "dpop k d = d" by (simp add: dpop_absent)
    with Cons.prems x True show ?thesis by (simp add: dpop_Cons)
  next
    case False
    with Cons x show ?thesis by (simp add: dpop_Cons)
  qed
qed simp

lemma table_blocks_dset:
  "distinct (dkeys d) \<Longrightarrow> table_blocks (dset k bt d) = mset (physical_block_ids bt) + table_blocks (dpop k d)"
proof (induction d)
  case (Cons x d)
  obtain k' v where x: "x = (k', v)" by (cases x)
  show ?case
  proof (cases "k' = k")
    case True
    with Cons.prems x have "dpop k d = d" by (simp add: dpop_absent)
    with Cons.prems x True show ?thesis by (simp add: dpop_Cons)
  next
    case False
    with Cons x show ?thesis by (simp add: dpop_Cons)
  qed
qed simp

lemma table_blocks_absent: "dget d k = None \<Longrightarrow> dpop k d = d"
  by (simp add: dget_None_iff dpop_absent)

text \<open>Taking free blocks into a table and returning the blocks of a table.\<close>

lemma count_le_1_union:
  assumes "\<forall>b. count A b \<le> 1" "distinct new" "set_mset A \<inter> set new = {}"
  shows "count (A + mset new) b \<le> 1"
proof (cases "b \<in> set new")
  case True
  with assms(3) have "count A b = 0" by (auto simp: count_eq_zero_iff)
  thus ?thesis using distinct_count_atmost_1[of new] assms(2) by simp
next
  case False
  hence "count (mset new) b = 0" by (simp add: count_eq_zero_iff)
  thus ?thesis using assms(1) unfolding count_union by (metis add.right_neutral)
qed

lemma blocks_ok_take:
  assumes ok: "blocks_ok free s" and takes: "takes_blocks free (pool s) p new"
    and own: "owned s' = owned s + mset new" and pl: "pool s' = p"
    and keys: "distinct (dkeys (block_tables s'))" "distinct (dkeys (pre_alloc_cache_dict s'))"
  shows "blocks_ok free s' \<and> all_blocks free s' = all_blocks free s"
proof -
  have new: "distinct new" "set new \<subseteq> free (pool s)" "free p = free (pool s) - set new"
    using takes by (auto simp: takes_blocks_def)
  have ok': "\<forall>b. count (owned s) b \<le> 1" "set_mset (owned s) \<inter> free (pool s) = {}"
    using ok by (auto simp: blocks_ok_def)
  have "set_mset (owned s) \<inter> set new = {}" using ok'(2) new(2) by blast
  note count_le_1_union[OF ok'(1) new(1) this]
  with new ok' keys show ?thesis by (auto simp: blocks_ok_def all_blocks_def own pl)
qed

lemma blocks_ok_return:
  assumes ok: "blocks_ok free s" and pl: "free (pool s') = free (pool s) \<union> set old"
    and own: "owned s = owned s' + mset old"
    and keys: "distinct (dkeys (block_tables s'))" "distinct (dkeys (pre_alloc_cache_dict s'))"
  shows "blocks_ok free s' \<and> all_blocks free s' = all_blocks free s"
proof -
  have ok': "\<forall>b. count (owned s') b + count (mset old) b \<le> 1" "set_mset (owned s) \<inter> free (pool s) = {}"
    using ok by (auto simp: blocks_ok_def own)
  have "b \<notin> set old" if own: "b \<in># owned s'" for b
  proof
    assume "b \<in> set old"
    hence "0 < count (mset old) b" unfolding count_greater_zero_iff by simp
    moreover have "0 < count (owned s') b" using own unfolding count_greater_zero_iff .
    ultimately show False using ok'(1)[rule_format, of b] by linarith
  qed
  moreover have "count (owned s') b \<le> 1" for b using ok'(1)[rule_format, of b] by simp
  ultimately show ?thesis using ok'(2) keys by (auto simp: blocks_ok_def all_blocks_def own pl)
qed

abbreviation keeps_blocks :: "('p \<Rightarrow> nat set) \<Rightarrow> 'p SchedulerLlumnix \<Rightarrow> 'p SchedulerLlumnix \<Rightarrow> bool" where
  "keeps_blocks free s s' \<equiv> blocks_ok free s' \<and> all_blocks free s' = all_blocks free s"

lemma blocks_unchanged:
  assumes "blocks_ok free s" "block_tables s' = block_tables s" "pre_alloc_cache_dict s' = pre_alloc_cache_dict s"
    "pool s' = pool s"
  shows "keeps_blocks free s s'"
  using assms by (simp add: blocks_ok_def all_blocks_def owned_def)

lemma pre_alloc_take:
  assumes ok: "blocks_ok free s" and takes: "takes_blocks free (pool s) p new"
    and bt: "physical_block_ids bt = (case dget (pre_alloc_cache_dict s) rid of None \<Rightarrow> [] | Some b \<Rightarrow> physical_block_ids b) @ new"
  shows "keeps_blocks free s (s\<lparr>pool := p, pre_alloc_cache_dict := dset rid bt (pre_alloc_cache_dict s)\<rparr>)"
proof (rule blocks_ok_take[OF ok takes])
  have keys: "distinct (dkeys (pre_alloc_cache_dict s))" "distinct (dkeys (block_tables s))"
    using ok by (auto simp: blocks_ok_def)
  show "owned (s\<lparr>pool := p, pre_alloc_cache_dict := dset rid bt (pre_alloc_cache_dict s)\<rparr>) = owned s + mset new"
    using table_blocks_dset[OF keys(1), of rid bt] table_blocks_dpop[OF keys(1), of rid]
    by (cases "dget (pre_alloc_cache_dict s) rid") (simp_all add: owned_def bt table_blocks_absent)
  show "distinct (dkeys (block_tables (s\<lparr>pool := p, pre_alloc_cache_dict := dset rid bt (pre_alloc_cache_dict s)\<rparr>)))"
    "distinct (dkeys (pre_alloc_cache_dict (s\<lparr>pool := p, pre_alloc_cache_dict := dset rid bt (pre_alloc_cache_dict s)\<rparr>)))"
    using keys by (simp_all add: distinct_dset)
qed simp

lemma takes_none: "takes_blocks free p p []"
  by (simp add: takes_blocks_def)

text \<open>The table a reservation works with, and what it adds to the reserved blocks.\<close>

lemma pre_alloc_table:
  assumes laws: "allocator_laws ops bs free"
    and r: "(case dget (pre_alloc_cache_dict s) rid of
               None \<Rightarrow> get_free_blocks ops cfg n ts (pool s)
             | Some bt \<Rightarrow> if get_num_free_blocks ops (pool s) \<ge> int n then table_append ops bt ts (pool s) else Inr (bt, pool s))
            = Inr (bt, p)"
  obtains new where "takes_blocks free (pool s) p new"
    "physical_block_ids bt = (case dget (pre_alloc_cache_dict s) rid of None \<Rightarrow> [] | Some b \<Rightarrow> physical_block_ids b) @ new"
proof (cases "dget (pre_alloc_cache_dict s) rid")
  case None
  show thesis
  proof (cases "get_num_free_blocks ops (pool s) - int n \<ge> watermark_blocks cfg")
    case True
    hence "table_allocate ops ts (pool s) = Inr (bt, p)" using r None by (simp add: get_free_blocks_def)
    from that[OF allocator_lawsD(4)[OF laws this]] None show thesis by simp
  next
    case False
    hence "bt = empty_BlockTable" "p = pool s" using r None by (auto simp: get_free_blocks_def)
    with that[of "[]"] None show thesis by (simp add: takes_none empty_BlockTable_def)
  qed
next
  case (Some b)
  show thesis
  proof (cases "get_num_free_blocks ops (pool s) \<ge> int n")
    case True
    hence "table_append ops b ts (pool s) = Inr (bt, p)" using r Some by simp
    from allocator_lawsD(8)[OF laws this] that Some show thesis by auto
  next
    case False
    hence "bt = b" "p = pool s" using r Some by auto
    with that[of "[]"] Some show thesis by (simp add: takes_none)
  qed
qed

lemma pre_alloc_blocks_ok:
  assumes laws: "allocator_laws ops bs free" and ok: "blocks_ok free s"
  shows "keeps_blocks free s (snd (pre_alloc ops cfg rid st arrival n ts s))"
proof -
  let ?r = "case dget (pre_alloc_cache_dict s) rid of
               None \<Rightarrow> get_free_blocks ops cfg n ts (pool s)
             | Some bt \<Rightarrow> if get_num_free_blocks ops (pool s) \<ge> int n then table_append ops bt ts (pool s) else Inr (bt, pool s)"
  have "keeps_blocks free s (s\<lparr>pool := p, pre_alloc_cache_dict := dset rid bt (pre_alloc_cache_dict s)\<rparr>)"
    if "?r = Inr (bt, p)" for bt p
    using pre_alloc_table[OF laws that] pre_alloc_take[OF ok] by metis
  thus ?thesis using ok unfolding pre_alloc_def Let_def by (auto split: sum.split prod.split)
qed

lemma free_pre_alloc_of_blocks_ok:
  assumes laws: "allocator_laws ops bs free" and ok: "blocks_ok free s"
  shows "keeps_blocks free s (free_pre_alloc_of ops rid s)"
proof (cases "dget (pre_alloc_cache_dict s) rid")
  case None
  thus ?thesis using ok by (simp add: free_pre_alloc_of_def)
next
  case (Some bt)
  have keys: "distinct (dkeys (pre_alloc_cache_dict s))" "distinct (dkeys (block_tables s))"
    using ok by (auto simp: blocks_ok_def)
  show ?thesis unfolding free_pre_alloc_of_def Some option.case
    by (rule blocks_ok_return[OF ok, where old = "physical_block_ids bt"])
      (use keys table_blocks_dpop[OF keys(1) Some] allocator_lawsD(10)[OF laws]
       in \<open>simp_all add: owned_def distinct_dpop\<close>)
qed

lemma free_fold_blocks_ok:
  assumes "allocator_laws ops bs free"
  shows "blocks_ok free s \<Longrightarrow> keeps_blocks free s (fold (free_pre_alloc_of ops) rids s)"
  by (induction rids arbitrary: s) (use free_pre_alloc_of_blocks_ok[OF assms] in auto)

lemma free_dst_pre_alloc_cache_blocks_ok:
  assumes "allocator_laws ops bs free" "blocks_ok free s"
  shows "keeps_blocks free s (free_dst_pre_alloc_cache ops rid s)"
  unfolding free_dst_pre_alloc_cache_def
  using free_pre_alloc_of_blocks_ok[OF assms] free_fold_blocks_ok[OF assms] by (auto split: option.split list.split)

lemma free_src_request_blocks_ok:
  assumes laws: "allocator_laws ops bs free" and ok: "blocks_ok free s"
  shows "keeps_blocks free s (free_src_request ops r s)"
proof (cases "dget (block_tables s) (seq_id (objects s r))")
  case None
  thus ?thesis using ok by (simp add: free_src_request_def)
next
  case (Some bt)
  have keys: "distinct (dkeys (pre_alloc_cache_dict s))" "distinct (dkeys (block_tables s))"
    using ok by (auto simp: blocks_ok_def)
  show ?thesis unfolding free_src_request_def Some option.case Let_def
    by (rule blocks_ok_return[OF ok, where old = "physical_block_ids bt"])
      (use keys table_blocks_dpop[OF keys(2) Some] allocator_lawsD(10)[OF laws]
       in \<open>simp_all add: owned_def distinct_dpop\<close>)
qed

end
