(* ===== verification/Backend_Vllm.thy ===== *)
theory Backend_Vllm
  imports Block_Scheduler
begin

text \<open>
  The engine of one instance (\<open>backends/vllm/llm_engine.py\<close>): the reports it keeps, its
  step loop, the requests it takes over from another instance and the removal of running
  requests, which the step loop carries out between two steps. What vLLM's engine does in a
  step is an argument.
\<close>

datatype EngineState = ENGINE_INIT | ENGINE_CRASHED | ENGINE_RUNNING | ENGINE_STOPPED

text \<open>A request output: its request, whether it is the last one, and its content.\<close>

record RequestOutput =
  ro_request_id :: string
  ro_finished :: bool
  ro_tokens :: "nat list"

text \<open>
  The engine with its scheduler. The queue of removals holds request ids; the event a
  removal waits for is set when its answer is in \<open>remove_running_request_ret\<close>.
\<close>

record 'p BackendVLLM =
  be_instance_id :: string
  sched :: "'p SchedulerLlumnix"
  be_instance_info :: "InstanceInfo option"
  step_counter :: int
  seq_counter :: nat
  engine_state :: EngineState
  stop_event :: bool
  step_done_event_queue :: "string list"
  remove_running_request_ret :: "(string, bool) dict"
  put_queue_args_queue :: "(RequestOutput list \<times> nat list) list"

abbreviation upd_sched :: "('p SchedulerLlumnix \<Rightarrow> 'p SchedulerLlumnix) \<Rightarrow> 'p BackendVLLM \<Rightarrow> 'p BackendVLLM" where
  "upd_sched f b \<equiv> b\<lparr>sched := f (sched b)\<rparr>"

definition init_BackendVLLM :: "string \<Rightarrow> 'p SchedulerLlumnix \<Rightarrow> InstanceInfo option \<Rightarrow> 'p BackendVLLM" where
  "init_BackendVLLM iid s info = \<lparr>be_instance_id = iid, sched = s, be_instance_info = info, step_counter = 0,
     seq_counter = 0, engine_state = ENGINE_INIT, stop_event = False, step_done_event_queue = [],
     remove_running_request_ret = [], put_queue_args_queue = []\<rparr>"

subsection \<open>Reports\<close>

text \<open>The fields filled in after a step survive the next report of the scheduler.\<close>

definition engine_update_instance_info :: "InstanceInfo \<Rightarrow> 'p BackendVLLM \<Rightarrow> 'p BackendVLLM" where
  "engine_update_instance_info info b = b\<lparr>be_instance_info := Some (case be_instance_info b of
     None \<Rightarrow> info
   | Some old \<Rightarrow> info\<lparr>instance_id := instance_id old, step_id := step_id old, timestamp := timestamp old,
       profiling_data := profiling_data old,
       num_blocks_last_running_request := num_blocks_last_running_request old\<rparr>)\<rparr>"

definition inference_type_value :: "RequestInferenceType option \<Rightarrow> string" where
  "inference_type_value t = (case t of None \<Rightarrow> '''' | Some Inference_PREFILL \<Rightarrow> ''prefill'' | Some Inference_DECODE \<Rightarrow> ''decode'')"

text \<open>
  \<open>_process_request_outputs\<close>. The last running request contributes its distinct blocks;
  only a running sequence has any to contribute.
\<close>

definition process_request_outputs ::
  "rat \<Rightarrow> rat \<Rightarrow> (RequestOutput \<times> nat) list \<Rightarrow> 'p BackendVLLM \<Rightarrow> (RequestOutput list \<times> nat list) res \<times> 'p BackendVLLM" where
  "process_request_outputs now latency outputs b =
     (case be_instance_info b of
        None \<Rightarrow> (Inl AttributeError, b)
      | Some info \<Rightarrow>
          let info = info\<lparr>instance_id := be_instance_id b, step_id := Some (step_counter b), timestamp := Some now,
                profiling_data := Some (inference_type_value (inference_type info),
                  num_seqs info, sum_list (running_seq_lens info), latency)\<rparr>;
              b = b\<lparr>step_counter := step_counter b + 1, be_instance_info := Some info\<rparr>;
              blocks = (if running (sched b) = [] then Inr None
                 else let r = objects (sched b) (last (running (sched b))) in
                   if seq_status r \<noteq> SEQ_RUNNING then Inr (Some 0)
                   else (case dget (block_tables (sched b)) (seq_id r) of
                           None \<Rightarrow> Inl KeyError | Some bt \<Rightarrow> Inr (Some (card (set (physical_block_ids bt))))))
          in case blocks of
               Inl e \<Rightarrow> (Inl e, b)
             | Inr n \<Rightarrow>
                 let info = (case n of None \<Rightarrow> info | Some n \<Rightarrow> info\<lparr>num_blocks_last_running_request := of_py_nat n\<rparr>);
                     outs = (map fst outputs, map snd outputs)
                 in (Inr outs, b\<lparr>be_instance_info := Some info,
                       put_queue_args_queue := put_queue_args_queue b @ (if outputs = [] then [] else [outs])\<rparr>))"

subsection \<open>Requests\<close>

text \<open>
  vLLM appends the new group to the waiting queue; the engine replaces it by a Llumnix
  request with the same sequence.
\<close>

definition engine_add_request ::
  "('p SchedulerLlumnix \<Rightarrow> 'p SchedulerLlumnix) \<Rightarrow> string \<Rightarrow> nat \<Rightarrow> pynum \<Rightarrow> 'p BackendVLLM \<Rightarrow> unit res \<times> 'p BackendVLLM" where
  "engine_add_request super request_id server_info steps b =
     (let s = super (sched b) in
      if waiting s = [] then (Inl IndexError, b\<lparr>sched := s\<rparr>)
      else let r = next_object s;
               g = init_SequenceGroupLlumnix request_id server_info steps (objects s (last (waiting s)))
           in (Inr (), b\<lparr>sched := s\<lparr>objects := (objects s)(r := g), next_object := r + 1,
                 waiting := butlast (waiting s) @ [r]\<rparr>\<rparr>))"

text \<open>
  \<open>commit_dst_request\<close>. The request arrives as a copy, gets a sequence id of this engine and
  the reserved blocks, and joins the queue its status names.
\<close>

definition commit_dst_request :: "SequenceGroupLlumnix \<Rightarrow> 'p BackendVLLM \<Rightarrow> unit res \<times> 'p BackendVLLM" where
  "commit_dst_request req b =
     (let sid = seq_counter b;
          b = b\<lparr>seq_counter := sid + 1\<rparr>;
          s = sched b;
          rid = rq_request_id req
      in case dget (pre_alloc_cache_dict s) rid of
           None \<Rightarrow> (Inl KeyError, b)
         | Some bt \<Rightarrow>
             let r = next_object s;
                 req = reset_migration_args_dst (req\<lparr>seq_id := sid\<rparr>);
                 s = add_block_table bt sid (s\<lparr>pre_alloc_cache_dict := dpop rid (pre_alloc_cache_dict s)\<rparr>);
                 s = s\<lparr>objects := (objects s)(r := req), next_object := r + 1\<rparr>
             in if \<not> status_is_migrating (request_status req) then (Inl AssertionError, b\<lparr>sched := s\<rparr>)
                else if request_status req = WAITING_MIGRATING then (Inr (), b\<lparr>sched := add_waiting_request r s\<rparr>)
                else (Inr (), b\<lparr>sched := add_running_request r (upd_object r reset_status s)\<rparr>))"

subsection \<open>The step loop\<close>

definition queue_removal :: "string \<Rightarrow> 'p BackendVLLM \<Rightarrow> 'p BackendVLLM" where
  "queue_removal request_id b = b\<lparr>step_done_event_queue := step_done_event_queue b @ [request_id]\<rparr>"

definition serve_removal :: "string \<Rightarrow> 'p BackendVLLM \<Rightarrow> 'p BackendVLLM" where
  "serve_removal request_id b =
     (let (found, s) = remove_running_request request_id (sched b)
      in b\<lparr>sched := s, remove_running_request_ret := dset request_id found (remove_running_request_ret b)\<rparr>)"

definition serve_removals :: "'p BackendVLLM \<Rightarrow> 'p BackendVLLM" where
  "serve_removals b = fold serve_removal (step_done_event_queue b) (b\<lparr>step_done_event_queue := []\<rparr>)"

definition start_engine_step_loop :: "'p BackendVLLM \<Rightarrow> 'p BackendVLLM" where
  "start_engine_step_loop b = b\<lparr>stop_event := False, engine_state := ENGINE_RUNNING\<rparr>"

text \<open>
  One iteration: the queued removals, then a step, which may raise. The result tells
  whether the loop goes on; a loop that leaves by its condition marks the engine stopped.
\<close>

definition engine_step_iteration ::
  "('p BackendVLLM \<Rightarrow> unit res \<times> 'p BackendVLLM) \<Rightarrow> 'p BackendVLLM \<Rightarrow> bool \<times> 'p BackendVLLM" where
  "engine_step_iteration step b =
     (if stop_event b
      then (False, if engine_state b = ENGINE_RUNNING then b\<lparr>engine_state := ENGINE_STOPPED\<rparr> else b)
      else let (r, b) = step (serve_removals b)
           in case r of
                Inl e \<Rightarrow> (False, b\<lparr>engine_state := ENGINE_CRASHED\<rparr>)
              | Inr _ \<Rightarrow> (True, b))"

text \<open>The loop over the steps the engine takes.\<close>

fun engine_step_loop :: "('p BackendVLLM \<Rightarrow> unit res \<times> 'p BackendVLLM) list \<Rightarrow> 'p BackendVLLM \<Rightarrow> bool \<times> 'p BackendVLLM" where
  "engine_step_loop [] b = (True, b)"
| "engine_step_loop (step # steps) b =
     (let (continue, b) = engine_step_iteration step b
      in if continue then engine_step_loop steps b else (False, b))"

text \<open>The answer of a removal, once the loop has served it.\<close>

definition take_removal_answer :: "string \<Rightarrow> 'p BackendVLLM \<Rightarrow> bool res \<times> 'p BackendVLLM" where
  "take_removal_answer request_id b =
     (case dget (remove_running_request_ret b) request_id of
        None \<Rightarrow> (Inl KeyError, b)
      | Some found \<Rightarrow> (Inr found, b\<lparr>remove_running_request_ret := dpop request_id (remove_running_request_ret b)\<rparr>))"

subsection \<open>Blocks and queues over every sequence of operations\<close>

datatype be_event =
    PreAlloc string RequestStatus rat nat "nat list"
  | FreePreAlloc "string option"
  | FreeSource ref
  | CommitDst SequenceGroupLlumnix
  | QueueRemoval string
  | ServeRemovals
  | RemoveWaiting string
  | AddRunning ref
  | AddWaiting ref
  | AddLastStage ref
  | RemoveLastStage ref
  | PopLastStage

text \<open>A queue is only given objects that exist.\<close>

fun be_step :: "'p block_ops \<Rightarrow> SchedulerConfig \<Rightarrow> 'p BackendVLLM \<Rightarrow> be_event \<Rightarrow> 'p BackendVLLM" where
  "be_step ops cfg b (PreAlloc rid st arrival n ts) = upd_sched (\<lambda>s. snd (pre_alloc ops cfg rid st arrival n ts s)) b"
| "be_step ops cfg b (FreePreAlloc rid) = upd_sched (free_dst_pre_alloc_cache ops rid) b"
| "be_step ops cfg b (FreeSource r) = upd_sched (free_src_request ops r) b"
| "be_step ops cfg b (CommitDst req) = snd (commit_dst_request req b)"
| "be_step ops cfg b (QueueRemoval rid) = queue_removal rid b"
| "be_step ops cfg b ServeRemovals = serve_removals b"
| "be_step ops cfg b (RemoveWaiting rid) = upd_sched (\<lambda>s. snd (remove_waiting_request cfg rid s)) b"
| "be_step ops cfg b (AddRunning r) = upd_sched (add_running_request r) b"
| "be_step ops cfg b (AddWaiting r) = (if r < next_object (sched b) then upd_sched (add_waiting_request r) b else b)"
| "be_step ops cfg b (AddLastStage r) = upd_sched (add_migrating_out_request_last_stage r) b"
| "be_step ops cfg b (RemoveLastStage r) = upd_sched (\<lambda>s. snd (remove_migrating_out_request_last_stage r s)) b"
| "be_step ops cfg b PopLastStage = upd_sched (\<lambda>s. snd (pop_migrating_out_requests_last_stage s)) b"

definition sched_inv :: "('p \<Rightarrow> nat set) \<Rightarrow> nat \<Rightarrow> 'p SchedulerLlumnix \<Rightarrow> bool" where
  "sched_inv free n s \<longleftrightarrow> blocks_ok free s \<and> waiting_sorted s \<and> (\<forall>r \<in> set (waiting s). r < next_object s)
     \<and> (\<forall>sid \<in> set (dkeys (block_tables s)). sid < n)"

abbreviation keeps_inv :: "('p \<Rightarrow> nat set) \<Rightarrow> nat \<Rightarrow> 'p SchedulerLlumnix \<Rightarrow> 'p SchedulerLlumnix \<Rightarrow> bool" where
  "keeps_inv free n s s' \<equiv> sched_inv free n s' \<and> all_blocks free s' = all_blocks free s"

lemma sched_inv_queues:
  assumes "sched_inv free n s"
    and "block_tables s' = block_tables s" "pre_alloc_cache_dict s' = pre_alloc_cache_dict s" "pool s' = pool s"
    and "next_object s \<le> next_object s'" "waiting_sorted s'" "\<forall>r \<in> set (waiting s'). r < next_object s'"
  shows "keeps_inv free n s s'"
  using assms blocks_unchanged[of free s s'] by (simp add: sched_inv_def)

lemma sched_inv_tables:
  assumes "sched_inv free n s" and "keeps_blocks free s s'"
    and "objects s' = objects s" "next_object s' = next_object s" "waiting s' = waiting s"
    and "\<forall>sid \<in> set (dkeys (block_tables s')). sid < m"
  shows "keeps_inv free m s s'"
  using assms by (simp add: sched_inv_def waiting_sorted_def)

lemma pre_alloc_frame:
  "objects (snd (pre_alloc ops cfg rid st arrival n ts s)) = objects s"
  "next_object (snd (pre_alloc ops cfg rid st arrival n ts s)) = next_object s"
  "waiting (snd (pre_alloc ops cfg rid st arrival n ts s)) = waiting s"
  "running (snd (pre_alloc ops cfg rid st arrival n ts s)) = running s"
  "block_tables (snd (pre_alloc ops cfg rid st arrival n ts s)) = block_tables s"
  by (simp_all add: pre_alloc_def Let_def split: sum.split prod.split)

lemma free_pre_alloc_of_frame:
  "objects (free_pre_alloc_of ops rid s) = objects s" "next_object (free_pre_alloc_of ops rid s) = next_object s"
  "waiting (free_pre_alloc_of ops rid s) = waiting s" "running (free_pre_alloc_of ops rid s) = running s"
  "block_tables (free_pre_alloc_of ops rid s) = block_tables s"
  by (simp_all add: free_pre_alloc_of_def split: option.split)

lemma free_fold_frame:
  "objects (fold (free_pre_alloc_of ops) rids s) = objects s" "next_object (fold (free_pre_alloc_of ops) rids s) = next_object s"
  "waiting (fold (free_pre_alloc_of ops) rids s) = waiting s" "running (fold (free_pre_alloc_of ops) rids s) = running s"
  "block_tables (fold (free_pre_alloc_of ops) rids s) = block_tables s"
  by (induction rids arbitrary: s) (simp_all add: free_pre_alloc_of_frame)

lemma free_dst_frame:
  "objects (free_dst_pre_alloc_cache ops rid s) = objects s" "next_object (free_dst_pre_alloc_cache ops rid s) = next_object s"
  "waiting (free_dst_pre_alloc_cache ops rid s) = waiting s" "running (free_dst_pre_alloc_cache ops rid s) = running s"
  "block_tables (free_dst_pre_alloc_cache ops rid s) = block_tables s"
  by (simp_all add: free_dst_pre_alloc_cache_def free_pre_alloc_of_frame free_fold_frame split: option.split list.split)

lemma free_src_frame:
  "objects (free_src_request ops r s) = objects s" "next_object (free_src_request ops r s) = next_object s"
  "waiting (free_src_request ops r s) = waiting s" "running (free_src_request ops r s) = running s"
  "set (dkeys (block_tables (free_src_request ops r s))) \<subseteq> set (dkeys (block_tables s))"
  by (auto simp: free_src_request_def Let_def dict_simps split: option.split)

lemma remove_running_frame:
  "block_tables (snd (remove_running_request rid s)) = block_tables s"
  "pre_alloc_cache_dict (snd (remove_running_request rid s)) = pre_alloc_cache_dict s"
  "pool (snd (remove_running_request rid s)) = pool s" "next_object (snd (remove_running_request rid s)) = next_object s"
  "waiting (snd (remove_running_request rid s)) = waiting s"
  "arrival_time (objects (snd (remove_running_request rid s)) x) = arrival_time (objects s x)"
  by (simp_all add: remove_running_request_def set_status_def split: option.split)

lemma remove_running_inv:
  "sched_inv free n s \<Longrightarrow> keeps_inv free n s (snd (remove_running_request rid s))"
  by (rule sched_inv_queues) (simp_all add: remove_running_frame sched_inv_def waiting_sorted_def)

lemma remove_waiting_inv:
  assumes "sched_inv free n s"
  shows "keeps_inv free n s (snd (remove_waiting_request cfg rid s))"
proof (rule sched_inv_queues[OF assms])
  let ?s = "snd (remove_waiting_request cfg rid s)"
  have w: "waiting ?s = waiting s \<or> (\<exists>r. waiting ?s = remove1 r (waiting s))"
    by (auto simp: remove_waiting_request_def split: option.split)
  have a: "arrival_time (objects ?s x) = arrival_time (objects s x)" for x
    by (simp add: remove_waiting_request_def set_status_def split: option.split)
  show "waiting_sorted ?s" using assms w by (auto simp: waiting_sorted_def a sched_inv_def sorted_map_remove1)
  show "\<forall>r \<in> set (waiting ?s). r < next_object ?s"
    using assms by (auto simp: remove_waiting_request_def sched_inv_def split: option.split dest: notin_set_remove1)
qed (simp_all add: remove_waiting_request_def split: option.split)

lemma blocks_ok_move:
  assumes ok: "blocks_ok free s" and bt: "dget (pre_alloc_cache_dict s) rid = Some bt"
    and new: "dget (block_tables s) sid = None"
  shows "keeps_blocks free s (add_block_table bt sid (s\<lparr>pre_alloc_cache_dict := dpop rid (pre_alloc_cache_dict s)\<rparr>))"
proof -
  have keys: "distinct (dkeys (pre_alloc_cache_dict s))" "distinct (dkeys (block_tables s))"
    using ok by (auto simp: blocks_ok_def)
  let ?s = "add_block_table bt sid (s\<lparr>pre_alloc_cache_dict := dpop rid (pre_alloc_cache_dict s)\<rparr>)"
  have "owned ?s = owned s"
    using table_blocks_dpop[OF keys(1) bt] table_blocks_dset[OF keys(2), of sid bt]
    by (simp add: owned_def add_block_table_def table_blocks_absent[OF new])
  thus ?thesis using ok keys
    by (simp add: blocks_ok_def all_blocks_def add_block_table_def distinct_dset distinct_dpop)
qed

lemma commit_dst_request_cases:
  obtains
    (missing) "dget (pre_alloc_cache_dict (sched b)) (rq_request_id req) = None"
      "commit_dst_request req b = (Inl KeyError, b\<lparr>seq_counter := seq_counter b + 1\<rparr>)"
  | (found) bt r req' s res s' where
      "dget (pre_alloc_cache_dict (sched b)) (rq_request_id req) = Some bt"
      "r = next_object (sched b)" "req' = reset_migration_args_dst (req\<lparr>seq_id := seq_counter b\<rparr>)"
      "s = add_block_table bt (seq_counter b)
             ((sched b)\<lparr>pre_alloc_cache_dict := dpop (rq_request_id req) (pre_alloc_cache_dict (sched b))\<rparr>)"
      "commit_dst_request req b = (res, b\<lparr>seq_counter := seq_counter b + 1, sched := s'\<rparr>)"
      "s' = s\<lparr>objects := (objects s)(r := req'), next_object := r + 1\<rparr>
       \<or> s' = add_waiting_request r (s\<lparr>objects := (objects s)(r := req'), next_object := r + 1\<rparr>)
       \<or> s' = add_running_request r (upd_object r reset_status (s\<lparr>objects := (objects s)(r := req'), next_object := r + 1\<rparr>))"
proof (cases "dget (pre_alloc_cache_dict (sched b)) (rq_request_id req)")
  case None
  thus thesis by (intro missing) (simp_all add: commit_dst_request_def Let_def)
next
  case (Some bt)
  show thesis
    by (rule found[OF Some refl refl refl, of "fst (commit_dst_request req b)" "sched (snd (commit_dst_request req b))"])
      (use Some in \<open>simp_all add: commit_dst_request_def Let_def add_block_table_def\<close>)
qed

lemma new_object_inv:
  assumes "sched_inv free n s" "r = next_object s"
  shows "keeps_inv free n s (s\<lparr>objects := (objects s)(r := req), next_object := r + 1\<rparr>)"
proof (rule sched_inv_queues[OF assms(1)])
  have "x \<noteq> r" if "x \<in> set (waiting s)" for x using that assms by (auto simp: sched_inv_def)
  hence same: "arrivals (s\<lparr>objects := (objects s)(r := req), next_object := r + 1\<rparr>) (waiting s) = arrivals s (waiting s)" by simp
  have "waiting (s\<lparr>objects := (objects s)(r := req), next_object := r + 1\<rparr>) = waiting s" by simp
  thus "waiting_sorted (s\<lparr>objects := (objects s)(r := req), next_object := r + 1\<rparr>)"
    unfolding waiting_sorted_def using assms(1) same by (metis sched_inv_def waiting_sorted_def)
qed (use assms in \<open>auto simp: sched_inv_def less_Suc_eq\<close>)

lemma add_waiting_inv:
  assumes "sched_inv free n s" "r < next_object s"
  shows "keeps_inv free n s (add_waiting_request r s)"
proof (rule sched_inv_queues[OF assms(1)])
  have "set (waiting (add_waiting_request r s)) = insert r (set (waiting s))"
    by (metis add_waiting_request_rest(8) set_mset_add_mset_insert set_mset_mset)
  thus "\<forall>x \<in> set (waiting (add_waiting_request r s)). x < next_object (add_waiting_request r s)"
    using assms by (simp add: sched_inv_def)
  show "waiting_sorted (add_waiting_request r s)"
    using assms(1) by (simp add: sched_inv_def add_waiting_request_sorted)
qed simp_all

lemma add_running_inv:
  assumes "sched_inv free n s"
  shows "keeps_inv free n s (add_running_request r s)"
proof (rule sched_inv_queues[OF assms])
  have "arrival_time (objects (add_running_request r s) x) = arrival_time (objects s x)" for x
    by (simp add: add_running_request_def Let_def)
  thus "waiting_sorted (add_running_request r s)"
    using assms by (simp add: sched_inv_def waiting_sorted_def) (simp add: add_running_request_def Let_def)
qed (use assms in \<open>simp_all add: add_running_request_def Let_def sched_inv_def\<close>)

lemma upd_object_inv:
  assumes "\<forall>x. arrival_time (f x) = arrival_time x" "sched_inv free n s"
  shows "keeps_inv free n s (upd_object r f s)"
proof (rule sched_inv_queues[OF assms(2)])
  have "arrival_time (objects (upd_object r f s) x) = arrival_time (objects s x)" for x using assms(1) by simp
  thus "waiting_sorted (upd_object r f s)" using assms(2) unfolding sched_inv_def waiting_sorted_def by simp
qed (use assms(2) in \<open>simp_all add: sched_inv_def\<close>)

lemma commit_dst_request_inv:
  assumes inv: "sched_inv free (seq_counter b) (sched b)"
  shows "keeps_inv free (seq_counter (snd (commit_dst_request req b))) (sched b) (sched (snd (commit_dst_request req b)))"
proof (cases rule: commit_dst_request_cases[of b req])
  case missing
  thus ?thesis using inv by (auto simp: sched_inv_def)
next
  case (found bt r req' s res s')
  have fresh: "dget (block_tables (sched b)) (seq_counter b) = None"
    using inv by (auto simp: sched_inv_def dict_simps)
  have blocks: "keeps_blocks free (sched b) s"
    using blocks_ok_move[OF _ found(1) fresh] inv by (simp add: found(4) sched_inv_def)
  have s: "keeps_inv free (Suc (seq_counter b)) (sched b) s"
    by (rule sched_inv_tables[OF inv blocks])
      (use inv in \<open>auto simp: found(4) add_block_table_def sched_inv_def dict_simps less_Suc_eq\<close>)
  define s1 where "s1 = s\<lparr>objects := (objects s)(r := req'), next_object := r + 1\<rparr>"
  have r: "r = next_object s" by (simp add: found(2,4) add_block_table_def)
  have s1: "keeps_inv free (Suc (seq_counter b)) s s1"
    unfolding s1_def using new_object_inv[OF _ r] s by blast
  have reset: "keeps_inv free (Suc (seq_counter b)) s1 (upd_object r reset_status s1)"
    using upd_object_inv[of reset_status free "Suc (seq_counter b)" s1 r] s1 by (simp add: reset_status_def)
  have "keeps_inv free (Suc (seq_counter b)) s1 (add_waiting_request r s1)"
    using add_waiting_inv[of free "Suc (seq_counter b)" s1 r] s1 by (simp add: s1_def)
  moreover have "keeps_inv free (Suc (seq_counter b)) s1 (add_running_request r (upd_object r reset_status s1))"
    using add_running_inv reset by blast
  ultimately have "keeps_inv free (Suc (seq_counter b)) s1 s'" using found(6) s1 unfolding s1_def by blast
  thus ?thesis using s s1 by (simp add: found(5))
qed

lemma serve_removal_inv:
  assumes "sched_inv free n (sched b)"
  shows "keeps_inv free n (sched b) (sched (serve_removal rid b)) \<and> seq_counter (serve_removal rid b) = seq_counter b"
  using remove_running_inv[OF assms, of rid] by (simp add: serve_removal_def case_prod_beta)

lemma serve_fold_inv:
  "sched_inv free n (sched b)
   \<Longrightarrow> keeps_inv free n (sched b) (sched (fold serve_removal rids b)) \<and> seq_counter (fold serve_removal rids b) = seq_counter b"
  by (induction rids arbitrary: b) (use serve_removal_inv in fastforce)+

definition be_inv :: "('p \<Rightarrow> nat set) \<Rightarrow> 'p BackendVLLM \<Rightarrow> bool" where
  "be_inv free b \<longleftrightarrow> sched_inv free (seq_counter b) (sched b)"

lemma be_step_preserves:
  assumes laws: "allocator_laws ops bs free" and inv: "be_inv free b"
  shows "be_inv free (be_step ops cfg b ev) \<and> all_blocks free (sched (be_step ops cfg b ev)) = all_blocks free (sched b)"
proof -
  have inv: "sched_inv free (seq_counter b) (sched b)" and ok: "blocks_ok free (sched b)"
    and keys: "\<forall>sid \<in> set (dkeys (block_tables (sched b))). sid < seq_counter b"
    using inv by (auto simp: be_inv_def sched_inv_def)
  show ?thesis
  proof (cases ev)
    case (PreAlloc rid st arrival n ts)
    show ?thesis unfolding be_inv_def PreAlloc
      using sched_inv_tables[OF inv pre_alloc_blocks_ok[OF laws ok]] keys by (simp add: pre_alloc_frame)
  next
    case (FreePreAlloc rid)
    show ?thesis unfolding be_inv_def FreePreAlloc
      using sched_inv_tables[OF inv free_dst_pre_alloc_cache_blocks_ok[OF laws ok]] keys by (simp add: free_dst_frame)
  next
    case (FreeSource r)
    have "\<forall>sid \<in> set (dkeys (block_tables (free_src_request ops r (sched b)))). sid < seq_counter b"
      using free_src_frame(5)[of ops r "sched b"] keys by blast
    from sched_inv_tables[OF inv free_src_request_blocks_ok[OF laws ok] _ _ _ this] show ?thesis
      by (simp add: be_inv_def FreeSource free_src_frame)
  next
    case (CommitDst req)
    show ?thesis using commit_dst_request_inv[OF inv, of req] by (simp add: be_inv_def CommitDst)
  next
    case (QueueRemoval rid)
    show ?thesis using inv by (simp add: be_inv_def QueueRemoval queue_removal_def)
  next
    case ServeRemovals
    show ?thesis using serve_fold_inv[of free "seq_counter b" "b\<lparr>step_done_event_queue := []\<rparr>"] inv
      by (simp add: be_inv_def ServeRemovals serve_removals_def)
  next
    case (RemoveWaiting rid)
    show ?thesis using remove_waiting_inv[OF inv] by (simp add: be_inv_def RemoveWaiting)
  next
    case (AddRunning r)
    show ?thesis using add_running_inv[OF inv] by (simp add: be_inv_def AddRunning)
  next
    case (AddWaiting r)
    show ?thesis using add_waiting_inv[OF inv, of r] inv by (simp add: be_inv_def AddWaiting)
  next
    case (AddLastStage r)
    show ?thesis using sched_inv_queues[OF inv, of "add_migrating_out_request_last_stage r (sched b)"] inv
      by (simp add: be_inv_def AddLastStage add_migrating_out_request_last_stage_def sched_inv_def waiting_sorted_def)
  next
    case (RemoveLastStage r)
    show ?thesis using sched_inv_queues[OF inv, of "snd (remove_migrating_out_request_last_stage r (sched b))"] inv
      by (simp add: be_inv_def RemoveLastStage remove_migrating_out_request_last_stage_def sched_inv_def waiting_sorted_def)
  next
    case PopLastStage
    show ?thesis using sched_inv_queues[OF inv, of "snd (pop_migrating_out_requests_last_stage (sched b))"] inv
      by (simp add: be_inv_def PopLastStage pop_migrating_out_requests_last_stage_def sched_inv_def waiting_sorted_def)
  qed
qed

interpretation be_machine: invariant_machine "be_step ops cfg"
  "\<lambda>b. allocator_laws ops bs free \<and> be_inv free b \<and> all_blocks free (sched b) = B" for ops cfg bs free B
  by unfold_locales (use be_step_preserves in blast)

text \<open>
  C4: no block is ever shared or lost. Over every sequence of reservations, releases,
  commits, removals and re-insertions, no block belongs to two tables or to a table and the
  free pool, the blocks of the tables and the pool together stay the same, and the waiting
  queue stays sorted by arrival.
\<close>

theorem backend_blocks_consistent:
  assumes "allocator_laws ops bs free" and "be_inv free b"
  shows "let b' = foldl (be_step ops cfg) b events in
    blocks_ok free (sched b') \<and> all_blocks free (sched b') = all_blocks free (sched b) \<and> waiting_sorted (sched b')"
  using be_machine.run_preserves[of ops bs free b "all_blocks free (sched b)" cfg events] assms
  by (simp add: Let_def be_inv_def sched_inv_def)

definition example_config :: SchedulerConfig where
  "example_config = \<lparr>cfg_block_size = 4, num_gpu_blocks = 8, watermark_blocks = 1,
     max_block_sliding_window = None, get_prompt_limit = (\<lambda>_. 64)\<rparr>"

definition example_backend :: "nat list BackendVLLM" where
  "example_backend = init_BackendVLLM ''i'' (init_SchedulerLlumnix [0..<8] example_store) None"

lemma example_backend_inv: "be_inv set example_backend"
  by (simp add: be_inv_def sched_inv_def blocks_ok_def owned_def waiting_sorted_def example_backend_def
      init_BackendVLLM_def init_SchedulerLlumnix_def)

lemma example_allocator: "allocator_laws (list_allocator 4) 4 set"
  by (simp add: list_allocator_laws)

definition example_events :: "be_event list" where
  "example_events = [PreAlloc ''a'' RUNNING_MIGRATING 0 3 [0..<10], PreAlloc ''b'' RUNNING_MIGRATING 0 2 [0..<8],
     CommitDst (example_request_group\<lparr>status_override := Some RUNNING_MIGRATING\<rparr>), FreePreAlloc (Some ''b'')]"

lemma example_events_tables:
  "block_tables (sched (foldl (be_step (list_allocator 4) example_config) example_backend example_events))
     = [(0, \<lparr>physical_block_ids = [0, 1, 2], num_full_slots = 10\<rparr>)]"
  by code_simp

theorem backend_blocks_consistent_witness:
  "let b' = foldl (be_step (list_allocator 4) example_config) example_backend example_events in
     blocks_ok set (sched b') \<and> all_blocks set (sched b') = {0..<8}
     \<and> block_tables (sched b') = [(0, \<lparr>physical_block_ids = [0, 1, 2], num_full_slots = 10\<rparr>)]"
proof -
  have "all_blocks set (sched example_backend) = {0..<8}"
    by (auto simp: all_blocks_def owned_def example_backend_def init_BackendVLLM_def init_SchedulerLlumnix_def)
  with backend_blocks_consistent[OF example_allocator example_backend_inv, of example_config example_events]
    example_events_tables show ?thesis by (simp add: Let_def)
qed

subsection \<open>Removing running requests\<close>

abbreviation req_id :: "'p SchedulerLlumnix \<Rightarrow> ref \<Rightarrow> string" where
  "req_id s r \<equiv> rq_request_id (objects s r)"

lemma find_SomeD: "find P xs = Some x \<Longrightarrow> x \<in> set xs \<and> P x"
  by (induction xs) (auto split: if_splits)

lemma remove_running_cases:
  obtains
    (absent) "\<forall>r \<in> set (running s). req_id s r \<noteq> rid" "remove_running_request rid s = (False, s)"
  | (present) r where "r \<in> set (running s)" "req_id s r = rid"
      "remove_running_request rid s
         = (True, upd_object r (set_status RUNNING_MIGRATING) (s\<lparr>running := remove1 r (running s)\<rparr>))"
proof (cases "find (\<lambda>r. req_id s r = rid) (rev (running s))")
  case None
  hence "\<forall>r \<in> set (running s). req_id s r \<noteq> rid" by (simp add: find_None_iff)
  thus thesis using None by (intro absent) (simp_all add: remove_running_request_def)
next
  case (Some r)
  from find_SomeD[OF this] have "r \<in> set (running s)" "req_id s r = rid" by simp_all
  thus thesis using Some by (intro present) (simp_all add: remove_running_request_def)
qed

lemma remove_running_filter:
  assumes dist: "distinct (map (req_id s) (running s))"
  shows "fst (remove_running_request rid s) \<longleftrightarrow> rid \<in> req_id s ` set (running s)"
    and "running (snd (remove_running_request rid s)) = filter (\<lambda>r. req_id s r \<noteq> rid) (running s)"
    and "req_id (snd (remove_running_request rid s)) x = req_id s x"
proof -
  have "fst (remove_running_request rid s) = (rid \<in> req_id s ` set (running s))
    \<and> running (snd (remove_running_request rid s)) = filter (\<lambda>r. req_id s r \<noteq> rid) (running s)
    \<and> req_id (snd (remove_running_request rid s)) x = req_id s x"
  proof (cases rule: remove_running_cases[of s rid])
    case absent
    thus ?thesis by (auto simp: filter_id_conv)
  next
    case (present r)
    have inj: "inj_on (req_id s) (set (running s))" and d: "distinct (running s)"
      using dist by (auto simp: distinct_map)
    have "remove1 r (running s) = filter (\<lambda>x. x \<noteq> r) (running s)"
      using d by (simp add: distinct_remove1_removeAll removeAll_filter_not_eq eq_commute)
    also have "\<dots> = filter (\<lambda>x. req_id s x \<noteq> rid) (running s)"
      using present(1,2) inj by (intro filter_cong) (auto dest: inj_onD)
    finally show ?thesis using present by (auto simp: set_status_def)
  qed
  thus "fst (remove_running_request rid s) \<longleftrightarrow> rid \<in> req_id s ` set (running s)"
    "running (snd (remove_running_request rid s)) = filter (\<lambda>r. req_id s r \<noteq> rid) (running s)"
    "req_id (snd (remove_running_request rid s)) x = req_id s x" by blast+
qed

lemma serve_removal_effect:
  assumes "distinct (map (req_id (sched b)) (running (sched b)))"
  shows "running (sched (serve_removal rid b)) = filter (\<lambda>r. req_id (sched b) r \<noteq> rid) (running (sched b))"
    and "req_id (sched (serve_removal rid b)) r = req_id (sched b) r"
    and "dget (remove_running_request_ret (serve_removal rid b)) x
       = (if x = rid then Some (rid \<in> req_id (sched b) ` set (running (sched b))) else dget (remove_running_request_ret b) x)"
  using remove_running_filter[OF assms, of rid] by (simp_all add: serve_removal_def case_prod_beta dict_simps)

lemma serve_fold_effect:
  assumes "distinct (map (req_id (sched b)) (running (sched b)))" "distinct rids"
  shows "running (sched (fold serve_removal rids b)) = filter (\<lambda>r. req_id (sched b) r \<notin> set rids) (running (sched b))
    \<and> (\<forall>x. dget (remove_running_request_ret (fold serve_removal rids b)) x
          = (if x \<in> set rids then Some (x \<in> req_id (sched b) ` set (running (sched b))) else dget (remove_running_request_ret b) x))"
  using assms
proof (induction rids arbitrary: b)
  case (Cons rid rids)
  note eff = serve_removal_effect[OF Cons.prems(1), of rid]
  have dist: "distinct (map (req_id (sched (serve_removal rid b))) (running (sched (serve_removal rid b))))"
    using Cons.prems(1) by (simp add: eff(1,2) distinct_map inj_on_def)
  have "distinct rids" using Cons.prems(2) by simp
  note ih = Cons.IH[OF dist this]
  show ?case
  proof (intro conjI allI)
    show "running (sched (fold serve_removal (rid # rids) b))
        = filter (\<lambda>r. req_id (sched b) r \<notin> set (rid # rids)) (running (sched b))"
      using conjunct1[OF ih] by (simp add: eff(1,2))
    fix x
    have "x \<in> req_id (sched b) ` set (filter (\<lambda>r. req_id (sched b) r \<noteq> rid) (running (sched b)))
        \<longleftrightarrow> x \<in> req_id (sched b) ` set (running (sched b))" if "x \<in> set rids"
      using that Cons.prems(2) by (auto simp: image_iff)
    thus "dget (remove_running_request_ret (fold serve_removal (rid # rids) b)) x
        = (if x \<in> set (rid # rids) then Some (x \<in> req_id (sched b) ` set (running (sched b)))
           else dget (remove_running_request_ret b) x)"
      using conjunct2[OF ih, rule_format, of x] Cons.prems(2) by (simp add: eff split: if_splits)
  qed
qed simp

text \<open>
  C26: queued removals are answered. An iteration of the step loop takes every request whose
  removal was queued out of the running queue before it steps the engine, whatever the step
  does afterwards, and the answer says whether the request was running.
\<close>

theorem removals_answered:
  assumes "distinct (map (req_id (sched b)) (running (sched b)))" and "distinct (step_done_event_queue b)"
    and "\<not> stop_event b"
  shows "\<exists>b'. engine_step_iteration step b = (case step b' of
        (Inl e, c) \<Rightarrow> (False, c\<lparr>engine_state := ENGINE_CRASHED\<rparr>) | (Inr _, c) \<Rightarrow> (True, c))
    \<and> step_done_event_queue b' = []
    \<and> running (sched b') = filter (\<lambda>r. req_id (sched b) r \<notin> set (step_done_event_queue b)) (running (sched b))
    \<and> (\<forall>rid \<in> set (step_done_event_queue b). fst (take_removal_answer rid b')
         = Inr (rid \<in> req_id (sched b) ` set (running (sched b))))"
proof (intro exI conjI)
  let ?b = "b\<lparr>step_done_event_queue := []\<rparr>"
  have q: "step_done_event_queue (fold serve_removal rids c) = step_done_event_queue c" for rids and c :: "'a BackendVLLM"
    by (induction rids arbitrary: c) (simp_all add: serve_removal_def case_prod_beta)
  have eff: "running (sched (serve_removals b)) = filter (\<lambda>r. req_id (sched b) r \<notin> set (step_done_event_queue b)) (running (sched b))"
    "dget (remove_running_request_ret (serve_removals b)) x
       = (if x \<in> set (step_done_event_queue b) then Some (x \<in> req_id (sched b) ` set (running (sched b)))
          else dget (remove_running_request_ret b) x)" for x
    using serve_fold_effect[of ?b "step_done_event_queue b"] assms(1,2) by (simp_all add: serve_removals_def)
  show "engine_step_iteration step b = (case step (serve_removals b) of
        (Inl e, c) \<Rightarrow> (False, c\<lparr>engine_state := ENGINE_CRASHED\<rparr>) | (Inr _, c) \<Rightarrow> (True, c))"
    using assms(3) by (simp add: engine_step_iteration_def Let_def split: prod.split sum.split)
  show "step_done_event_queue (serve_removals b) = []" by (simp add: serve_removals_def q)
  show "running (sched (serve_removals b)) = filter (\<lambda>r. req_id (sched b) r \<notin> set (step_done_event_queue b)) (running (sched b))"
    by (rule eff(1))
  show "\<forall>rid \<in> set (step_done_event_queue b). fst (take_removal_answer rid (serve_removals b))
         = Inr (rid \<in> req_id (sched b) ` set (running (sched b)))"
    by (intro ballI) (simp add: take_removal_answer_def eff(2))
qed

definition example_running_backend :: "nat list BackendVLLM" where
  "example_running_backend = queue_removal ''z'' (queue_removal ''b''
     (upd_sched (\<lambda>s. s\<lparr>running := [0, 1, 2], next_object := 5\<rparr>) example_backend))"

lemma example_running_ids:
  "map (req_id (sched example_running_backend)) (running (sched example_running_backend)) = [''a'', ''b'', ''c'']"
  "step_done_event_queue example_running_backend = [''b'', ''z'']" "\<not> stop_event example_running_backend"
  "running (sched example_running_backend) = [0, 1, 2]"
  by (simp_all add: example_running_backend_def example_backend_def queue_removal_def init_BackendVLLM_def
      init_SchedulerLlumnix_def example_store_def example_request_group_def)

theorem removals_answered_witness:
  "\<exists>b'. engine_step_iteration (\<lambda>b. (Inl TimeoutError, b)) example_running_backend
       = (False, b'\<lparr>engine_state := ENGINE_CRASHED\<rparr>)
    \<and> running (sched b') = [0, 2] \<and> fst (take_removal_answer ''b'' b') = Inr True
    \<and> fst (take_removal_answer ''z'' b') = Inr False"
  using removals_answered[of example_running_backend "\<lambda>b. (Inl TimeoutError, b)"] example_running_ids
  by simp blast

end
