(* ===== verification/Cache_Transfer.thy ===== *)
theory Cache_Transfer
  imports Instance_Info
begin

text \<open>
  The copy of cache blocks between two workers (\<open>backends/vllm/migration_backend.py\<close> and
  \<open>worker.py\<close>): the blocks go through a staging buffer, in chunks of the buffer's size, by
  remote calls with the next chunk already under way, or layer group by layer group through a
  collective channel. A cache maps a layer and a block to its content. The copy kernel
  \<open>swap_blocks\<close> and the conversion of the element type are parameters.
\<close>

type_synonym 'v layer = "nat \<Rightarrow> 'v"

type_synonym 'v cache = "nat \<Rightarrow> 'v layer"

type_synonym 'v swap = "'v layer \<Rightarrow> 'v layer \<Rightarrow> (nat \<times> nat) list \<Rightarrow> 'v layer"

text \<open>What \<open>swap_blocks\<close> is documented to do: copy each source block to its target.\<close>

definition copy_pairs :: "'v layer \<Rightarrow> (nat \<times> nat) list \<Rightarrow> 'v layer \<Rightarrow> 'v layer" where
  "copy_pairs src ps dst = fold (\<lambda>(a, b) t. t(b := src a)) ps dst"

definition swap_law :: "'v swap \<Rightarrow> bool" where
  "swap_law swap \<longleftrightarrow> (\<forall>src dst ps. swap src dst ps = copy_pairs src ps dst)"

text \<open>The reference: block \<open>i\<close> of the source list goes to block \<open>i\<close> of the target list.\<close>

definition copy_blocks :: "nat list \<Rightarrow> nat list \<Rightarrow> 'v layer \<Rightarrow> 'v layer \<Rightarrow> 'v layer" where
  "copy_blocks src_blocks dst_blocks src dst = copy_pairs src (zip src_blocks dst_blocks) dst"

definition copy_layers :: "nat \<Rightarrow> nat list \<Rightarrow> nat list \<Rightarrow> 'v cache \<Rightarrow> 'v cache \<Rightarrow> 'v cache" where
  "copy_layers num_layers src_blocks dst_blocks src dst =
     (\<lambda>l. if l < num_layers then copy_blocks src_blocks dst_blocks (src l) (dst l) else dst l)"

text \<open>\<open>range(lo, hi, step)\<close> for a positive step.\<close>

function py_range :: "nat \<Rightarrow> nat \<Rightarrow> nat \<Rightarrow> nat list" where
  "py_range lo hi step = (if lo < hi \<and> step > 0 then lo # py_range (lo + step) hi step else [])"
  by auto
termination by (relation "measure (\<lambda>(lo, hi, step). hi - lo)") auto

declare py_range.simps [simp del]

definition slice :: "nat \<Rightarrow> nat \<Rightarrow> 'a list \<Rightarrow> 'a list" where
  "slice start offset xs = take offset (drop start xs)"

subsection \<open>Remote calls\<close>

text \<open>
  \<open>do_send\<close>: gather the blocks of every layer into the buffer and convert the element type;
  the message carries the number of blocks it holds.
\<close>

definition rpc_do_send ::
  "'v swap \<Rightarrow> ('v \<Rightarrow> 'w) \<Rightarrow> nat \<Rightarrow> 'v cache \<Rightarrow> 'v cache \<Rightarrow> nat list \<Rightarrow> nat \<times> 'w cache" where
  "rpc_do_send swap to_rpc num_layers dummy gpu blocks =
     (let send_cache = fold (\<lambda>l c. c(l := swap (gpu l) (c l) (zip blocks [0..<length blocks]))) [0..<num_layers] dummy
      in (length blocks, \<lambda>l i. to_rpc (send_cache l i)))"

text \<open>\<open>do_recv\<close>: the message must have the shape of the blocks to fill.\<close>

definition rpc_do_recv ::
  "'v swap \<Rightarrow> ('w \<Rightarrow> 'v) \<Rightarrow> nat \<Rightarrow> nat \<times> 'w cache \<Rightarrow> nat list \<Rightarrow> 'v cache \<Rightarrow> 'v cache res" where
  "rpc_do_recv swap of_rpc num_layers msg blocks gpu =
     (if fst msg \<noteq> length blocks then Inl (RuntimeError ''shape'')
      else let recv_cache = (\<lambda>l i. of_rpc (snd msg l i))
           in Inr (fold (\<lambda>l g. g(l := swap (recv_cache l) (g l) (zip [0..<length blocks] blocks))) [0..<num_layers] gpu))"

text \<open>
  The loop over the chunks: the previous chunk is stored while the next one is being sent.
  The state is the message that waits to be stored, with its target blocks, and the cache.
\<close>

fun rpc_loop ::
  "(nat list \<Rightarrow> 'm) \<Rightarrow> ('m \<Rightarrow> nat list \<Rightarrow> 'g \<Rightarrow> 'g res) \<Rightarrow> nat \<Rightarrow> nat list \<Rightarrow> nat list
    \<Rightarrow> nat list \<Rightarrow> ('m \<times> nat list) option \<Rightarrow> 'g \<Rightarrow> 'g res" where
  "rpc_loop send recv b src_blocks dst_blocks [] pending gpu =
     (case pending of None \<Rightarrow> Inl UnboundLocalError | Some (msg, blocks) \<Rightarrow> recv msg blocks gpu)"
| "rpc_loop send recv b src_blocks dst_blocks (start # starts) pending gpu =
     (let offset = min b (length src_blocks - start);
          msg = send (slice start offset src_blocks)
      in res_bind (case pending of None \<Rightarrow> Inr gpu | Some (m, blocks) \<Rightarrow> recv m blocks gpu)
           (rpc_loop send recv b src_blocks dst_blocks starts (Some (msg, slice start offset dst_blocks))))"

definition rpc_migrate_cache ::
  "'v swap \<Rightarrow> ('v \<Rightarrow> 'w) \<Rightarrow> ('w \<Rightarrow> 'v) \<Rightarrow> nat \<Rightarrow> nat \<Rightarrow> 'v cache \<Rightarrow> 'v cache \<Rightarrow> nat list \<Rightarrow> nat list \<Rightarrow> 'v cache \<Rightarrow> 'v cache res" where
  "rpc_migrate_cache swap to_rpc of_rpc num_layers b dummy src src_blocks dst_blocks dst =
     (if b = 0 then Inl ValueError
      else rpc_loop (rpc_do_send swap to_rpc num_layers dummy src) (rpc_do_recv swap of_rpc num_layers)
             b src_blocks dst_blocks (py_range 0 (length src_blocks) b) None dst)"

subsection \<open>The collective channel\<close>

text \<open>
  \<open>do_send\<close> of the collective backend: the buffer holds \<open>m\<close> layers and is sent when it is
  full or after the last layer. The messages are in the order of the channel.
\<close>

fun col_send_layers ::
  "'v swap \<Rightarrow> nat \<Rightarrow> nat \<Rightarrow> 'v cache \<Rightarrow> nat list \<Rightarrow> nat list \<Rightarrow> 'v cache \<Rightarrow> 'v cache list" where
  "col_send_layers swap m num_layers gpu blocks [] buf = []"
| "col_send_layers swap m num_layers gpu blocks (l # ls) buf =
     (let cache_idx = l mod m;
          buf = buf(cache_idx := swap (gpu l) (buf cache_idx) (zip blocks [0..<length blocks]));
          rest = col_send_layers swap m num_layers gpu blocks ls buf
      in if cache_idx + 1 = m \<or> l + 1 = num_layers then buf # rest else rest)"

text \<open>\<open>do_recv\<close>: a message is taken for the first layer of every group.\<close>

fun col_recv_layers ::
  "'v swap \<Rightarrow> nat \<Rightarrow> nat list \<Rightarrow> nat list \<Rightarrow> 'v cache \<Rightarrow> 'v cache list \<Rightarrow> 'v cache \<Rightarrow> ('v cache \<times> 'v cache list) option" where
  "col_recv_layers swap m blocks [] buf msgs gpu = Some (gpu, msgs)"
| "col_recv_layers swap m blocks (l # ls) buf msgs gpu =
     (let cache_idx = l mod m in
      case (if cache_idx = 0 then (case msgs of [] \<Rightarrow> None | x # xs \<Rightarrow> Some (x, xs)) else Some (buf, msgs)) of
        None \<Rightarrow> None
      | Some (buf, msgs) \<Rightarrow>
          col_recv_layers swap m blocks ls buf msgs
            (gpu(l := swap (buf cache_idx) (gpu l) (zip [0..<length blocks] blocks))))"

text \<open>
  The loop of \<open>migrate_cache\<close>. Sending blocks until it is received, so a chunk's messages
  are those of its sender; \<open>None\<close> is a receiver that waits for a message that never comes.
\<close>

fun col_loop ::
  "'v swap \<Rightarrow> nat \<Rightarrow> nat \<Rightarrow> nat \<Rightarrow> 'v cache \<Rightarrow> 'v cache \<Rightarrow> nat list \<Rightarrow> nat list \<Rightarrow> nat list \<Rightarrow> 'v cache \<Rightarrow> 'v cache option" where
  "col_loop swap m num_layers b dummy src src_blocks dst_blocks [] gpu = Some gpu"
| "col_loop swap m num_layers b dummy src src_blocks dst_blocks (start # starts) gpu =
     (let offset = min b (length src_blocks - start);
          msgs = col_send_layers swap m num_layers src (slice start offset src_blocks) [0..<num_layers] dummy
      in case col_recv_layers swap m (slice start offset dst_blocks) [0..<num_layers] dummy msgs gpu of
           None \<Rightarrow> None
         | Some (gpu, msgs) \<Rightarrow>
             if msgs \<noteq> [] then None
             else col_loop swap m num_layers b dummy src src_blocks dst_blocks starts gpu)"

definition col_migrate_cache ::
  "'v swap \<Rightarrow> nat \<Rightarrow> nat \<Rightarrow> nat \<Rightarrow> 'v cache \<Rightarrow> 'v cache \<Rightarrow> nat list \<Rightarrow> nat list \<Rightarrow> 'v cache \<Rightarrow> 'v cache option" where
  "col_migrate_cache swap migration_num_layers num_layers b dummy src src_blocks dst_blocks dst =
     col_loop swap (min migration_num_layers num_layers) num_layers b dummy src src_blocks dst_blocks
       (py_range 0 (length src_blocks) b) dst"

subsection \<open>The transfers are block copies\<close>

lemma py_range_slices:
  "lo \<le> length xs \<Longrightarrow> b > 0 \<Longrightarrow> n = length xs \<Longrightarrow>
   concat (map (\<lambda>s. slice s (min b (n - s)) xs) (py_range lo n b)) = drop lo xs"
proof (induction lo n b rule: py_range.induct)
  case (1 lo n b)
  show ?case
  proof (cases "lo < n")
    case True
    have step: "py_range lo n b = lo # py_range (lo + b) n b" using True 1(3) by (simp add: py_range.simps)
    show ?thesis
    proof (cases "lo + b \<le> n")
      case le: True
      have "slice lo (min b (n - lo)) xs @ drop (lo + b) xs = drop lo xs"
        using le by (simp add: slice_def min_def) (metis add.commute append_take_drop_id drop_drop)
      moreover have "concat (map (\<lambda>s. slice s (min b (n - s)) xs) (py_range (lo + b) n b)) = drop (lo + b) xs"
        using 1 True le by simp
      ultimately show ?thesis unfolding step by simp
    next
      case False
      hence "py_range (lo + b) n b = []" by (simp add: py_range.simps)
      thus ?thesis unfolding step using False 1(4) by (simp add: slice_def min_def)
    qed
  next
    case False
    thus ?thesis using 1 by (simp add: py_range.simps)
  qed
qed

lemma copy_pairs_simps [simp]:
  "copy_pairs src [] dst = dst" "copy_pairs src ((a, b) # ps) dst = copy_pairs src ps (dst(b := src a))"
  "copy_pairs src (ps @ qs) dst = copy_pairs src qs (copy_pairs src ps dst)"
  by (simp_all add: copy_pairs_def)

lemma copy_pairs_outside: "b \<notin> snd ` set ps \<Longrightarrow> copy_pairs src ps dst b = dst b"
  by (induction ps arbitrary: dst) auto

lemma copy_pairs_at:
  "distinct (map snd ps) \<Longrightarrow> (a, b) \<in> set ps \<Longrightarrow> copy_pairs src ps dst b = src a"
  by (induction ps arbitrary: dst) (auto simp: copy_pairs_outside image_iff)

lemma copy_pairs_cong:
  "list_all2 (\<lambda>p q. snd p = snd q \<and> f (fst p) = g (fst q)) ps qs \<Longrightarrow> copy_pairs f ps dst = copy_pairs g qs dst"
  by (induction arbitrary: dst rule: list_all2_induct) auto

lemma gather: "i < length blocks \<Longrightarrow> copy_pairs src (zip blocks [0..<length blocks]) buf i = src (blocks ! i)"
  by (rule copy_pairs_at) (auto simp: set_zip intro!: exI[of _ i])

lemma scatter:
  assumes "length src_blocks = length blocks" "\<forall>i < length blocks. f i = src (src_blocks ! i)"
  shows "copy_pairs f (zip [0..<length blocks] blocks) dst = copy_blocks src_blocks blocks src dst"
  unfolding copy_blocks_def
  by (rule copy_pairs_cong) (use assms in \<open>auto simp: list_all2_conv_all_nth\<close>)

lemma fold_layers:
  "fold (\<lambda>l c. c(l := f l (c l))) [0..<n] c = (\<lambda>l. if l < n then f l (c l) else c l)"
  by (induction n) (auto simp: fun_eq_iff)

lemma rpc_round_trip:
  assumes "swap_law swap" "\<forall>x. of_rpc (to_rpc x) = x" "length src_blocks = length dst_blocks"
  shows "rpc_do_recv swap of_rpc L (rpc_do_send swap to_rpc L dummy src src_blocks) dst_blocks dst
    = Inr (copy_layers L src_blocks dst_blocks src dst)"
proof -
  have swap: "swap a b ps = copy_pairs a ps b" for a b ps using assms(1) by (simp add: swap_law_def)
  have copied: "copy_pairs (copy_pairs (src l) (zip src_blocks [0..<length src_blocks]) (dummy l))
      (zip [0..<length dst_blocks] dst_blocks) (dst l) = copy_blocks src_blocks dst_blocks (src l) (dst l)" for l
    by (rule scatter) (use assms(3) in \<open>simp_all add: gather flip: assms(3)\<close>)
  show ?thesis using assms(2,3)
    unfolding rpc_do_recv_def rpc_do_send_def swap Let_def fst_conv snd_conv
      fold_layers[of "\<lambda>l c. copy_pairs (src l) (zip src_blocks [0..<length src_blocks]) c"]
      fold_layers[of "\<lambda>l g. copy_pairs (\<lambda>i. of_rpc (to_rpc ((if l < L then
        copy_pairs (src l) (zip src_blocks [0..<length src_blocks]) (dummy l) else dummy l) i)))
        (zip [0..<length dst_blocks] dst_blocks) g"]
    by (simp add: copy_layers_def fun_eq_iff flip: copied)
qed

lemma copy_layers_append:
  "length s1 = length d1 \<Longrightarrow>
   copy_layers L s2 d2 src (copy_layers L s1 d1 src dst) = copy_layers L (s1 @ s2) (d1 @ d2) src dst"
  by (simp add: copy_layers_def copy_blocks_def fun_eq_iff)

lemma length_slice_eq: "length xs = length ys \<Longrightarrow> length (slice s n xs) = length (slice s n ys)"
  by (simp add: slice_def)

abbreviation chunks :: "nat \<Rightarrow> nat \<Rightarrow> nat list \<Rightarrow> nat list \<Rightarrow> nat list" where
  "chunks b n starts xs \<equiv> concat (map (\<lambda>s. slice s (min b (n - s)) xs) starts)"

lemma length_chunks: "length xs = length ys \<Longrightarrow> length (chunks b n starts xs) = length (chunks b n starts ys)"
  by (induction starts) (simp_all add: slice_def)

lemma rpc_loop_copies:
  assumes "swap_law swap" "\<forall>x. of_rpc (to_rpc x) = x" "length src_blocks = length dst_blocks" "length ps = length pd"
  shows "rpc_loop (rpc_do_send swap to_rpc L dummy src) (rpc_do_recv swap of_rpc L) b src_blocks dst_blocks starts
      (Some (rpc_do_send swap to_rpc L dummy src ps, pd)) dst
    = Inr (copy_layers L (ps @ chunks b (length src_blocks) starts src_blocks)
             (pd @ chunks b (length src_blocks) starts dst_blocks) src dst)"
  using assms(4)
proof (induction starts arbitrary: ps pd dst)
  case Nil
  thus ?case using rpc_round_trip[where swap = swap and of_rpc = of_rpc and to_rpc = to_rpc, OF assms(1,2)] by simp
next
  case (Cons s starts)
  let ?o = "min b (length src_blocks - s)"
  have len: "length (slice s ?o src_blocks) = length (slice s ?o dst_blocks)" by (rule length_slice_eq[OF assms(3)])
  show ?case
    using Cons.IH[OF len, of "copy_layers L ps pd src dst"] rpc_round_trip[where swap = swap and of_rpc = of_rpc and to_rpc = to_rpc, OF assms(1,2) Cons.prems]
    by (simp add: Let_def copy_layers_append[OF Cons.prems])
qed

lemma chunks_all: "b > 0 \<Longrightarrow> n = length xs \<Longrightarrow> chunks b n (py_range 0 n b) xs = xs"
  by (subst py_range_slices) simp_all

lemma rpc_migrate_cache_copies:
  assumes "swap_law swap" "\<forall>x. of_rpc (to_rpc x) = x" "length src_blocks = length dst_blocks" "src_blocks \<noteq> []" "b > 0"
  shows "rpc_migrate_cache swap to_rpc of_rpc L b dummy src src_blocks dst_blocks dst
    = Inr (copy_layers L src_blocks dst_blocks src dst)"
proof -
  let ?n = "length src_blocks"
  have range: "py_range 0 ?n b = 0 # py_range b ?n b" using assms(4,5) by (simp add: py_range.simps)
  let ?s = "slice 0 (min b ?n) src_blocks" and ?d = "slice 0 (min b ?n) dst_blocks"
  have len: "length ?s = length ?d" by (rule length_slice_eq[OF assms(3)])
  have all: "?s @ chunks b ?n (py_range b ?n b) src_blocks = src_blocks"
    "?d @ chunks b ?n (py_range b ?n b) dst_blocks = dst_blocks"
    using chunks_all[OF assms(5) refl, of src_blocks] chunks_all[OF assms(5) assms(3)] unfolding range by simp_all
  show ?thesis
    using rpc_loop_copies[where swap = swap and of_rpc = of_rpc and to_rpc = to_rpc, OF assms(1-3) len,
        of L dummy src b "py_range b ?n b" dst] assms(5)
    by (simp add: rpc_migrate_cache_def range all Let_def)
qed

subsubsection \<open>Layer groups\<close>

lemma upt_Cons_Suc: "k < L \<Longrightarrow> [k..<L] = k # [Suc k..<L]"
  by (rule upt_conv_Cons)

lemma mod_Suc_group: "0 < m \<Longrightarrow> k mod m + 1 \<noteq> m \<Longrightarrow> Suc k mod m = Suc (k mod m)"
  by (simp add: mod_Suc)

lemma col_send_nonempty:
  "k < L \<Longrightarrow> col_send_layers swap m L gpu blocks [k..<L] buf \<noteq> []"
proof (induction "L - k" arbitrary: k buf)
  case (Suc d)
  show ?case
  proof (cases "Suc k < L")
    case True
    with Suc show ?thesis by (simp add: upt_Cons_Suc Let_def)
  next
    case False
    with Suc have "L = Suc k" by simp
    thus ?thesis by (simp add: upt_Cons_Suc Let_def)
  qed
qed simp

lemma col_send_head:
  "0 < m \<Longrightarrow> k < L \<Longrightarrow> j < k mod m \<Longrightarrow> hd (col_send_layers swap m L gpu blocks [k..<L] buf) j = buf j"
proof (induction "L - k" arbitrary: k buf)
  case (Suc d)
  let ?buf = "buf(k mod m := swap (gpu k) (buf (k mod m)) (zip blocks [0..<length blocks]))"
  show ?case
  proof (cases "k mod m + 1 = m \<or> k + 1 = L")
    case True
    thus ?thesis using Suc.prems by (auto simp: upt_Cons_Suc Let_def)
  next
    case False
    hence nxt: "Suc k mod m = Suc (k mod m)" "Suc k < L" using Suc.prems by (auto simp: mod_Suc_group)
    have "hd (col_send_layers swap m L gpu blocks [Suc k..<L] ?buf) j = ?buf j"
      by (rule Suc.hyps(1)) (use Suc nxt in auto)
    thus ?thesis using Suc.prems False unfolding upt_Cons_Suc[OF Suc.prems(2)] by (simp add: Let_def del: upt_Suc)
  qed
qed simp

text \<open>
  Sender and receiver in lockstep from layer \<open>k\<close> on: at the start of a group the receiver has
  all messages still in the channel, inside a group it holds the group's message already.
\<close>

lemma col_lockstep:
  assumes law: "swap_law swap" and m: "0 < m" and len: "length src_blocks = length dst_blocks"
  shows "k \<le> L \<Longrightarrow> msgs = col_send_layers swap m L src src_blocks [k..<L] buf \<Longrightarrow>
    (if k mod m = 0 \<or> k = L then rmsgs = msgs else rmsgs = tl msgs \<and> rbuf = hd msgs) \<Longrightarrow>
    col_recv_layers swap m dst_blocks [k..<L] rbuf rmsgs dst
      = Some (\<lambda>l. if k \<le> l \<and> l < L then copy_blocks src_blocks dst_blocks (src l) (dst l) else dst l, [])"
proof (induction "L - k" arbitrary: k buf rbuf rmsgs msgs dst)
  case 0
  thus ?case by (auto simp: fun_eq_iff)
next
  case (Suc d)
  have k: "k < L" using Suc by simp
  have swap: "swap a b ps = copy_pairs a ps b" for a b ps using law by (simp add: swap_law_def)
  define buf1 where "buf1 = buf(k mod m := copy_pairs (src k) (zip src_blocks [0..<length src_blocks]) (buf (k mod m)))"
  define later where "later = col_send_layers swap m L src src_blocks [Suc k..<L] buf1"
  define sends where "sends = (k mod m + 1 = m \<or> k + 1 = L)"
  have msgs: "msgs = (if sends then buf1 # later else later)"
    using Suc.prems(2) unfolding upt_Cons_Suc[OF k]
    by (simp add: Let_def swap buf1_def later_def sends_def del: upt_Suc)
  have ne: "msgs \<noteq> []" using col_send_nonempty[OF k] Suc.prems(2) by simp
  have head: "hd msgs (k mod m) = buf1 (k mod m)"
  proof (cases sends)
    case False
    hence "Suc k mod m = Suc (k mod m)" "Suc k < L" using m k by (auto simp: sends_def mod_Suc_group)
    thus ?thesis using False msgs col_send_head[OF m, of "Suc k" L "k mod m"] by (simp add: later_def del: upt_Suc)
  qed (simp add: msgs)
  have taken: "(if k mod m = 0 then (case rmsgs of [] \<Rightarrow> None | x # xs \<Rightarrow> Some (x, xs)) else Some (rbuf, rmsgs))
      = Some (hd msgs, tl msgs)"
    using Suc.prems(3) ne k by (cases msgs) (auto split: if_splits)
  have copied: "copy_pairs (buf1 (k mod m)) (zip [0..<length dst_blocks] dst_blocks) (dst k)
      = copy_blocks src_blocks dst_blocks (src k) (dst k)"
    by (rule scatter) (simp_all add: len buf1_def gather flip: len)
  define dst1 where "dst1 = dst(k := copy_blocks src_blocks dst_blocks (src k) (dst k))"
  have "col_recv_layers swap m dst_blocks [Suc k..<L] (hd msgs) (tl msgs) dst1
      = Some (\<lambda>l. if Suc k \<le> l \<and> l < L then copy_blocks src_blocks dst_blocks (src l) (dst1 l) else dst1 l, [])"
  proof (rule Suc.hyps(1)[OF _ _ later_def])
    show "if Suc k mod m = 0 \<or> Suc k = L then tl msgs = later else tl msgs = tl later \<and> hd msgs = hd later"
      using m k by (auto simp: msgs sends_def mod_Suc later_def split: if_splits)
  qed (use Suc k in auto)
  moreover have "(\<lambda>l. if Suc k \<le> l \<and> l < L then copy_blocks src_blocks dst_blocks (src l) (dst1 l) else dst1 l)
      = (\<lambda>l. if k \<le> l \<and> l < L then copy_blocks src_blocks dst_blocks (src l) (dst l) else dst l)"
    using k by (auto simp: dst1_def fun_eq_iff)
  ultimately show ?case unfolding upt_Cons_Suc[OF k]
    by (simp add: Let_def taken head swap copied dst1_def del: upt_Suc)
qed

lemma col_loop_copies:
  assumes "swap_law swap" "0 < m" "length src_blocks = length dst_blocks"
  shows "col_loop swap m L b dummy src src_blocks dst_blocks starts dst
    = Some (copy_layers L (chunks b (length src_blocks) starts src_blocks) (chunks b (length src_blocks) starts dst_blocks) src dst)"
proof (induction starts arbitrary: dst)
  case Nil
  show ?case by (simp add: copy_layers_def copy_blocks_def fun_eq_iff)
next
  case (Cons s starts)
  let ?o = "min b (length src_blocks - s)"
  let ?s = "slice s ?o src_blocks" and ?d = "slice s ?o dst_blocks"
  have len: "length ?s = length ?d" by (rule length_slice_eq[OF assms(3)])
  have "col_recv_layers swap m ?d [0..<L] dummy (col_send_layers swap m L src ?s [0..<L] dummy) dst
      = Some (copy_layers L ?s ?d src dst, [])"
    using col_lockstep[OF assms(1,2) len, of 0 L _ src dummy _ dummy dst] by (simp add: copy_layers_def)
  thus ?case using Cons.IH[of "copy_layers L ?s ?d src dst"] by (simp add: Let_def copy_layers_append[OF len])
qed

text \<open>
  C5: both transports are block copies. Whatever the size of the staging buffer, the number of
  layers in a group and the old content of the buffers, the chunked and pipelined transfer by
  remote calls and the transfer by layer groups put into every target block, in every layer, the
  content of the source block at the same position, and change nothing else; no message is
  missing or left over.
\<close>

theorem transfer_copies_blocks:
  assumes "swap_law swap" and "\<forall>x. of_rpc (to_rpc x) = x" and "length src_blocks = length dst_blocks"
    and "src_blocks \<noteq> []" and "0 < b" and "0 < migration_num_layers" and "0 < L"
  shows "rpc_migrate_cache swap to_rpc of_rpc L b dummy src src_blocks dst_blocks dst
      = Inr (copy_layers L src_blocks dst_blocks src dst)
    \<and> col_migrate_cache swap migration_num_layers L b dummy src src_blocks dst_blocks dst
      = Some (copy_layers L src_blocks dst_blocks src dst)"
proof
  show "rpc_migrate_cache swap to_rpc of_rpc L b dummy src src_blocks dst_blocks dst
      = Inr (copy_layers L src_blocks dst_blocks src dst)"
    using rpc_migrate_cache_copies[of swap of_rpc to_rpc] assms by blast
  have "0 < min migration_num_layers L" using assms(6,7) by simp
  from col_loop_copies[OF assms(1) this assms(3)]
  show "col_migrate_cache swap migration_num_layers L b dummy src src_blocks dst_blocks dst
      = Some (copy_layers L src_blocks dst_blocks src dst)"
    unfolding col_migrate_cache_def chunks_all[OF assms(5) refl, symmetric]
    using chunks_all[OF assms(5) refl, of src_blocks] chunks_all[OF assms(5) assms(3)] by simp
qed

theorem transfer_copies_blocks_witness:
  "copy_layers 3 [4, 2, 9, 7, 1] [0, 1, 2, 3, 5] (\<lambda>l b. 100 * l + b) (\<lambda>_ _. 0) 2 5 = 201
   \<and> rpc_migrate_cache (\<lambda>a b ps. copy_pairs a ps b) int nat 3 2 (\<lambda>_ _. 77) (\<lambda>l b. 100 * l + b) [4, 2, 9, 7, 1] [0, 1, 2, 3, 5] (\<lambda>_ _. 0)
       = Inr (copy_layers 3 [4, 2, 9, 7, 1] [0, 1, 2, 3, 5] (\<lambda>l b. 100 * l + b) (\<lambda>_ _. 0))
   \<and> col_migrate_cache (\<lambda>a b ps. copy_pairs a ps b) 2 3 2 (\<lambda>_ _. 77) (\<lambda>l b. 100 * l + b) [4, 2, 9, 7, 1] [0, 1, 2, 3, 5] (\<lambda>_ _. 0)
       = Some (copy_layers 3 [4, 2, 9, 7, 1] [0, 1, 2, 3, 5] (\<lambda>l b. 100 * l + b) (\<lambda>_ _. 0))"
proof
  show "copy_layers 3 [4, 2, 9, 7, 1] [0, 1, 2, 3, 5] (\<lambda>l b. 100 * l + b) (\<lambda>_ _. 0) 2 5 = 201"
    by (simp add: copy_layers_def copy_blocks_def)
  show "rpc_migrate_cache (\<lambda>a b ps. copy_pairs a ps b) int nat 3 2 (\<lambda>_ _. 77) (\<lambda>l b. 100 * l + b) [4, 2, 9, 7, 1] [0, 1, 2, 3, 5] (\<lambda>_ _. 0)
       = Inr (copy_layers 3 [4, 2, 9, 7, 1] [0, 1, 2, 3, 5] (\<lambda>l b. 100 * l + b) (\<lambda>_ _. 0))
   \<and> col_migrate_cache (\<lambda>a b ps. copy_pairs a ps b) 2 3 2 (\<lambda>_ _. 77) (\<lambda>l b. 100 * l + b) [4, 2, 9, 7, 1] [0, 1, 2, 3, 5] (\<lambda>_ _. 0)
       = Some (copy_layers 3 [4, 2, 9, 7, 1] [0, 1, 2, 3, 5] (\<lambda>l b. 100 * l + b) (\<lambda>_ _. 0))"
    by (rule transfer_copies_blocks) (simp_all add: swap_law_def)
qed

subsection \<open>The worker\<close>

text \<open>
  \<open>get_migration_backend\<close>: the buffer is cut to the size of the cache, and only three
  transports exist.
\<close>

datatype MigrationBackendKind = RayRpcMigrationBackend | RayColMigrationBackend

definition get_migration_backend :: "string \<Rightarrow> nat \<Rightarrow> nat \<Rightarrow> (MigrationBackendKind \<times> nat) res" where
  "get_migration_backend backend num_gpu_blocks migration_buffer_blocks =
     (let buffer = (if num_gpu_blocks < migration_buffer_blocks then num_gpu_blocks else migration_buffer_blocks)
      in if backend \<notin> {''nccl'', ''rayrpc'', ''gloo''} then Inl AssertionError
         else if backend \<in> {''nccl'', ''gloo''} then Inr (RayColMigrationBackend, buffer)
         else Inr (RayRpcMigrationBackend, buffer))"

text \<open>The group of the collective backend and the ranks of a worker.\<close>

record MigrationWorker =
  wk_instance_id :: string
  wk_rank :: nat
  wk_world_size :: nat
  group_name :: "string option"
  global_world_size :: int
  global_rank :: int

definition col_init_backend :: "bool \<Rightarrow> string \<Rightarrow> int \<Rightarrow> int \<Rightarrow> MigrationWorker \<Rightarrow> bool \<times> MigrationWorker" where
  "col_init_backend timed_out name world_size rnk w =
     (if timed_out then (False, w)
      else (True, w\<lparr>group_name := Some name, global_world_size := world_size, global_rank := rnk\<rparr>))"

definition col_destroy_backend :: "MigrationWorker \<Rightarrow> MigrationWorker" where
  "col_destroy_backend w = w\<lparr>group_name := None\<rparr>"

definition col_warmup :: "bool \<Rightarrow> MigrationWorker \<Rightarrow> bool" where
  "col_warmup failed w \<longleftrightarrow> \<not> (global_world_size w > 1 \<and> failed)"

text \<open>
  \<open>rebuild_migration_backend\<close> of the worker: the old group goes, and with a group name the
  worker joins the new one under its global rank.
\<close>

definition worker_rebuild_migration_backend ::
  "bool \<Rightarrow> (string, nat) dict \<Rightarrow> string option \<Rightarrow> MigrationWorker \<Rightarrow> bool res \<times> MigrationWorker" where
  "worker_rebuild_migration_backend timed_out instance_rank name w =
     (let w = col_destroy_backend w in
      case name of
        None \<Rightarrow> (Inr True, w)
      | Some g \<Rightarrow>
          let w = w\<lparr>global_world_size := int (length instance_rank * wk_world_size w)\<rparr> in
          case dget instance_rank (wk_instance_id w) of
            None \<Rightarrow> (Inl KeyError, w)
          | Some k \<Rightarrow>
              let w = w\<lparr>global_rank := int (wk_rank w + k * wk_world_size w)\<rparr>;
                  (ok, w) = col_init_backend timed_out g (global_world_size w) (global_rank w) w
              in (Inr ok, w))"

text \<open>The worker logs a dead source and returns as if the blocks had arrived.\<close>

definition worker_migrate_cache :: "'v cache res \<Rightarrow> 'v cache \<Rightarrow> unit res \<times> 'v cache" where
  "worker_migrate_cache transfer dst =
     (case transfer of
        Inr dst' \<Rightarrow> (Inr (), dst')
      | Inl e \<Rightarrow> if e = RayActorError then (Inr (), dst) else (Inl e, dst))"

text \<open>Memory for the staging buffer: only the NCCL backend on one worker takes it from the device.\<close>

definition reserve_memory_for_migration ::
  "string \<Rightarrow> nat \<Rightarrow> nat \<Rightarrow> nat \<Rightarrow> nat \<Rightarrow> nat \<Rightarrow> nat \<Rightarrow> rat \<Rightarrow> (nat \<times> rat) res" where
  "reserve_memory_for_migration backend world_size buffer_blocks migration_num_layers block_size_bytes num_layers total_memory utilization =
     (if num_layers = 0 then Inl ZeroDivisionError else
      let dummy_cache_size = migration_num_layers * buffer_blocks * block_size_bytes div num_layers in
      if backend = ''nccl'' \<and> world_size = 1 then
        if total_memory = 0 then Inl ZeroDivisionError else
        let ratio = of_int \<lceil>of_nat dummy_cache_size / of_nat total_memory * 10000\<rceil> / 10000;
            utilization = utilization - ratio
        in if utilization \<le> 0 then Inl ValueError else Inr (dummy_cache_size, utilization)
      else Inr (dummy_cache_size, utilization))"

lemma rank_split:
  fixes r :: nat
  assumes "r < n" "r' < n" "r + k * n = r' + k' * n"
  shows "r = r' \<and> k = k'"
proof -
  have "(r + k * n) mod n = r" "(r' + k' * n) mod n = r'" "(r + k * n) div n = k" "(r' + k' * n) div n = k'"
    using assms(1,2) by simp_all
  with assms(3) show ?thesis by metis
qed

text \<open>
  C33: the ranks of a collective group. When the instances are numbered without repetition from
  zero, workers of the same shape that rebuild their backend get global ranks below the size of
  the group, the same size for all, and different ranks unless they are the same worker of the
  same instance.
\<close>

theorem global_ranks_unique:
  assumes "distinct (dvalues instance_rank)" and "\<forall>k \<in> set (dvalues instance_rank). k < length instance_rank"
    and "wk_rank w < wk_world_size w" and "wk_rank w' < wk_world_size w'" and "wk_world_size w' = wk_world_size w"
    and "worker_rebuild_migration_backend False instance_rank (Some g) w = (Inr True, v)"
    and "worker_rebuild_migration_backend False instance_rank (Some g) w' = (Inr True, v')"
  shows "group_name v = Some g \<and> global_world_size v = global_world_size v'
    \<and> 0 \<le> global_rank v \<and> global_rank v < global_world_size v
    \<and> (global_rank v = global_rank v' \<longrightarrow> wk_instance_id w = wk_instance_id w' \<and> wk_rank w = wk_rank w')"
proof -
  let ?n = "wk_world_size w"
  obtain k where k: "dget instance_rank (wk_instance_id w) = Some k"
      "v = w\<lparr>group_name := Some g, global_world_size := int (length instance_rank * ?n), global_rank := int (wk_rank w + k * ?n)\<rparr>"
    using assms(6) by (auto simp: worker_rebuild_migration_backend_def Let_def col_destroy_backend_def col_init_backend_def split: option.splits)
  obtain k' where k': "dget instance_rank (wk_instance_id w') = Some k'"
      "v' = w'\<lparr>group_name := Some g, global_world_size := int (length instance_rank * ?n), global_rank := int (wk_rank w' + k' * ?n)\<rparr>"
    using assms(5,7) by (auto simp: worker_rebuild_migration_backend_def Let_def col_destroy_backend_def col_init_backend_def split: option.splits)
  have "k < length instance_rank" using dget_in_values[OF k(1)] assms(2) by blast
  hence "(k + 1) * ?n \<le> length instance_rank * ?n" by (intro mult_le_mono1) simp
  hence bound: "wk_rank w + k * ?n < length instance_rank * ?n" using assms(3) by simp
  have "wk_instance_id w = wk_instance_id w' \<and> wk_rank w = wk_rank w'" if "wk_rank w + k * ?n = wk_rank w' + k' * ?n"
  proof -
    have eq: "wk_rank w = wk_rank w'" "k = k'" using rank_split[OF _ _ that] assms(3,4,5) by auto
    have "inj_on snd (set instance_rank)" using assms(1) by (simp add: distinct_map)
    from inj_onD[OF this _ map_of_SomeD[OF k(1)] map_of_SomeD[OF k'(1)]] eq(2)
    have "(wk_instance_id w, k) = (wk_instance_id w', k')" by simp
    thus ?thesis using eq by simp
  qed
  thus ?thesis using bound by (simp add: k(2) k'(2) flip: of_nat_add of_nat_mult)
qed

definition example_worker :: MigrationWorker where
  "example_worker = \<lparr>wk_instance_id = ''a'', wk_rank = 1, wk_world_size = 2, group_name = Some ''old'',
     global_world_size = 4, global_rank = 1\<rparr>"

lemma example_worker_ranks:
  "worker_rebuild_migration_backend False [(''b'', 0), (''a'', 1)] (Some ''g'') example_worker
     = (Inr True, example_worker\<lparr>group_name := Some ''g'', global_rank := 3\<rparr>)"
  "worker_rebuild_migration_backend False [(''b'', 0), (''a'', 1)] (Some ''g'') (example_worker\<lparr>wk_instance_id := ''b''\<rparr>)
     = (Inr True, example_worker\<lparr>wk_instance_id := ''b'', group_name := Some ''g'', global_rank := 1\<rparr>)"
  by (simp_all add: worker_rebuild_migration_backend_def col_destroy_backend_def col_init_backend_def example_worker_def)

theorem global_ranks_unique_witness:
  "global_rank (snd (worker_rebuild_migration_backend False [(''b'', 0), (''a'', 1)] (Some ''g'') example_worker)) < 4
   \<and> global_rank (example_worker\<lparr>group_name := Some ''g'', global_rank := 3\<rparr>) < 4"
  using global_ranks_unique[OF _ _ _ _ _ example_worker_ranks] example_worker_ranks(1)
  by (simp add: example_worker_def)

end
