(* ===== verification/Stage_Migration.thy ===== *)
theory Stage_Migration
  imports Backend_Vllm Cache_Transfer "HOL-Library.Sublist"
begin

text \<open>
  The live migration of a request between two instances
  (\<open>llumlet/migration_coordinator.py\<close>). A running request moves in stages: its complete
  blocks are copied while it goes on running, and in the last stage it is taken out of the
  running queue and the rest is copied. The two instances and their caches are a \<open>World\<close>;
  whatever other tasks do while the coordinator waits is a function on worlds, one for each
  place where it waits, collected in a \<open>stage_env\<close>.
\<close>

datatype MigrationStatus = MIG_RUNNING | ABORTED_DST | ABORTED_SRC | MIG_FINISHED

definition mig_is_finished :: "MigrationStatus \<Rightarrow> bool" where
  "mig_is_finished st \<longleftrightarrow> st \<in> {ABORTED_DST, ABORTED_SRC, MIG_FINISHED}"

record 'p StageCoordinator =
  mg_ops :: "'p block_ops"
  src_config :: SchedulerConfig
  dst_config :: SchedulerConfig
  mg_num_layers :: nat
  migration_last_stage_max_blocks :: nat
  migration_max_stages :: nat

record ('p, 'v) World =
  src :: "'p BackendVLLM"
  dst :: "'p BackendVLLM"
  src_kv :: "'v cache"
  dst_kv :: "'v cache"

record ('p, 'v) stage_env =
  until_removal :: "('p, 'v) World \<Rightarrow> ('p, 'v) World"
  until_answer :: "('p, 'v) World \<Rightarrow> ('p, 'v) World"
  until_pre_alloc :: "('p, 'v) World \<Rightarrow> ('p, 'v) World"
  after_pre_alloc :: "('p, 'v) World \<Rightarrow> ('p, 'v) World"
  until_send :: "('p, 'v) World \<Rightarrow> ('p, 'v) World"
  after_send :: "('p, 'v) World \<Rightarrow> ('p, 'v) World"
  pre_alloc_fails :: "py_error option"
  send_fails :: "py_error option"
  stage_time :: rat

abbreviation obj :: "('p, 'v) World \<Rightarrow> ref \<Rightarrow> SequenceGroupLlumnix" where
  "obj w r \<equiv> objects (sched (src w)) r"

abbreviation upd_src :: "('p SchedulerLlumnix \<Rightarrow> 'p SchedulerLlumnix) \<Rightarrow> ('p, 'v) World \<Rightarrow> ('p, 'v) World" where
  "upd_src f w \<equiv> w\<lparr>src := upd_sched f (src w)\<rparr>"

abbreviation upd_dst :: "('p SchedulerLlumnix \<Rightarrow> 'p SchedulerLlumnix) \<Rightarrow> ('p, 'v) World \<Rightarrow> ('p, 'v) World" where
  "upd_dst f w \<equiv> w\<lparr>dst := upd_sched f (dst w)\<rparr>"

subsection \<open>The destination\<close>

text \<open>A reservation that came out short is released at once.\<close>

definition migrate_in_pre_alloc ::
  "'p block_ops \<Rightarrow> SchedulerConfig \<Rightarrow> string \<Rightarrow> RequestStatus \<Rightarrow> rat \<Rightarrow> nat \<Rightarrow> nat list
    \<Rightarrow> 'p SchedulerLlumnix \<Rightarrow> nat list res \<times> 'p SchedulerLlumnix" where
  "migrate_in_pre_alloc ops cfg rid st arrival block_num token_ids s =
     (let (r, s) = pre_alloc ops cfg rid st arrival block_num token_ids s
      in case r of
           Inl e \<Rightarrow> (Inl e, s)
         | Inr blocks \<Rightarrow>
             (Inr blocks, if length blocks \<noteq> block_num then free_dst_pre_alloc_cache ops (Some rid) s else s))"

text \<open>The remote call; its arguments are read when it is made.\<close>

definition remote_pre_alloc ::
  "'p StageCoordinator \<Rightarrow> ('p, 'v) stage_env \<Rightarrow> ref \<Rightarrow> nat \<Rightarrow> nat list \<Rightarrow> ('p, 'v) World \<Rightarrow> nat list res \<times> ('p, 'v) World" where
  "remote_pre_alloc su e r n tokens w =
     (let req = obj w r; w = until_pre_alloc e w in
      case pre_alloc_fails e of
        Some err \<Rightarrow> (Inl err, w)
      | None \<Rightarrow>
          let (res, s) = migrate_in_pre_alloc (mg_ops su) (dst_config su) (rq_request_id req) (request_status req)
                (arrival_time req) n tokens (sched (dst w))
          in (res, after_pre_alloc e (upd_dst (\<lambda>_. s) w)))"

subsection \<open>The source\<close>

text \<open>Waiting for the step loop to take the request out of the running queue.\<close>

definition await_removal ::
  "('p, 'v) stage_env \<Rightarrow> string \<Rightarrow> ('p, 'v) World \<Rightarrow> bool res \<times> ('p, 'v) World" where
  "await_removal e rid w =
     (let w = until_removal e w;
          w = until_answer e (w\<lparr>src := serve_removals (queue_removal rid (src w))\<rparr>);
          (found, b) = take_removal_answer rid (src w)
      in (found, w\<lparr>src := b\<rparr>))"

text \<open>From the successful reservation to the end of a stage.\<close>

definition transfer_stage ::
  "'p StageCoordinator \<Rightarrow> ('p, 'v) stage_env \<Rightarrow> ref \<Rightarrow> bool \<Rightarrow> nat \<Rightarrow> nat list \<Rightarrow> nat list
    \<Rightarrow> ('p, 'v) World \<Rightarrow> MigrationStatus res \<times> ('p, 'v) World" where
  "transfer_stage su e r is_last n src_blocks dst_blocks w =
     (case should_abort_migration (obj w r) of
        Inl err \<Rightarrow> (Inl err, w)
      | Inr True \<Rightarrow> (Inr ABORTED_SRC, w)
      | Inr False \<Rightarrow>
          let w = upd_src (upd_object r (\<lambda>q. q\<lparr>stage_timestamps := stage_timestamps q @ [stage_time e],
                    stage_num_blocks_list := stage_num_blocks_list q @ [n]\<rparr>)) w;
              w = until_send e w
          in case send_fails e of
               Some err \<Rightarrow> (Inl err, w)
             | None \<Rightarrow>
                 let w = w\<lparr>dst_kv := copy_layers (mg_num_layers su) src_blocks dst_blocks (src_kv w) (dst_kv w)\<rparr>;
                     w = after_send e w
                 in if is_last then (Inr MIG_FINISHED, w)
                    else (case should_abort_migration (obj w r) of
                            Inl err \<Rightarrow> (Inl err, w)
                          | Inr b \<Rightarrow> (Inr (if b then ABORTED_SRC else MIG_RUNNING), w)))"

text \<open>A stage while the request runs: all blocks but the last one, which is being written.\<close>

definition live_stage ::
  "'p StageCoordinator \<Rightarrow> ('p, 'v) stage_env \<Rightarrow> ref \<Rightarrow> nat list \<Rightarrow> nat list \<Rightarrow> ('p, 'v) World \<Rightarrow> MigrationStatus res \<times> ('p, 'v) World" where
  "live_stage su e r incremental_blocks incremental_tokens w =
     (let src_blocks = butlast incremental_blocks;
          tokens = take (length src_blocks * seq_block_size (obj w r)) incremental_tokens;
          stage_block_num = length incremental_blocks - 1;
          (res, w) = remote_pre_alloc su e r stage_block_num tokens w
      in case res of
           Inl err \<Rightarrow> (Inl err, w)
         | Inr dst_blocks \<Rightarrow>
             if length dst_blocks \<noteq> length src_blocks then (Inr ABORTED_DST, w)
             else transfer_stage su e r False stage_block_num src_blocks dst_blocks w)"

text \<open>The last stage: the request stops, and the blocks read before are sent.\<close>

definition last_stage ::
  "'p StageCoordinator \<Rightarrow> ('p, 'v) stage_env \<Rightarrow> ref \<Rightarrow> nat list \<Rightarrow> nat list \<Rightarrow> ('p, 'v) World \<Rightarrow> MigrationStatus res \<times> ('p, 'v) World" where
  "last_stage su e r incremental_blocks incremental_tokens w =
     (let (found, w) = await_removal e (rq_request_id (obj w r)) w in
      case found of
        Inl err \<Rightarrow> (Inl err, w)
      | Inr found \<Rightarrow>
          if \<not> found \<or> request_finished (obj w r) then (Inr ABORTED_SRC, w)
          else let w = upd_src (add_migrating_out_request_last_stage r) w;
                   (res, w) = remote_pre_alloc su e r (length incremental_blocks) incremental_tokens w
               in case res of
                    Inl err \<Rightarrow> (Inl err, w)
                  | Inr dst_blocks \<Rightarrow>
                      if length dst_blocks \<noteq> length incremental_blocks
                      then let (ret, s) = remove_migrating_out_request_last_stage r (add_running_request r (sched (src w)))
                           in (case ret of Inl err \<Rightarrow> Inl err | Inr _ \<Rightarrow> Inr ABORTED_DST, upd_src (\<lambda>_. s) w)
                      else transfer_stage su e r True (length incremental_blocks) incremental_blocks dst_blocks w)"

definition migrate_out_onestage ::
  "'p StageCoordinator \<Rightarrow> ('p, 'v) stage_env \<Rightarrow> ref \<Rightarrow> ('p, 'v) World \<Rightarrow> MigrationStatus res \<times> ('p, 'v) World" where
  "migrate_out_onestage su e r w =
     (let req = obj w r in
      case should_abort_migration req of
        Inl err \<Rightarrow> (Inl err, w)
      | Inr True \<Rightarrow> (Inr ABORTED_SRC, w)
      | Inr False \<Rightarrow>
          (case get_request_incremental_blocks (src_config su) r (sum_list (stage_num_blocks_list req)) (sched (src w)) of
             Inl err \<Rightarrow> (Inl err, w)
           | Inr (blocks, tokens) \<Rightarrow>
               if length blocks \<le> migration_last_stage_max_blocks su \<or> blocking_migration req
               then last_stage su e r blocks tokens w
               else live_stage su e r blocks tokens w))"

text \<open>The stages of one migration; stage \<open>k\<close> runs in the environment \<open>envs k\<close>.\<close>

fun multistage_loop ::
  "'p StageCoordinator \<Rightarrow> (nat \<Rightarrow> ('p, 'v) stage_env) \<Rightarrow> nat \<Rightarrow> nat \<Rightarrow> ref \<Rightarrow> ('p, 'v) World \<Rightarrow> MigrationStatus res \<times> ('p, 'v) World" where
  "multistage_loop su envs k 0 r w = (Inr ABORTED_SRC, w)"
| "multistage_loop su envs k (Suc n) r w =
     (let (res, w) = migrate_out_onestage su (envs k) r w in
      case res of
        Inl err \<Rightarrow> (Inl err, w)
      | Inr st \<Rightarrow> if mig_is_finished st then (Inr st, w) else multistage_loop su envs (k + 1) n r w)"

definition migrate_out_multistage ::
  "'p StageCoordinator \<Rightarrow> (nat \<Rightarrow> ('p, 'v) stage_env) \<Rightarrow> ref \<Rightarrow> ('p, 'v) World \<Rightarrow> MigrationStatus res \<times> ('p, 'v) World" where
  "migrate_out_multistage su envs r w = multistage_loop su envs 0 (migration_max_stages su) r w"

text \<open>A waiting request has nothing to copy: only its blocks are reserved.\<close>

definition migrate_out_waiting_request ::
  "'p StageCoordinator \<Rightarrow> ('p, 'v) stage_env \<Rightarrow> ref \<Rightarrow> ('p, 'v) World \<Rightarrow> MigrationStatus res \<times> ('p, 'v) World" where
  "migrate_out_waiting_request su e r w =
     (let (found, s) = remove_waiting_request (src_config su) (rq_request_id (obj w r)) (sched (src w));
          w = upd_src (\<lambda>_. s) w
      in if \<not> found then (Inr ABORTED_SRC, w)
         else let w = upd_src (add_migrating_out_request_last_stage r) w;
                  (res, w) = remote_pre_alloc su e r (prefill_num_blocks (obj w r)) (seq_token_ids (obj w r)) w
              in case res of
                   Inl err \<Rightarrow> (Inl err, w)
                 | Inr dst_blocks \<Rightarrow>
                     if length dst_blocks \<noteq> prefill_num_blocks (obj w r)
                     then let (ret, s) = remove_migrating_out_request_last_stage r (add_waiting_request r (sched (src w)))
                          in (case ret of Inl err \<Rightarrow> Inl err | Inr _ \<Rightarrow> Inr ABORTED_DST, upd_src (\<lambda>_. s) w)
                     else (Inr MIG_FINISHED, w))"

subsection \<open>What the other tasks may do\<close>

definition src_table :: "('p, 'v) World \<Rightarrow> ref \<Rightarrow> BlockTable option" where
  "src_table w r = dget (block_tables (sched (src w))) (seq_id (obj w r))"

definition dst_table :: "('p, 'v) World \<Rightarrow> string \<Rightarrow> BlockTable option" where
  "dst_table w rid = dget (pre_alloc_cache_dict (sched (dst w))) rid"

text \<open>The table of a sequence has exactly the blocks its tokens need.\<close>

definition table_wf :: "nat \<Rightarrow> BlockTable \<Rightarrow> nat list \<Rightarrow> bool" where
  "table_wf bs bt tokens \<longleftrightarrow> physical_block_ids bt \<noteq> [] \<and> num_full_slots bt \<le> length tokens
     \<and> (length (physical_block_ids bt) - 1) * bs < num_full_slots bt
     \<and> num_full_slots bt \<le> length (physical_block_ids bt) * bs"

definition stopped :: "('p, 'v) World \<Rightarrow> ref \<Rightarrow> bool" where
  "stopped w r \<longleftrightarrow> status_override (obj w r) = Some RUNNING_MIGRATING"

abbreviation same_kv :: "'v cache \<Rightarrow> 'v cache \<Rightarrow> nat list \<Rightarrow> bool" where
  "same_kv c c' blocks \<equiv> \<forall>b \<in> set blocks. \<forall>l. c' l b = c l b"

text \<open>The migrating request is the only one of the running queue with its id.\<close>

definition only_holder :: "'p SchedulerLlumnix \<Rightarrow> ref \<Rightarrow> string \<Rightarrow> bool" where
  "only_holder s r rid \<longleftrightarrow> (\<forall>x \<in> set (running s). req_id s x = rid \<longrightarrow> x = r)"

lemma only_holder_cong:
  "running s' = running s \<Longrightarrow> \<forall>x. req_id s' x = req_id s x \<Longrightarrow> only_holder s' r rid = only_holder s r rid"
  by (simp add: only_holder_def)

text \<open>
  What may happen to the migrating request \<open>r\<close> with id \<open>rid\<close> while the coordinator waits. The
  source engine may append blocks and write the last one, but the blocks before it are
  complete and stay as they are, and a request taken out of the queue is left alone, as is the
  answer to its removal. The
  destination keeps the reservation and does not write into it.
\<close>

definition env_rel :: "('p \<Rightarrow> nat set) \<Rightarrow> nat \<Rightarrow> ref \<Rightarrow> string \<Rightarrow> ('p, 'v) World \<Rightarrow> ('p, 'v) World \<Rightarrow> bool" where
  "env_rel free bs r rid w w' \<longleftrightarrow>
     (\<forall>bt. src_table w r = Some bt \<longrightarrow> (\<exists>bt'. src_table w' r = Some bt'
        \<and> prefix (physical_block_ids bt) (physical_block_ids bt')
        \<and> (table_wf bs bt (seq_token_ids (obj w r)) \<longrightarrow> table_wf bs bt' (seq_token_ids (obj w' r)))
        \<and> same_kv (src_kv w) (src_kv w') (butlast (physical_block_ids bt))
        \<and> (stopped w r \<longrightarrow> bt' = bt \<and> same_kv (src_kv w) (src_kv w') (physical_block_ids bt))))
     \<and> (stopped w' r \<longleftrightarrow> stopped w r)
     \<and> stage_num_blocks_list (obj w' r) = stage_num_blocks_list (obj w r)
     \<and> rq_request_id (obj w' r) = rq_request_id (obj w r) \<and> seq_block_size (obj w' r) = seq_block_size (obj w r)
     \<and> (only_holder (sched (src w)) r rid \<longrightarrow> only_holder (sched (src w')) r rid)
     \<and> dget (remove_running_request_ret (src w')) rid = dget (remove_running_request_ret (src w)) rid
     \<and> dst_table w' rid = dst_table w rid
     \<and> (\<forall>d. dst_table w rid = Some d \<longrightarrow> same_kv (dst_kv w) (dst_kv w') (physical_block_ids d))
     \<and> (blocks_ok free (sched (dst w)) \<longrightarrow> blocks_ok free (sched (dst w')))"

definition env_ok :: "('p \<Rightarrow> nat set) \<Rightarrow> nat \<Rightarrow> ref \<Rightarrow> string \<Rightarrow> (('p, 'v) World \<Rightarrow> ('p, 'v) World) \<Rightarrow> bool" where
  "env_ok free bs r rid f \<longleftrightarrow> (\<forall>w. env_rel free bs r rid w (f w))"

text \<open>No block is appended between reading the blocks of the last stage and the removal.\<close>

definition no_growth :: "ref \<Rightarrow> (('p, 'v) World \<Rightarrow> ('p, 'v) World) \<Rightarrow> bool" where
  "no_growth r f \<longleftrightarrow> (\<forall>w. map_option physical_block_ids (src_table (f w) r) = map_option physical_block_ids (src_table w r))"

definition stage_env_ok :: "('p \<Rightarrow> nat set) \<Rightarrow> nat \<Rightarrow> ref \<Rightarrow> string \<Rightarrow> ('p, 'v) stage_env \<Rightarrow> bool" where
  "stage_env_ok free bs r rid e \<longleftrightarrow> env_ok free bs r rid (until_removal e) \<and> env_ok free bs r rid (until_answer e)
     \<and> env_ok free bs r rid (until_pre_alloc e) \<and> env_ok free bs r rid (after_pre_alloc e)
     \<and> env_ok free bs r rid (until_send e) \<and> env_ok free bs r rid (after_send e) \<and> no_growth r (until_removal e)"

subsection \<open>The invariant of a migration\<close>

text \<open>
  \<open>P\<close> are blocks known to be at the front of the request's table, \<open>d\<close> is the reservation, and
  the first \<open>k\<close> blocks have been copied into it.
\<close>

definition mig_inv ::
  "('p \<Rightarrow> nat set) \<Rightarrow> nat \<Rightarrow> nat \<Rightarrow> ref \<Rightarrow> string \<Rightarrow> nat list \<Rightarrow> nat \<Rightarrow> BlockTable option \<Rightarrow> ('p, 'v) World \<Rightarrow> bool" where
  "mig_inv free bs L r rid P k d w \<longleftrightarrow>
     (\<exists>bt. src_table w r = Some bt \<and> table_wf bs bt (seq_token_ids (obj w r)) \<and> prefix P (physical_block_ids bt)
        \<and> (k < length (physical_block_ids bt) \<or> stopped w r \<and> k \<le> length (physical_block_ids bt))
        \<and> (stopped w r \<longrightarrow> physical_block_ids bt = P)
        \<and> (case d of None \<Rightarrow> k = 0
           | Some d \<Rightarrow> k \<le> length (physical_block_ids d)
               \<and> (\<forall>i < k. \<forall>l < L. dst_kv w l (physical_block_ids d ! i) = src_kv w l (physical_block_ids bt ! i))))
     \<and> dst_table w rid = d \<and> blocks_ok free (sched (dst w))
     \<and> rq_request_id (obj w r) = rid \<and> seq_block_size (obj w r) = bs"

lemma world_frame [simp]:
  "stopped (w\<lparr>dst := b\<rparr>) r \<longleftrightarrow> stopped w r" "src_table (w\<lparr>dst := b\<rparr>) r = src_table w r"
  "stopped (w\<lparr>dst_kv := c\<rparr>) r \<longleftrightarrow> stopped w r" "src_table (w\<lparr>dst_kv := c\<rparr>) r = src_table w r"
  "stopped (w\<lparr>src_kv := c\<rparr>) r \<longleftrightarrow> stopped w r" "src_table (w\<lparr>src_kv := c\<rparr>) r = src_table w r"
  "dst_table (w\<lparr>src_kv := c\<rparr>) rid = dst_table w rid"
  "dst_table (w\<lparr>dst_kv := c\<rparr>) rid = dst_table w rid" "dst_table (w\<lparr>src := b'\<rparr>) rid = dst_table w rid"
  by (simp_all add: stopped_def src_table_def dst_table_def)

lemma nth_butlast_mem: "i < length xs - 1 \<Longrightarrow> xs ! i \<in> set (butlast xs)"
  by (metis length_butlast nth_butlast nth_mem)

lemma mig_inv_env:
  assumes inv: "mig_inv free bs L r rid P k d w" and env: "env_rel free bs r rid w w'"
  shows "mig_inv free bs L r rid P k d w'"
proof -
  obtain bt where bt: "src_table w r = Some bt" "table_wf bs bt (seq_token_ids (obj w r))" "prefix P (physical_block_ids bt)"
      "k < length (physical_block_ids bt) \<or> stopped w r \<and> k \<le> length (physical_block_ids bt)"
      "stopped w r \<longrightarrow> physical_block_ids bt = P"
      "case d of None \<Rightarrow> k = 0
       | Some d \<Rightarrow> k \<le> length (physical_block_ids d)
           \<and> (\<forall>i < k. \<forall>l < L. dst_kv w l (physical_block_ids d ! i) = src_kv w l (physical_block_ids bt ! i))"
    and d: "dst_table w rid = d" "blocks_ok free (sched (dst w))" and ids: "rq_request_id (obj w r) = rid" "seq_block_size (obj w r) = bs"
    using inv unfolding mig_inv_def by blast
  obtain bt' where bt': "src_table w' r = Some bt'" "prefix (physical_block_ids bt) (physical_block_ids bt')"
      "table_wf bs bt' (seq_token_ids (obj w' r))" "same_kv (src_kv w) (src_kv w') (butlast (physical_block_ids bt))"
      "stopped w r \<longrightarrow> bt' = bt \<and> same_kv (src_kv w) (src_kv w') (physical_block_ids bt)"
    using env bt(1,2) unfolding env_rel_def by blast
  have rest: "stopped w' r \<longleftrightarrow> stopped w r" "dst_table w' rid = d" "blocks_ok free (sched (dst w'))"
      "rq_request_id (obj w' r) = rid" "seq_block_size (obj w' r) = bs"
      "\<forall>x. d = Some x \<longrightarrow> same_kv (dst_kv w) (dst_kv w') (physical_block_ids x)"
    using env d ids unfolding env_rel_def by auto
  have len: "length (physical_block_ids bt) \<le> length (physical_block_ids bt')"
    using bt'(2) by (rule prefix_length_le)
  have src: "src_kv w' l (physical_block_ids bt' ! i) = src_kv w l (physical_block_ids bt ! i)" if "i < k" for i l
  proof -
    have i: "i < length (physical_block_ids bt)" using that bt(4) by auto
    hence "physical_block_ids bt' ! i = physical_block_ids bt ! i" using bt'(2) by (auto simp: prefix_def nth_append)
    moreover have "physical_block_ids bt ! i \<in> set (butlast (physical_block_ids bt)) \<or> stopped w r"
      using that bt(4) nth_butlast_mem[of i "physical_block_ids bt"] by linarith
    ultimately show ?thesis using bt'(4,5) i by auto
  qed
  have "case d of None \<Rightarrow> k = 0
       | Some d \<Rightarrow> k \<le> length (physical_block_ids d)
           \<and> (\<forall>i < k. \<forall>l < L. dst_kv w' l (physical_block_ids d ! i) = src_kv w' l (physical_block_ids bt' ! i))"
    using bt(6) src rest(6) by (cases d) (simp, simp add: src)
  moreover have "prefix P (physical_block_ids bt')" using bt(3) bt'(2) by (rule prefix_order.trans)
  moreover have "k < length (physical_block_ids bt') \<or> stopped w' r \<and> k \<le> length (physical_block_ids bt')"
    using bt(4) rest(1) len by auto
  moreover have "stopped w' r \<longrightarrow> physical_block_ids bt' = P" using rest(1) bt(5) bt'(5) by simp
  ultimately show ?thesis unfolding mig_inv_def using bt'(1,3) rest by blast
qed

lemma mig_inv_env_ok:
  "env_ok free bs r rid f \<Longrightarrow> mig_inv free bs L r rid P k d w \<Longrightarrow> mig_inv free bs L r rid P k d (f w)"
  using mig_inv_env by (fastforce simp: env_ok_def)

text \<open>What other tasks leave alone of the migration's bookkeeping.\<close>

lemma env_ok_frame:
  assumes "env_ok free bs r rid f"
  shows "stopped (f w) r \<longleftrightarrow> stopped w r" "stage_num_blocks_list (obj (f w) r) = stage_num_blocks_list (obj w r)"
    "only_holder (sched (src w)) r rid \<Longrightarrow> only_holder (sched (src (f w))) r rid"
    "dget (remove_running_request_ret (src (f w))) rid = dget (remove_running_request_ret (src w)) rid"
  using assms unfolding env_ok_def env_rel_def by blast+

subsection \<open>Reserving blocks\<close>

lemma py_drop_suffix: "py_drop (- int (length ys)) (xs @ ys) = (if ys = [] then xs else ys)"
  by (simp add: py_drop_def)

text \<open>
  A reservation with the right number of blocks extends the table by exactly the blocks it
  returns, all of them taken from the free ones, provided a second reservation finds enough
  free blocks.
\<close>

lemma pre_alloc_extends:
  assumes laws: "allocator_laws ops bs free" and window: "max_block_sliding_window cfg = None"
    and n: "0 < n" and d: "dget (pre_alloc_cache_dict s) rid = d"
    and need: "blocks_needed bs ((case d of None \<Rightarrow> 0 | Some x \<Rightarrow> num_full_slots x) + length ts)
        - (case d of None \<Rightarrow> 0 | Some x \<Rightarrow> length (physical_block_ids x)) = n"
    and room: "d \<noteq> None \<longrightarrow> int n \<le> get_num_free_blocks ops (pool s)"
    and res: "pre_alloc ops cfg rid st arrival n ts s = (Inr new, s')" and len: "length new = n"
  obtains x where "dget (pre_alloc_cache_dict s') rid = Some x"
    "physical_block_ids x = (case d of None \<Rightarrow> [] | Some y \<Rightarrow> physical_block_ids y) @ new"
    "num_full_slots x = (case d of None \<Rightarrow> 0 | Some y \<Rightarrow> num_full_slots y) + length ts"
    "takes_blocks free (pool s) (pool s') new"
proof -
  have "\<not> (st = WAITING_MIGRATING \<and> waiting s \<noteq> [] \<and> arrival_time (objects s (hd (waiting s))) < arrival)"
    using res len n by (auto simp: pre_alloc_def)
  then obtain bt p where bt: "(case d of
        None \<Rightarrow> get_free_blocks ops cfg n ts (pool s)
      | Some b \<Rightarrow> if get_num_free_blocks ops (pool s) \<ge> int n then table_append ops b ts (pool s) else Inr (b, pool s)) = Inr (bt, p)"
      "new = py_drop (- int n) (physical_block_ids bt)"
      "s' = s\<lparr>pool := p, pre_alloc_cache_dict := dset rid bt (pre_alloc_cache_dict s)\<rparr>"
    using res d window unfolding pre_alloc_def Let_def by (auto split: sum.splits)
  have x: "dget (pre_alloc_cache_dict s') rid = Some bt" "pool s' = p" by (simp_all add: bt(3) dict_simps)
  show thesis
  proof (cases d)
    case None
    have "\<not> (watermark_blocks cfg > get_num_free_blocks ops (pool s) - int n)"
      using bt(1,2) None len n by (auto simp: get_free_blocks_def empty_BlockTable_def py_drop_def)
    hence alloc: "table_allocate ops ts (pool s) = Inr (bt, p)" using bt(1) None by (simp add: get_free_blocks_def not_less)
    note facts = allocator_lawsD(4-6)[OF laws alloc]
    have "physical_block_ids bt = new" using py_drop_suffix[of "physical_block_ids bt" "[]"] facts(2) need None n bt(2) by auto
    with facts None x show thesis by (intro that[of bt]) auto
  next
    case (Some y)
    hence app: "table_append ops y ts (pool s) = Inr (bt, p)" using bt(1) room by simp
    obtain zs where zs: "physical_block_ids bt = physical_block_ids y @ zs" "takes_blocks free (pool s) p zs"
        "num_full_slots bt = num_full_slots y + length ts"
        "length zs = blocks_needed bs (num_full_slots y + length ts) - length (physical_block_ids y)"
      using allocator_lawsD(8)[OF laws app] by blast
    have "zs = new" using py_drop_suffix[of zs "physical_block_ids y"] zs(1,4) need Some n bt(2) by auto
    with zs Some x show thesis by (intro that[of bt]) auto
  qed
qed

lemma blocks_needed_mult: "0 < bs \<Longrightarrow> blocks_needed bs (k * bs) = k"
  unfolding blocks_needed_def by (cases bs) (simp_all add: div_mult_self1[of "Suc _", simplified] add.commute)

lemma blocks_needed_range:
  assumes "0 < bs" "(m - 1) * bs < f" "f \<le> m * bs"
  shows "blocks_needed bs f = m"
  unfolding blocks_needed_def
proof (rule div_nat_eqI)
  show "bs * m \<le> f + bs - 1" using assms by (cases m) (auto simp: algebra_simps)
  show "f + bs - 1 < bs * Suc m" using assms by (simp add: algebra_simps)
qed

lemma blocks_ok_distinct:
  assumes "blocks_ok free s" "dget (pre_alloc_cache_dict s) rid = Some x"
  shows "distinct (physical_block_ids x)"
proof -
  have "distinct (dkeys (pre_alloc_cache_dict s))" using assms(1) by (simp add: blocks_ok_def)
  from table_blocks_dpop[OF this assms(2)] have "mset (physical_block_ids x) \<subseteq># owned s" by (simp add: owned_def)
  hence "count (mset (physical_block_ids x)) b \<le> 1" for b
    using assms(1) by (meson blocks_ok_def le_trans mset_subset_eq_count)
  thus ?thesis by (metis count_mset count_mset_0_iff distinct_count_atmost_1 le_antisym nat_less_le less_one not_le)
qed

definition old_blocks :: "BlockTable option \<Rightarrow> nat list" where
  "old_blocks d = (case d of None \<Rightarrow> [] | Some x \<Rightarrow> physical_block_ids x)"

definition old_slots :: "BlockTable option \<Rightarrow> nat" where
  "old_slots d = (case d of None \<Rightarrow> 0 | Some x \<Rightarrow> num_full_slots x)"

definition room_for :: "'p block_ops \<Rightarrow> string \<Rightarrow> nat \<Rightarrow> ('p, 'v) World \<Rightarrow> bool" where
  "room_for ops rid n w \<longleftrightarrow> dst_table w rid \<noteq> None \<longrightarrow> int n \<le> get_num_free_blocks ops (pool (sched (dst w)))"

lemma migrate_in_pre_alloc_full:
  "migrate_in_pre_alloc ops cfg rid st arrival n ts s = (Inr new, s') \<Longrightarrow> length new = n
   \<Longrightarrow> pre_alloc ops cfg rid st arrival n ts s = (Inr new, s')"
  by (auto simp: migrate_in_pre_alloc_def Let_def split: prod.splits sum.splits if_splits)

lemma mig_inv_new_table:
  assumes inv: "mig_inv free bs L r rid P k d w"
    and tab: "dget (pre_alloc_cache_dict s') rid = Some x" "physical_block_ids x = old_blocks d @ new"
    and ok: "blocks_ok free s'"
  shows "mig_inv free bs L r rid P k (Some x) (upd_dst (\<lambda>_. s') w)"
proof -
  let ?w = "upd_dst (\<lambda>_. s') w"
  have same: "src_table ?w r = src_table w r" "stopped ?w r = stopped w r" "dst_table ?w rid = Some x"
    by (simp_all add: dst_table_def tab)
  show ?thesis using inv ok
    unfolding mig_inv_def same by (cases d) (auto simp: tab(2) old_blocks_def nth_append)
qed

lemma remote_pre_alloc_inv:
  assumes laws: "allocator_laws (mg_ops su) bs free" and env: "stage_env_ok free bs r rid e"
    and window: "max_block_sliding_window (dst_config su) = None" and n: "0 < n"
    and inv: "mig_inv free bs L r rid P k d w"
    and need: "blocks_needed bs (old_slots d + length ts) - length (old_blocks d) = n"
    and room: "room_for (mg_ops su) rid n (until_pre_alloc e w)"
    and res: "remote_pre_alloc su e r n ts w = (Inr new, w')" and len: "length new = n"
  obtains x where "mig_inv free bs L r rid P k (Some x) w'" "physical_block_ids x = old_blocks d @ new"
    "num_full_slots x = old_slots d + length ts" "stopped w' r \<longleftrightarrow> stopped w r"
    "stage_num_blocks_list (obj w' r) = stage_num_blocks_list (obj w r)"
    "only_holder (sched (src w)) r rid \<longrightarrow> only_holder (sched (src w')) r rid"
proof -
  have envs: "env_ok free bs r rid (until_pre_alloc e)" "env_ok free bs r rid (after_pre_alloc e)"
    using env by (auto simp: stage_env_ok_def)
  let ?w1 = "until_pre_alloc e w"
  have inv1: "mig_inv free bs L r rid P k d ?w1" using mig_inv_env_ok[OF envs(1) inv] .
  have d: "dget (pre_alloc_cache_dict (sched (dst ?w1))) rid = d" and ok: "blocks_ok free (sched (dst ?w1))"
    and id: "rq_request_id (obj w r) = rid"
    using inv1 inv by (auto simp: mig_inv_def dst_table_def)
  obtain s' where pre: "pre_alloc (mg_ops su) (dst_config su) rid (request_status (obj w r)) (arrival_time (obj w r)) n ts
      (sched (dst ?w1)) = (Inr new, s')" and w': "w' = after_pre_alloc e (upd_dst (\<lambda>_. s') ?w1)"
    using res len migrate_in_pre_alloc_full unfolding remote_pre_alloc_def Let_def id
    by (fastforce split: option.splits prod.splits)
  obtain x where x: "dget (pre_alloc_cache_dict s') rid = Some x" "physical_block_ids x = old_blocks d @ new"
      "num_full_slots x = old_slots d + length ts"
  proof (rule pre_alloc_extends[OF laws window n d _ _ pre len])
    show "blocks_needed bs ((case d of None \<Rightarrow> 0 | Some x \<Rightarrow> num_full_slots x) + length ts)
        - (case d of None \<Rightarrow> 0 | Some x \<Rightarrow> length (physical_block_ids x)) = n"
      using need by (cases d) (simp_all add: old_blocks_def old_slots_def)
    show "d \<noteq> None \<longrightarrow> int n \<le> get_num_free_blocks (mg_ops su) (pool (sched (dst ?w1)))"
      using room by (simp add: room_for_def dst_table_def d)
  qed (simp_all add: old_blocks_def old_slots_def)
  have "blocks_ok free s'" using pre_alloc_blocks_ok[OF laws ok] pre by (metis snd_conv)
  from mig_inv_env_ok[OF envs(2) mig_inv_new_table[OF inv1 x(1,2) this]]
  have "mig_inv free bs L r rid P k (Some x) w'" unfolding w' .
  moreover have "stopped w' r \<longleftrightarrow> stopped w r" "stage_num_blocks_list (obj w' r) = stage_num_blocks_list (obj w r)"
    unfolding w' by (simp_all add: env_ok_frame[OF envs(1)] env_ok_frame[OF envs(2)])
  moreover have "only_holder (sched (src w)) r rid \<longrightarrow> only_holder (sched (src w')) r rid"
    unfolding w' using env_ok_frame(3)[OF envs(1), of w] env_ok_frame(3)[OF envs(2), of "upd_dst (\<lambda>_. s') ?w1"] by simp
  ultimately show thesis using that x(2,3) by blast
qed

subsection \<open>Copying blocks\<close>

lemma copy_layers_at:
  assumes "distinct dst_blocks" "length src_blocks = length dst_blocks" "i < length dst_blocks" "l < L"
  shows "copy_layers L src_blocks dst_blocks s d l (dst_blocks ! i) = s l (src_blocks ! i)"
proof -
  have "(src_blocks ! i, dst_blocks ! i) \<in> set (zip src_blocks dst_blocks)" using assms(2,3) by (auto simp: set_zip)
  thus ?thesis using assms by (simp add: copy_layers_def copy_blocks_def copy_pairs_at)
qed

lemma copy_layers_outside:
  "b \<notin> set dst_blocks \<Longrightarrow> copy_layers L src_blocks dst_blocks s d l b = d l b"
  by (auto simp: copy_layers_def copy_blocks_def intro!: copy_pairs_outside dest: set_zip_rightD)

lemma mig_inv_copy:
  assumes inv: "mig_inv free bs L r rid P k (Some x) w"
    and new: "physical_block_ids x = old @ new" "length old = k" "length new = n"
    and src: "src_blocks = take n (drop k P)" "k + n \<le> length P" "k + n < length P \<or> stopped w r"
  shows "mig_inv free bs L r rid P (k + n) (Some x)
    (w\<lparr>dst_kv := copy_layers L src_blocks new (src_kv w) (dst_kv w)\<rparr>)"
proof -
  obtain bt where bt: "src_table w r = Some bt" "table_wf bs bt (seq_token_ids (obj w r))" "prefix P (physical_block_ids bt)"
      "stopped w r \<longrightarrow> physical_block_ids bt = P"
      "\<forall>i < k. \<forall>l < L. dst_kv w l (physical_block_ids x ! i) = src_kv w l (physical_block_ids bt ! i)"
    and rest: "dst_table w rid = Some x" "blocks_ok free (sched (dst w))" "rq_request_id (obj w r) = rid" "seq_block_size (obj w r) = bs"
    using inv by (auto simp: mig_inv_def)
  have dist: "distinct (old @ new)"
    using blocks_ok_distinct[OF rest(2), of rid x] rest(1) new(1) by (simp add: dst_table_def)
  have nth: "physical_block_ids bt ! i = P ! i" if "i < length P" for i using bt(3) that by (auto simp: prefix_def nth_append)
  have len: "length src_blocks = length new" using src new(3) by simp
  let ?c = "copy_layers L src_blocks new (src_kv w) (dst_kv w)"
  have "?c l (physical_block_ids x ! i) = src_kv w l (physical_block_ids bt ! i)" if "i < k + n" "l < L" for i l
  proof (cases "i < k")
    case True
    hence "physical_block_ids x ! i = old ! i" "old ! i \<in> set old" using new by (simp_all add: nth_append)
    hence "physical_block_ids x ! i \<notin> set new" using dist by auto
    thus ?thesis using bt(5) True that(2) by (simp add: copy_layers_outside)
  next
    case False
    hence i: "i - k < length new" "physical_block_ids x ! i = new ! (i - k)" using new that(1) by (simp_all add: nth_append)
    have "?c l (new ! (i - k)) = src_kv w l (src_blocks ! (i - k))"
      by (rule copy_layers_at) (use dist len i that(2) in auto)
    moreover have "src_blocks ! (i - k) = P ! i" using False that(1) src by simp
    ultimately show ?thesis using i(2) nth[of i] that(1) src(2) by simp
  qed
  moreover have "k + n < length (physical_block_ids bt) \<or> stopped w r \<and> k + n \<le> length (physical_block_ids bt)"
    using src(2,3) prefix_length_le[OF bt(3)] by auto
  ultimately show ?thesis using bt rest new by (simp add: mig_inv_def)
qed

lemma mig_inv_stage_lists:
  assumes "mig_inv free bs L r rid P k d w"
    and "\<forall>q. seq_id (f q) = seq_id q \<and> seq_token_ids (f q) = seq_token_ids q \<and> status_override (f q) = status_override q
       \<and> rq_request_id (f q) = rq_request_id q \<and> seq_block_size (f q) = seq_block_size q"
  shows "mig_inv free bs L r rid P k d (upd_src (upd_object r f) w)"
proof -
  let ?w = "upd_src (upd_object r f) w"
  have same: "src_table ?w r = src_table w r" "stopped ?w r \<longleftrightarrow> stopped w r" "dst_kv ?w = dst_kv w" "src_kv ?w = src_kv w"
      "dst_table ?w rid = dst_table w rid" "dst ?w = dst w"
    using assms(2) by (simp_all add: src_table_def stopped_def)
  show ?thesis using assms unfolding mig_inv_def same by simp
qed

lemma transfer_stage_inv:
  assumes env: "stage_env_ok free bs r rid e"
    and inv: "mig_inv free bs (mg_num_layers su) r rid P k (Some x) w"
    and new: "physical_block_ids x = old @ new" "length old = k" "length new = n"
    and src: "src_blocks = take n (drop k P)" "k + n \<le> length P" "k + n < length P \<or> stopped w r"
    and res: "transfer_stage su e r is_last n src_blocks new w = (Inr st, w')" and st: "st \<in> {MIG_RUNNING, MIG_FINISHED}"
  shows "mig_inv free bs (mg_num_layers su) r rid P (k + n) (Some x) w'
    \<and> (stopped w' r \<longleftrightarrow> stopped w r)
    \<and> stage_num_blocks_list (obj w' r) = stage_num_blocks_list (obj w r) @ [n]
    \<and> (only_holder (sched (src w)) r rid \<longrightarrow> only_holder (sched (src w')) r rid)
    \<and> (st = MIG_FINISHED \<longleftrightarrow> is_last)"
proof -
  have envs: "env_ok free bs r rid (until_send e)" "env_ok free bs r rid (after_send e)"
    using env by (auto simp: stage_env_ok_def)
  define w1 where "w1 = upd_src (upd_object r (\<lambda>q. q\<lparr>stage_timestamps := stage_timestamps q @ [stage_time e],
                    stage_num_blocks_list := stage_num_blocks_list q @ [n]\<rparr>)) w"
  define w2 where "w2 = until_send e w1"
  define w3 where "w3 = w2\<lparr>dst_kv := copy_layers (mg_num_layers su) src_blocks new (src_kv w2) (dst_kv w2)\<rparr>"
  have w': "w' = after_send e w3" and last: "st = MIG_FINISHED \<longleftrightarrow> is_last"
    using res st unfolding transfer_stage_def Let_def
    by (auto simp: w1_def w2_def w3_def split: sum.splits bool.splits option.splits if_splits)
  have inv1: "mig_inv free bs (mg_num_layers su) r rid P k (Some x) w1"
    unfolding w1_def by (rule mig_inv_stage_lists[OF inv]) simp
  have inv2: "mig_inv free bs (mg_num_layers su) r rid P k (Some x) w2"
    unfolding w2_def by (rule mig_inv_env_ok[OF envs(1) inv1])
  have stop: "stopped w2 r \<longleftrightarrow> stopped w r" unfolding w2_def by (simp add: env_ok_frame[OF envs(1)]) (simp add: w1_def stopped_def)
  have inv3: "mig_inv free bs (mg_num_layers su) r rid P (k + n) (Some x) w3"
    unfolding w3_def by (rule mig_inv_copy[OF inv2 new src(1,2)]) (use src(3) stop in simp)
  have "stage_num_blocks_list (obj w' r) = stage_num_blocks_list (obj w1 r)"
    unfolding w' w3_def w2_def by (simp add: env_ok_frame(2)[OF envs(1)] env_ok_frame(2)[OF envs(2)])
  hence "stage_num_blocks_list (obj w' r) = stage_num_blocks_list (obj w r) @ [n]" by (simp add: w1_def)
  moreover have "stopped w' r \<longleftrightarrow> stopped w r" unfolding w' w3_def by (simp add: env_ok_frame(1)[OF envs(2)] stop)
  moreover have "only_holder (sched (src w')) r rid" if "only_holder (sched (src w)) r rid"
  proof -
    have "only_holder (sched (src w1)) r rid"
      using only_holder_cong[of "sched (src w1)" "sched (src w)" r rid] that by (simp add: w1_def)
    from env_ok_frame(3)[OF envs(1) this] have "only_holder (sched (src w3)) r rid" by (simp add: w3_def w2_def)
    from env_ok_frame(3)[OF envs(2) this] show ?thesis unfolding w' .
  qed
  ultimately show ?thesis using mig_inv_env_ok[OF envs(2) inv3] last unfolding w' by simp
qed

subsection \<open>One stage\<close>

definition synced :: "('p \<Rightarrow> nat set) \<Rightarrow> nat \<Rightarrow> nat \<Rightarrow> ref \<Rightarrow> string \<Rightarrow> nat \<Rightarrow> ('p, 'v) World \<Rightarrow> bool" where
  "synced free bs L r rid k w \<longleftrightarrow> \<not> stopped w r \<and> sum_list (stage_num_blocks_list (obj w r)) = k
     \<and> only_holder (sched (src w)) r rid
     \<and> (\<exists>d. mig_inv free bs L r rid [] k d w \<and> length (old_blocks d) = k \<and> old_slots d = k * bs)"

definition cache_copied :: "nat \<Rightarrow> ref \<Rightarrow> string \<Rightarrow> ('p, 'v) World \<Rightarrow> bool" where
  "cache_copied L r rid w \<longleftrightarrow> (\<exists>bt x. src_table w r = Some bt \<and> dst_table w rid = Some x
     \<and> length (physical_block_ids x) = length (physical_block_ids bt)
     \<and> (\<forall>i < length (physical_block_ids bt). \<forall>l < L.
          dst_kv w l (physical_block_ids x ! i) = src_kv w l (physical_block_ids bt ! i)))"

text \<open>The request has stopped and its cache is at the destination.\<close>

definition ready_to_commit :: "nat \<Rightarrow> ref \<Rightarrow> string \<Rightarrow> ('p, 'v) World \<Rightarrow> bool" where
  "ready_to_commit L r rid w \<longleftrightarrow> cache_copied L r rid w \<and> stopped w r \<and> rq_request_id (obj w r) = rid"

text \<open>Where a stage reserves blocks, the destination has enough of them.\<close>

definition is_last_stage :: "'p StageCoordinator \<Rightarrow> SequenceGroupLlumnix \<Rightarrow> nat list \<Rightarrow> bool" where
  "is_last_stage su req blocks \<longleftrightarrow> length blocks \<le> migration_last_stage_max_blocks su \<or> blocking_migration req"

definition stage_room :: "'p StageCoordinator \<Rightarrow> ('p, 'v) stage_env \<Rightarrow> ref \<Rightarrow> ('p, 'v) World \<Rightarrow> bool" where
  "stage_room su e r w =
     (let req = obj w r; rid = rq_request_id req in
      case src_table w r of
        None \<Rightarrow> True
      | Some bt \<Rightarrow>
          let blocks = drop (sum_list (stage_num_blocks_list req)) (physical_block_ids bt) in
          if is_last_stage su req blocks
          then room_for (mg_ops su) rid (length blocks)
                 (until_pre_alloc e (upd_src (add_migrating_out_request_last_stage r) (snd (await_removal e rid w))))
          else room_for (mg_ops su) rid (length blocks - 1) (until_pre_alloc e w))"

fun stages_room :: "'p StageCoordinator \<Rightarrow> (nat \<Rightarrow> ('p, 'v) stage_env) \<Rightarrow> nat \<Rightarrow> nat \<Rightarrow> ref \<Rightarrow> ('p, 'v) World \<Rightarrow> bool" where
  "stages_room su envs k 0 r w = True"
| "stages_room su envs k (Suc n) r w =
     (stage_room su (envs k) r w
      \<and> (case migrate_out_onestage su (envs k) r w of
           (Inr MIG_RUNNING, w') \<Rightarrow> stages_room su envs (k + 1) n r w'
         | _ \<Rightarrow> True))"

lemma mig_inv_table:
  assumes "mig_inv free bs L r rid P k d w" "\<not> stopped w r" "src_table w r = Some bt"
  shows "mig_inv free bs L r rid (physical_block_ids bt) k d w"
  using assms by (auto simp: mig_inv_def)

lemma mig_inv_forget: "mig_inv free bs L r rid P k d w \<Longrightarrow> \<not> stopped w r \<Longrightarrow> mig_inv free bs L r rid [] k d w"
  by (auto simp: mig_inv_def)

lemma synced_table:
  assumes "synced free bs L r rid k w"
  obtains bt d where "src_table w r = Some bt" "table_wf bs bt (seq_token_ids (obj w r))"
    "mig_inv free bs L r rid (physical_block_ids bt) k d w" "length (old_blocks d) = k" "old_slots d = k * bs"
    "k < length (physical_block_ids bt)" "rq_request_id (obj w r) = rid" "seq_block_size (obj w r) = bs"
proof -
  obtain d where d: "mig_inv free bs L r rid [] k d w" "length (old_blocks d) = k" "old_slots d = k * bs" "\<not> stopped w r"
    using assms by (auto simp: synced_def)
  then obtain bt where bt: "src_table w r = Some bt" "table_wf bs bt (seq_token_ids (obj w r))"
      "k < length (physical_block_ids bt)" "rq_request_id (obj w r) = rid" "seq_block_size (obj w r) = bs"
    by (auto simp: mig_inv_def)
  with that[OF bt(1,2) mig_inv_table[OF d(1,4) bt(1)] d(2,3)] show thesis by simp
qed

lemma incremental_blocks:
  assumes "src_table w r = Some bt"
  shows "get_request_incremental_blocks cfg r k (sched (src w))
    = Inr (drop k (physical_block_ids bt), drop (k * cfg_block_size cfg) (take (num_full_slots bt) (seq_token_ids (obj w r))))"
  using assms by (simp add: get_request_incremental_blocks_def src_table_def Let_def)

lemma live_stage_inv:
  assumes laws: "allocator_laws (mg_ops su) bs free" and env: "stage_env_ok free bs r rid e"
    and window: "max_block_sliding_window (dst_config su) = None"
    and sync: "synced free bs (mg_num_layers su) r rid k w" and bt: "src_table w r = Some bt"
    and two: "2 \<le> length (drop k (physical_block_ids bt))"
    and room: "room_for (mg_ops su) rid (length (drop k (physical_block_ids bt)) - 1) (until_pre_alloc e w)"
    and res: "live_stage su e r (drop k (physical_block_ids bt))
      (drop (k * bs) (take (num_full_slots bt) (seq_token_ids (obj w r)))) w = (Inr st, w')"
    and st: "st \<in> {MIG_RUNNING, MIG_FINISHED}"
  shows "st = MIG_RUNNING \<and> (\<exists>k'. synced free bs (mg_num_layers su) r rid k' w')"
proof -
  let ?S = "physical_block_ids bt" and ?ids = "seq_token_ids (obj w r)"
  obtain d where wf: "table_wf bs bt ?ids" and inv: "mig_inv free bs (mg_num_layers su) r rid ?S k d w"
      and d: "length (old_blocks d) = k" "old_slots d = k * bs" and bs: "seq_block_size (obj w r) = bs"
    using synced_table[OF sync] bt by (metis option.inject)
  define n where "n = length ?S - k - 1"
  have n: "0 < n" "k + n = length ?S - 1" "length (drop k ?S) - 1 = n" using two by (auto simp: n_def)
  have srcs: "butlast (drop k ?S) = take n (drop k ?S)" by (simp add: butlast_conv_take n_def)
  define ts where "ts = take (n * bs) (drop (k * bs) (take (num_full_slots bt) ?ids))"
  have "(k + n) * bs \<le> num_full_slots bt" "num_full_slots bt \<le> length ?ids" using wf by (auto simp: table_wf_def n(2))
  hence ts: "length ts = n * bs" by (simp add: ts_def algebra_simps)
  have lenn: "length (butlast (drop k ?S)) = n" by (simp add: n_def)
  obtain new w1 where pre: "remote_pre_alloc su e r n ts w = (Inr new, w1)" "length new = n"
      and tr: "transfer_stage su e r False n (take n (drop k ?S)) new w1 = (Inr st, w')"
    using res st unfolding live_stage_def Let_def lenn bs n(3) srcs[symmetric] ts_def[symmetric]
    by (auto split: prod.splits sum.splits if_splits)
  have need: "blocks_needed bs (old_slots d + length ts) - length (old_blocks d) = n"
    using blocks_needed_mult[OF allocator_lawsD(1)[OF laws], of "k + n"] by (simp add: d ts algebra_simps)
  obtain x where x: "mig_inv free bs (mg_num_layers su) r rid ?S k (Some x) w1" "physical_block_ids x = old_blocks d @ new"
      "num_full_slots x = old_slots d + length ts" "stopped w1 r \<longleftrightarrow> stopped w r"
      "stage_num_blocks_list (obj w1 r) = stage_num_blocks_list (obj w r)"
      "only_holder (sched (src w)) r rid \<longrightarrow> only_holder (sched (src w1)) r rid"
    using remote_pre_alloc_inv[OF laws env window n(1) inv need _ pre] room n(3) by auto
  have fit: "k + n \<le> length ?S" "k + n < length ?S" using n by auto
  have w: "\<not> stopped w r" "sum_list (stage_num_blocks_list (obj w r)) = k" "only_holder (sched (src w)) r rid"
    using sync by (auto simp: synced_def)
  from transfer_stage_inv[OF env x(1,2) d(1) pre(2) refl fit(1) _ tr st] fit(2)
  have fin: "mig_inv free bs (mg_num_layers su) r rid ?S (k + n) (Some x) w'" "\<not> stopped w' r"
    "stage_num_blocks_list (obj w' r) = stage_num_blocks_list (obj w r) @ [n]" "st \<noteq> MIG_FINISHED"
    "only_holder (sched (src w')) r rid" using x(4-6) w by auto
  have "synced free bs (mg_num_layers su) r rid (k + n) w'" unfolding synced_def
    by (intro conjI exI[of _ "Some x"] mig_inv_forget[OF fin(1,2)])
      (use fin w x(2,3) d pre(2) ts in \<open>simp_all add: old_blocks_def old_slots_def algebra_simps\<close>)
  thus ?thesis using st fin(4) by auto
qed

subsection \<open>The last stage\<close>

text \<open>Serving removals changes queues and statuses only.\<close>

definition same_request :: "SequenceGroupLlumnix \<Rightarrow> SequenceGroupLlumnix \<Rightarrow> bool" where
  "same_request q q' \<longleftrightarrow> seq_id q' = seq_id q \<and> seq_token_ids q' = seq_token_ids q \<and> rq_request_id q' = rq_request_id q
     \<and> seq_block_size q' = seq_block_size q \<and> stage_num_blocks_list q' = stage_num_blocks_list q"

lemma same_request_refl [simp]: "same_request q q"
  by (simp add: same_request_def)

lemma serve_removal_frame:
  "same_request (objects (sched b) x) (objects (sched (serve_removal rid b)) x)
   \<and> block_tables (sched (serve_removal rid b)) = block_tables (sched b)
   \<and> set (running (sched (serve_removal rid b))) \<subseteq> set (running (sched b))"
proof (cases rule: remove_running_cases[of "sched b" rid])
  case absent
  thus ?thesis by (simp add: serve_removal_def)
next
  case (present r)
  thus ?thesis using set_remove1_subset[of r "running (sched b)"]
    by (auto simp: serve_removal_def same_request_def set_status_def)
qed

lemma serve_fold_frame:
  "same_request (objects (sched b) x) (objects (sched (fold serve_removal rids b)) x)
   \<and> block_tables (sched (fold serve_removal rids b)) = block_tables (sched b)
   \<and> set (running (sched (fold serve_removal rids b))) \<subseteq> set (running (sched b))"
proof (induction rids arbitrary: b)
  case (Cons rid rids)
  show ?case using Cons[of "serve_removal rid b"] serve_removal_frame[of b x rid]
    by (auto simp: same_request_def)
qed simp

lemma serve_removals_last:
  "serve_removals (queue_removal rid b)
   = serve_removal rid (fold serve_removal (step_done_event_queue b) (b\<lparr>step_done_event_queue := []\<rparr>))"
  by (simp add: serve_removals_def queue_removal_def)

lemma served_frame:
  "same_request (objects (sched b) x) (objects (sched (serve_removals (queue_removal rid b))) x)"
  "block_tables (sched (serve_removals (queue_removal rid b))) = block_tables (sched b)"
  using serve_removal_frame[of "fold serve_removal (step_done_event_queue b) (b\<lparr>step_done_event_queue := []\<rparr>)" x rid]
    serve_fold_frame[of "b\<lparr>step_done_event_queue := []\<rparr>" x "step_done_event_queue b"]
  by (auto simp: serve_removals_last same_request_def)

lemma served_stops:
  assumes holder: "only_holder (sched b) r rid"
    and found: "dget (remove_running_request_ret (serve_removals (queue_removal rid b))) rid = Some True"
  shows "status_override (objects (sched (serve_removals (queue_removal rid b))) r) = Some RUNNING_MIGRATING"
proof -
  define c where "c = fold serve_removal (step_done_event_queue b) (b\<lparr>step_done_event_queue := []\<rparr>)"
  have found': "fst (remove_running_request rid (sched c))"
    using found unfolding serve_removals_last c_def[symmetric] by (simp add: serve_removal_def case_prod_beta dict_simps)
  show ?thesis
  proof (cases rule: remove_running_cases[of "sched c" rid])
    case absent
    thus ?thesis using found' by simp
  next
    case (present x)
    have "x \<in> set (running (sched b))" "req_id (sched b) x = rid"
      using present(1,2) serve_fold_frame[of "b\<lparr>step_done_event_queue := []\<rparr>" x "step_done_event_queue b"]
      by (auto simp: c_def same_request_def)
    hence "x = r" using holder by (simp add: only_holder_def)
    thus ?thesis unfolding serve_removals_last c_def[symmetric] using present(3) by (simp add: serve_removal_def set_status_def)
  qed
qed

lemma mig_inv_served:
  assumes inv: "mig_inv free bs L r rid P k d w" and whole: "map_option physical_block_ids (src_table w r) = Some P"
    and "\<not> stopped w r"
  shows "mig_inv free bs L r rid P k d (w\<lparr>src := serve_removals (queue_removal rid (src w))\<rparr>)"
    and "src_table (w\<lparr>src := serve_removals (queue_removal rid (src w))\<rparr>) r = src_table w r"
proof -
  let ?w = "w\<lparr>src := serve_removals (queue_removal rid (src w))\<rparr>"
  have req: "same_request (obj w r) (obj ?w r)" using served_frame(1) by simp
  show table: "src_table ?w r = src_table w r" using req by (simp add: src_table_def served_frame(2) same_request_def)
  have same: "dst_kv ?w = dst_kv w" "src_kv ?w = src_kv w" "dst_table ?w rid = dst_table w rid" "dst ?w = dst w"
      "seq_token_ids (obj ?w r) = seq_token_ids (obj w r)" "rq_request_id (obj ?w r) = rq_request_id (obj w r)"
      "seq_block_size (obj ?w r) = seq_block_size (obj w r)"
    using req by (simp_all add: same_request_def)
  obtain bt where bt: "src_table w r = Some bt" "physical_block_ids bt = P" using whole by auto
  show "mig_inv free bs L r rid P k d ?w"
    using inv bt assms(3) unfolding mig_inv_def table same by auto
qed

lemma await_removal_inv:
  assumes env: "stage_env_ok free bs r rid e" and inv: "mig_inv free bs L r rid (physical_block_ids bt) k d w"
    and run: "\<not> stopped w r" "only_holder (sched (src w)) r rid" and bt: "src_table w r = Some bt"
    and res: "await_removal e rid w = (Inr True, w')"
  shows "mig_inv free bs L r rid (physical_block_ids bt) k d w' \<and> stopped w' r
    \<and> stage_num_blocks_list (obj w' r) = stage_num_blocks_list (obj w r)"
proof -
  have envs: "env_ok free bs r rid (until_removal e)" "env_ok free bs r rid (until_answer e)" "no_growth r (until_removal e)"
    using env by (auto simp: stage_env_ok_def)
  define w1 where "w1 = until_removal e w"
  define w2 where "w2 = w1\<lparr>src := serve_removals (queue_removal rid (src w1))\<rparr>"
  define w3 where "w3 = until_answer e w2"
  have w': "take_removal_answer rid (src w3) = (Inr True, src w')" "w' = w3\<lparr>src := src w'\<rparr>"
    using res by (auto simp: await_removal_def w1_def w2_def w3_def Let_def split: prod.splits)
  have inv1: "mig_inv free bs L r rid (physical_block_ids bt) k d w1"
    unfolding w1_def by (rule mig_inv_env_ok[OF envs(1) inv])
  have run1: "\<not> stopped w1 r" "only_holder (sched (src w1)) r rid"
    using run by (simp_all add: w1_def env_ok_frame(1,3)[OF envs(1)])
  have whole: "map_option physical_block_ids (src_table w1 r) = Some (physical_block_ids bt)"
    using envs(3) bt by (simp add: no_growth_def w1_def)
  have inv3: "mig_inv free bs L r rid (physical_block_ids bt) k d w3"
    unfolding w3_def w2_def by (rule mig_inv_env_ok[OF envs(2) mig_inv_served(1)[OF inv1 whole run1(1)]])
  have "dget (remove_running_request_ret (src w3)) rid = Some True"
    using w'(1) by (auto simp: take_removal_answer_def split: option.splits)
  hence "dget (remove_running_request_ret (src w2)) rid = Some True" by (simp add: w3_def env_ok_frame(4)[OF envs(2)])
  hence "stopped w2 r" using served_stops[OF run1(2)] by (simp add: w2_def stopped_def)
  hence stop: "stopped w3 r" by (simp add: w3_def env_ok_frame(1)[OF envs(2)])
  have sched: "sched (src w') = sched (src w3)"
    using w'(1) by (auto simp: take_removal_answer_def split: option.splits dest!: sym[of _ "src w'"])
  have same: "src_table w' r = src_table w3 r" "dst_table w' rid = dst_table w3 rid" "dst w' = dst w3"
      "src_kv w' = src_kv w3" "dst_kv w' = dst_kv w3" "stopped w' r \<longleftrightarrow> stopped w3 r"
    using w'(2) sched by (metis src_table_def, metis dst_table_def World.surjective World.select_convs(2) World.update_convs(1),
      metis World.surjective World.select_convs(2) World.update_convs(1),
      metis World.surjective World.select_convs(3) World.update_convs(1),
      metis World.surjective World.select_convs(4) World.update_convs(1), metis stopped_def)
  have "stage_num_blocks_list (obj w3 r) = stage_num_blocks_list (obj w r)"
    using served_frame(1)[of "src w1" r rid]
    by (simp add: w3_def env_ok_frame(2)[OF envs(2)] w2_def same_request_def) (simp add: w1_def env_ok_frame(2)[OF envs(1)])
  moreover have "mig_inv free bs L r rid (physical_block_ids bt) k d w'"
    using inv3 unfolding mig_inv_def same sched by simp
  ultimately show ?thesis using stop sched by (simp add: same)
qed

lemma last_stage_inv:
  assumes laws: "allocator_laws (mg_ops su) bs free" and env: "stage_env_ok free bs r rid e"
    and window: "max_block_sliding_window (dst_config su) = None"
    and sync: "synced free bs (mg_num_layers su) r rid k w" and bt: "src_table w r = Some bt"
    and room: "room_for (mg_ops su) rid (length (drop k (physical_block_ids bt)))
      (until_pre_alloc e (upd_src (add_migrating_out_request_last_stage r) (snd (await_removal e rid w))))"
    and res: "last_stage su e r (drop k (physical_block_ids bt))
      (drop (k * bs) (take (num_full_slots bt) (seq_token_ids (obj w r)))) w = (Inr st, w')"
    and st: "st \<in> {MIG_RUNNING, MIG_FINISHED}"
  shows "st = MIG_FINISHED \<and> ready_to_commit (mg_num_layers su) r rid w'"
proof -
  let ?S = "physical_block_ids bt" and ?ids = "seq_token_ids (obj w r)"
  obtain d where wf: "table_wf bs bt ?ids" and inv: "mig_inv free bs (mg_num_layers su) r rid ?S k d w"
      and d: "length (old_blocks d) = k" "old_slots d = k * bs" and k: "k < length ?S" and id: "rq_request_id (obj w r) = rid"
    using synced_table[OF sync] bt by (metis option.inject)
  define n where "n = length ?S - k"
  have n: "0 < n" "k + n = length ?S" "length (drop k ?S) = n" using k by (auto simp: n_def)
  define ts where "ts = drop (k * bs) (take (num_full_slots bt) ?ids)"
  obtain w1 where rem: "await_removal e rid w = (Inr True, w1)"
      and rest: "(case remote_pre_alloc su e r n ts (upd_src (add_migrating_out_request_last_stage r) w1) of (res, w) \<Rightarrow>
        case res of Inl err \<Rightarrow> (Inl err, w)
        | Inr dst_blocks \<Rightarrow>
            if length dst_blocks \<noteq> n
            then let (ret, s) = remove_migrating_out_request_last_stage r (add_running_request r (sched (src w)))
                 in (case ret of Inl err \<Rightarrow> Inl err | Inr _ \<Rightarrow> Inr ABORTED_DST, upd_src (\<lambda>_. s) w)
            else transfer_stage su e r True n (drop k ?S) dst_blocks w) = (Inr st, w')"
    using res st unfolding last_stage_def Let_def id n(3) ts_def[symmetric]
    by (auto split: prod.splits sum.splits if_splits)
  define w2 where "w2 = upd_src (add_migrating_out_request_last_stage r) w1"
  obtain new w3 where pre: "remote_pre_alloc su e r n ts w2 = (Inr new, w3)" "length new = n"
      and tr: "transfer_stage su e r True n (drop k ?S) new w3 = (Inr st, w')"
    using rest st unfolding w2_def[symmetric] by (auto simp: Let_def split: prod.splits sum.splits if_splits)
  have run: "\<not> stopped w r" "only_holder (sched (src w)) r rid" using sync by (auto simp: synced_def)
  note rm = await_removal_inv[OF env inv run bt rem]
  have same: "src_table w2 r = src_table w1 r" "stopped w2 r \<longleftrightarrow> stopped w1 r" "obj w2 r = obj w1 r"
      "dst_kv w2 = dst_kv w1" "src_kv w2 = src_kv w1" "dst_table w2 rid = dst_table w1 rid" "dst w2 = dst w1"
    by (simp_all add: w2_def src_table_def stopped_def add_migrating_out_request_last_stage_def)
  have inv2: "mig_inv free bs (mg_num_layers su) r rid ?S k d w2"
    using conjunct1[OF rm] unfolding mig_inv_def same .
  have full: "(length ?S - 1) * bs < num_full_slots bt" "num_full_slots bt \<le> length ?S * bs" "num_full_slots bt \<le> length ?ids"
    using wf by (auto simp: table_wf_def)
  have "k * bs \<le> (length ?S - 1) * bs" using k by (intro mult_le_mono1) simp
  hence "k * bs \<le> num_full_slots bt" using full(1) by linarith
  hence ts: "k * bs + length ts = num_full_slots bt" using full(3) by (simp add: ts_def)
  have need: "blocks_needed bs (old_slots d + length ts) - length (old_blocks d) = n"
    using blocks_needed_range[OF allocator_lawsD(1)[OF laws] full(1,2)] by (simp add: d ts n_def)
  obtain x where x: "mig_inv free bs (mg_num_layers su) r rid ?S k (Some x) w3" "physical_block_ids x = old_blocks d @ new"
      "stopped w3 r \<longleftrightarrow> stopped w2 r"
    using remote_pre_alloc_inv[OF laws env window n(1) inv2 need _ pre] room rem n(3) unfolding w2_def by auto
  have stop: "stopped w3 r" using x(3) same(2) rm by simp
  have take: "drop k ?S = take n (drop k ?S)" using n(3) by simp
  from transfer_stage_inv[OF env x(1,2) d(1) pre(2) take _ _ tr st] n(2) stop
  have fin: "mig_inv free bs (mg_num_layers su) r rid ?S (k + n) (Some x) w'" "stopped w' r" "st = MIG_FINISHED" by auto
  have "length (physical_block_ids x) = length ?S" using x(2) d(1) pre(2) n(2) by simp
  hence "cache_copied (mg_num_layers su) r rid w'"
    using fin(1,2) unfolding mig_inv_def cache_copied_def n(2) by fastforce
  hence "ready_to_commit (mg_num_layers su) r rid w'"
    using fin(1,2) by (simp add: ready_to_commit_def mig_inv_def)
  thus ?thesis using fin(3) by simp
qed

subsection \<open>The whole migration\<close>

definition setup_ok :: "'p StageCoordinator \<Rightarrow> nat \<Rightarrow> ('p \<Rightarrow> nat set) \<Rightarrow> bool" where
  "setup_ok su bs free \<longleftrightarrow> allocator_laws (mg_ops su) bs free \<and> max_block_sliding_window (dst_config su) = None
     \<and> cfg_block_size (src_config su) = bs \<and> 1 \<le> migration_last_stage_max_blocks su"

lemma onestage_inv:
  assumes su: "setup_ok su bs free" and env: "stage_env_ok free bs r rid e"
    and sync: "synced free bs (mg_num_layers su) r rid k w" and room: "stage_room su e r w"
    and res: "migrate_out_onestage su e r w = (Inr st, w')" and st: "st \<in> {MIG_RUNNING, MIG_FINISHED}"
  shows "if st = MIG_RUNNING then \<exists>k'. synced free bs (mg_num_layers su) r rid k' w'
         else ready_to_commit (mg_num_layers su) r rid w'"
proof -
  have laws: "allocator_laws (mg_ops su) bs free" and window: "max_block_sliding_window (dst_config su) = None"
    and bs: "cfg_block_size (src_config su) = bs" and one: "1 \<le> migration_last_stage_max_blocks su"
    using su by (auto simp: setup_ok_def)
  obtain bt where bt: "src_table w r = Some bt" and id: "rq_request_id (obj w r) = rid" using synced_table[OF sync] by metis
  have k: "sum_list (stage_num_blocks_list (obj w r)) = k" using sync by (simp add: synced_def)
  let ?blocks = "drop k (physical_block_ids bt)" and ?tokens = "drop (k * bs) (take (num_full_slots bt) (seq_token_ids (obj w r)))"
  have stage: "(if is_last_stage su (obj w r) ?blocks then last_stage su e r ?blocks ?tokens w
      else live_stage su e r ?blocks ?tokens w) = (Inr st, w')"
    using res st unfolding migrate_out_onestage_def Let_def k incremental_blocks[OF bt] bs is_last_stage_def
    by (auto split: sum.splits bool.splits)
  show ?thesis
  proof (cases "is_last_stage su (obj w r) ?blocks")
    case True
    have "room_for (mg_ops su) rid (length ?blocks)
        (until_pre_alloc e (upd_src (add_migrating_out_request_last_stage r) (snd (await_removal e rid w))))"
      using room True by (simp add: stage_room_def Let_def bt k id)
    from last_stage_inv[OF laws env window sync bt this _ st] stage True show ?thesis by simp
  next
    case False
    have "room_for (mg_ops su) rid (length ?blocks - 1) (until_pre_alloc e w)"
      using room False by (simp add: stage_room_def Let_def bt k id)
    moreover have "2 \<le> length ?blocks" using False one unfolding is_last_stage_def by linarith
    ultimately show ?thesis using live_stage_inv[OF laws env window sync bt _ _ _ st] stage False by auto
  qed
qed

lemma multistage_copies:
  assumes su: "setup_ok su bs free" and env: "\<forall>k. stage_env_ok free bs r rid (envs k)"
  shows "synced free bs (mg_num_layers su) r rid k w \<Longrightarrow> stages_room su envs i n r w
    \<Longrightarrow> multistage_loop su envs i n r w = (Inr MIG_FINISHED, w') \<Longrightarrow> ready_to_commit (mg_num_layers su) r rid w'"
proof (induction n arbitrary: i k w)
  case (Suc n)
  obtain st w1 where one: "migrate_out_onestage su (envs i) r w = (Inr st, w1)"
      and rest: "if mig_is_finished st then st = MIG_FINISHED \<and> w1 = w' else multistage_loop su envs (i + 1) n r w1 = (Inr MIG_FINISHED, w')"
    using Suc.prems(3) by (auto split: prod.splits sum.splits if_splits)
  have st: "st \<in> {MIG_RUNNING, MIG_FINISHED}" using rest by (cases st) (auto simp: mig_is_finished_def)
  have room: "stage_room su (envs i) r w" using Suc.prems(2) by simp
  note inv = onestage_inv[OF su env[rule_format] Suc.prems(1) room one st]
  show ?case
  proof (cases "st = MIG_RUNNING")
    case True
    hence "multistage_loop su envs (i + 1) n r w1 = (Inr MIG_FINISHED, w')" using rest by (simp add: mig_is_finished_def)
    moreover have "stages_room su envs (i + 1) n r w1" using Suc.prems(2) one True by simp
    ultimately show ?thesis using inv True Suc.IH by auto
  next
    case False
    thus ?thesis using inv st rest by (auto simp: mig_is_finished_def split: if_splits)
  qed
qed simp


subsection \<open>Example runs\<close>

lemma env_rel_refl: "env_rel free bs r rid w w"
  unfolding env_rel_def by auto

lemma env_ok_id: "env_ok free bs r rid (\<lambda>w. w)"
  by (simp add: env_ok_def env_rel_refl)

definition quiet_env :: "('p, 'v) stage_env" where
  "quiet_env = \<lparr>until_removal = (\<lambda>w. w), until_answer = (\<lambda>w. w), until_pre_alloc = (\<lambda>w. w), after_pre_alloc = (\<lambda>w. w),
     until_send = (\<lambda>w. w), after_send = (\<lambda>w. w), pre_alloc_fails = None, send_fails = None, stage_time = 1\<rparr>"

text \<open>The engine writes the last block of the running request.\<close>

definition write_last :: "ref \<Rightarrow> 'v \<Rightarrow> ('p, 'v) World \<Rightarrow> ('p, 'v) World" where
  "write_last r v w = (case src_table w r of
     None \<Rightarrow> w
   | Some bt \<Rightarrow> if stopped w r \<or> last (physical_block_ids bt) \<in> set (butlast (physical_block_ids bt)) then w
               else w\<lparr>src_kv := (\<lambda>l. (src_kv w l)(last (physical_block_ids bt) := v))\<rparr>)"

lemma write_last_ok: "env_ok free bs r rid (write_last r v)"
proof -
  have "env_rel free bs r rid w (write_last r v w)" for w
  proof (cases "src_table w r")
    case None
    thus ?thesis by (simp add: write_last_def env_rel_refl)
  next
    case (Some bt)
    let ?w = "w\<lparr>src_kv := (\<lambda>l. (src_kv w l)(last (physical_block_ids bt) := v))\<rparr>"
    show ?thesis
    proof (cases "stopped w r \<or> last (physical_block_ids bt) \<in> set (butlast (physical_block_ids bt))")
      case True
      thus ?thesis by (simp add: write_last_def Some env_rel_refl)
    next
      case False
      hence "write_last r v w = ?w" by (simp add: write_last_def Some)
      thus ?thesis using False unfolding env_rel_def by (auto simp: Some)
    qed
  qed
  thus ?thesis by (simp add: env_ok_def)
qed

text \<open>The engine appends a token that needs a new block.\<close>

definition grow_at_boundary :: "nat \<Rightarrow> ref \<Rightarrow> nat \<Rightarrow> ('p, 'v) World \<Rightarrow> ('p, 'v) World" where
  "grow_at_boundary bs r b w = (case src_table w r of
     None \<Rightarrow> w
   | Some bt \<Rightarrow>
       if stopped w r \<or> num_full_slots bt \<noteq> length (physical_block_ids bt) * bs then w
       else upd_src (\<lambda>s. upd_object r (\<lambda>q. q\<lparr>seq_token_ids := seq_token_ids q @ [0]\<rparr>)
              (s\<lparr>block_tables := dset (seq_id (objects s r))
                 \<lparr>physical_block_ids = physical_block_ids bt @ [b], num_full_slots = num_full_slots bt + 1\<rparr> (block_tables s)\<rparr>)) w)"

lemma grow_at_boundary_ok:
  assumes "0 < bs"
  shows "env_ok free bs r rid (grow_at_boundary bs r b :: ('p, 'v) World \<Rightarrow> ('p, 'v) World)"
proof -
  have "env_rel free bs r rid w (grow_at_boundary bs r b w)" for w :: "('p, 'v) World"
  proof (cases "src_table w r")
    case None
    thus ?thesis by (simp add: grow_at_boundary_def env_rel_refl)
  next
    case (Some bt)
    show ?thesis
    proof (cases "stopped w r \<or> num_full_slots bt \<noteq> length (physical_block_ids bt) * bs")
      case True
      thus ?thesis by (auto simp: grow_at_boundary_def Some env_rel_refl)
    next
      case False
      define bt' where "bt' = \<lparr>physical_block_ids = physical_block_ids bt @ [b], num_full_slots = num_full_slots bt + 1\<rparr>"
      let ?w = "grow_at_boundary bs r b w"
      have w: "?w = upd_src (\<lambda>s. upd_object r (\<lambda>q. q\<lparr>seq_token_ids := seq_token_ids q @ [0]\<rparr>)
          (s\<lparr>block_tables := dset (seq_id (objects s r)) bt' (block_tables s)\<rparr>)) w"
        using False by (simp add: grow_at_boundary_def Some bt'_def)
      have same: "src_table ?w r = Some bt'" "stopped ?w r \<longleftrightarrow> stopped w r" "dst_table ?w rid = dst_table w rid"
          "src_kv ?w = src_kv w" "dst_kv ?w = dst_kv w" "dst ?w = dst w" "obj ?w r = (obj w r)\<lparr>seq_token_ids := seq_token_ids (obj w r) @ [0]\<rparr>"
          "remove_running_request_ret (src ?w) = remove_running_request_ret (src w)"
        unfolding w by (simp_all add: src_table_def stopped_def dst_table_def dict_simps)
      have holder: "only_holder (sched (src ?w)) r rid \<longleftrightarrow> only_holder (sched (src w)) r rid"
        by (rule only_holder_cong) (simp_all add: w)
      have "table_wf bs bt' (seq_token_ids (obj w r) @ [0])" if "table_wf bs bt (seq_token_ids (obj w r))"
        using that False assms by (auto simp: table_wf_def bt'_def)
      thus ?thesis using False unfolding env_rel_def same holder by (auto simp: Some bt'_def)
    qed
  qed
  thus ?thesis by (simp add: env_ok_def)
qed

text \<open>A running request with the given table and number of tokens, and a destination with free blocks.\<close>

definition example_world :: "nat list \<Rightarrow> nat \<Rightarrow> nat list \<Rightarrow> (nat list, nat) World" where
  "example_world blocks tokens free_blocks =
     \<lparr>src = upd_sched (\<lambda>s. s\<lparr>running := [0], next_object := 1,
               objects := (\<lambda>_. example_request_group\<lparr>seq_token_ids := [0..<tokens], migration_start_time := Some 0\<rparr>),
               block_tables := [(0, \<lparr>physical_block_ids = blocks, num_full_slots = tokens\<rparr>)]\<rparr>) example_backend,
      dst = upd_sched (\<lambda>s. s\<lparr>pool := free_blocks\<rparr>) example_backend,
      src_kv = (\<lambda>l b. 100 * l + b), dst_kv = (\<lambda>_ _. 0)\<rparr>"

definition example_coordinator :: "nat list StageCoordinator" where
  "example_coordinator = \<lparr>mg_ops = list_allocator 4, src_config = example_config,
     dst_config = example_config\<lparr>watermark_blocks := 0\<rparr>, mg_num_layers = 2,
     migration_last_stage_max_blocks = 1, migration_max_stages = 3\<rparr>"

definition example_envs :: "nat \<Rightarrow> (nat list, nat) stage_env" where
  "example_envs k = (if k = 0 then quiet_env\<lparr>after_send := write_last 0 7\<rparr> else quiet_env)"

lemma example_envs_ok: "stage_env_ok set 4 0 ''a'' (example_envs k)"
  by (simp add: example_envs_def stage_env_ok_def write_last_ok quiet_env_def env_ok_id no_growth_def)

lemma example_synced:
  assumes "8 < n" "n \<le> 12"
  shows "synced set 4 (mg_num_layers example_coordinator) 0 ''a'' 0 (example_world [3, 5, 6] n free_blocks)"
  using assms
  by (simp add: synced_def mig_inv_def stopped_def only_holder_def src_table_def dst_table_def old_blocks_def old_slots_def
      table_wf_def example_world_def example_request_group_def example_backend_def init_BackendVLLM_def
      init_SchedulerLlumnix_def blocks_ok_def owned_def)

lemma example_run:
  "stages_room example_coordinator example_envs 0 3 0 (example_world [3, 5, 6] 10 [0..<8])"
  "fst (migrate_out_multistage example_coordinator example_envs 0 (example_world [3, 5, 6] 10 [0..<8])) = Inr MIG_FINISHED"
  by code_simp+

lemma example_setup: "setup_ok example_coordinator 4 set"
  by (simp add: setup_ok_def example_coordinator_def example_allocator example_config_def)


subsection \<open>Where the copy is incomplete\<close>

text \<open>Different numbers of blocks: the copy cannot be complete.\<close>

definition copy_lengths :: "ref \<Rightarrow> string \<Rightarrow> ('p, 'v) World \<Rightarrow> nat option \<times> nat option" where
  "copy_lengths r rid w = (map_option (length \<circ> physical_block_ids) (src_table w r),
     map_option (length \<circ> physical_block_ids) (dst_table w rid))"

lemma short_copy: "copy_lengths r rid w = (Some m, Some n) \<Longrightarrow> m \<noteq> n \<Longrightarrow> \<not> cache_copied L r rid w"
  by (auto simp: copy_lengths_def cache_copied_def)

lemma finished_short_copy:
  assumes "map_prod id (copy_lengths r rid) (migrate_out_multistage su envs r w) = (Inr MIG_FINISHED, Some m, Some n)" "m \<noteq> n"
  shows "\<exists>w'. migrate_out_multistage su envs r w = (Inr MIG_FINISHED, w') \<and> \<not> cache_copied L r rid w'"
  using assms by (cases "migrate_out_multistage su envs r w") (auto dest: short_copy)



end
