(* ===== verification/Llumlet_Actor.thy ===== *)
theory Llumlet_Actor
  imports Stage_Migration
begin

text \<open>
  The actor around one engine (\<open>llumlet/llumlet.py\<close>), as far as it serves the block-based
  engine: it picks the requests to migrate, runs the coordinator for each of them, hands a
  finished one over and takes back an aborted one, and cleans up after the death of the peer.
  The waits of one migration and the failures of its remote calls are collected in a \<open>one_env\<close>.
\<close>

record ('p, 'v) one_env =
  get_actor_fails :: "py_error option"
  start_time :: rat
  stages :: "nat \<Rightarrow> ('p, 'v) stage_env"
  until_commit :: "('p, 'v) World \<Rightarrow> ('p, 'v) World"
  after_commit :: "('p, 'v) World \<Rightarrow> ('p, 'v) World"
  commit_fails :: "py_error option"
  until_free :: "('p, 'v) World \<Rightarrow> ('p, 'v) World"
  after_free :: "('p, 'v) World \<Rightarrow> ('p, 'v) World"
  free_fails :: "py_error option"

subsection \<open>Migrating requests out\<close>

text \<open>Once the destination has taken the request over, the source lets go of it.\<close>

definition release_source :: "'p StageCoordinator \<Rightarrow> ref \<Rightarrow> ('p, 'v) World \<Rightarrow> unit res \<times> ('p, 'v) World" where
  "release_source su r w =
     (let (res, s) = remove_migrating_out_request_last_stage r (free_src_request (mg_ops su) r (sched (src w)))
      in (res, upd_src (\<lambda>_. s) w))"

text \<open>The remote commit gets a copy of the request as it is when the call is made.\<close>

definition commit_migration ::
  "'p StageCoordinator \<Rightarrow> ('p, 'v) one_env \<Rightarrow> ref \<Rightarrow> ('p, 'v) World \<Rightarrow> string list res \<times> ('p, 'v) World" where
  "commit_migration su e r w =
     (let req = obj w r; w = until_commit e w in
      case commit_fails e of
        Some err \<Rightarrow> (Inl err, w)
      | None \<Rightarrow>
          let (res, b) = commit_dst_request req (dst w);
              w = after_commit e (w\<lparr>dst := b\<rparr>)
          in case res of
               Inl err \<Rightarrow> (Inl err, w)
             | Inr _ \<Rightarrow>
                 let (res, w) = release_source su r w
                 in (case res of Inl err \<Rightarrow> Inl err | Inr _ \<Rightarrow> Inr [rq_request_id (obj w r)], w))"

text \<open>
  An aborted request forgets the migration. A destination that aborted has freed its
  reservation; otherwise the source asks for that.
\<close>

definition abandon_migration ::
  "'p StageCoordinator \<Rightarrow> ('p, 'v) one_env \<Rightarrow> ref \<Rightarrow> MigrationStatus \<Rightarrow> ('p, 'v) World \<Rightarrow> string list res \<times> ('p, 'v) World" where
  "abandon_migration su e r st w =
     (let w = upd_src (upd_object r (\<lambda>q. reset_status (reset_migration_args_src q))) w in
      if st \<noteq> ABORTED_SRC then (Inr [], w)
      else let rid = rq_request_id (obj w r); w = until_free e w in
           case free_fails e of
             Some err \<Rightarrow> (Inl err, w)
           | None \<Rightarrow> (Inr [], after_free e (upd_dst (free_dst_pre_alloc_cache (mg_ops su) (Some rid)) w)))"

definition migrate_out_one_request ::
  "'p StageCoordinator \<Rightarrow> ('p, 'v) one_env \<Rightarrow> ref \<Rightarrow> ('p, 'v) World \<Rightarrow> string list res \<times> ('p, 'v) World" where
  "migrate_out_one_request su e r w =
     (case get_actor_fails e of
        Some err \<Rightarrow> (Inl err, w)
      | None \<Rightarrow>
          let st = request_status (obj w r);
              w0 = upd_src (upd_object r (\<lambda>q. q\<lparr>migration_start_time := Some (start_time e)\<rparr>)) w
          in if st \<noteq> RUNNING \<and> st \<noteq> WAITING then (Inr [], w)
             else let (res, w) = (if st = RUNNING then migrate_out_multistage su (stages e) r w0
                                  else migrate_out_waiting_request su (stages e 0) r w0)
                  in case res of
                       Inl err \<Rightarrow> (Inl err, w)
                     | Inr MIG_FINISHED \<Rightarrow> commit_migration su e r w
                     | Inr st \<Rightarrow> abandon_migration su e r st w)"

text \<open>The chosen requests, one after the other; \<open>eom\<close> stops after a failed one.\<close>

fun migrate_out_requests ::
  "'p StageCoordinator \<Rightarrow> (nat \<Rightarrow> ('p, 'v) one_env) \<Rightarrow> nat \<Rightarrow> ref list \<Rightarrow> ('p, 'v) World \<Rightarrow> string list res \<times> ('p, 'v) World" where
  "migrate_out_requests su envs k [] w = (Inr [], w)"
| "migrate_out_requests su envs k (r # rs) w =
     (let (res, w) = migrate_out_one_request su (envs k) r w in
      case res of
        Inl err \<Rightarrow> (Inl err, w)
      | Inr migrated \<Rightarrow>
          if migrated = [] \<and> eom (obj w r) then (Inr migrated, w)
          else let (res, w) = migrate_out_requests su envs (k + 1) rs w
               in (map_sum id ((@) migrated) res, w))"

definition llumlet_migrate_out ::
  "bool \<Rightarrow> string \<Rightarrow> 'p StageCoordinator \<Rightarrow> (nat \<Rightarrow> ('p, 'v) one_env) \<Rightarrow> ('p, 'v) World \<Rightarrow> string list res \<times> ('p, 'v) World" where
  "llumlet_migrate_out is_vllm_v1 policy su envs w =
     (if is_vllm_v1 then (Inr [], w)
      else let s = sched (src w);
               (rs, h) = get_migrate_out_requests policy (objects s) 0 PInf (running s) (waiting s);
               h = fold (\<lambda>r h. h(r := (h r)\<lparr>is_migrating := True\<rparr>)) rs h
           in migrate_out_requests su envs 0 rs (upd_src (\<lambda>s. s\<lparr>objects := h\<rparr>) w))"

subsection \<open>After the death of the peer\<close>

definition recover_request :: "ref \<Rightarrow> 'p SchedulerLlumnix \<Rightarrow> unit res \<times> 'p SchedulerLlumnix" where
  "recover_request r s =
     (let st = request_status (objects s r) in
      if \<not> status_is_migrating st then (Inl AssertionError, s)
      else if st = RUNNING_MIGRATING then (Inr (), add_running_request r s)
      else (Inr (), add_waiting_request r s))"

fun recover_requests :: "ref list \<Rightarrow> 'p SchedulerLlumnix \<Rightarrow> unit res \<times> 'p SchedulerLlumnix" where
  "recover_requests [] s = (Inr (), s)"
| "recover_requests (r # rs) s =
     (let (res, s) = recover_request r s in case res of Inl e \<Rightarrow> (Inl e, s) | Inr _ \<Rightarrow> recover_requests rs s)"

definition clear_migration_states ::
  "'p block_ops \<Rightarrow> bool \<Rightarrow> bool \<Rightarrow> 'p SchedulerLlumnix \<Rightarrow> unit res \<times> 'p SchedulerLlumnix" where
  "clear_migration_states ops is_vllm_v1 is_migrate_in s =
     (if is_vllm_v1 then (Inr (), s)
      else if is_migrate_in then (Inr (), free_dst_pre_alloc_cache ops None s)
      else let (rs, s) = pop_migrating_out_requests_last_stage s in recover_requests rs s)"

subsection \<open>A finished migration\<close>

definition one_env_ok :: "('p \<Rightarrow> nat set) \<Rightarrow> nat \<Rightarrow> ref \<Rightarrow> string \<Rightarrow> ('p, 'v) one_env \<Rightarrow> bool" where
  "one_env_ok free bs r rid e \<longleftrightarrow> (\<forall>k. stage_env_ok free bs r rid (stages e k))
     \<and> env_ok free bs r rid (until_commit e) \<and> env_ok free bs r rid (after_commit e)
     \<and> env_ok free bs r rid (until_free e) \<and> env_ok free bs r rid (after_free e)"

text \<open>
  The destination runs the request as \<open>r'\<close>, with a table of its own whose blocks hold the cache
  of the source.
\<close>

definition taken_over :: "nat \<Rightarrow> ref \<Rightarrow> string \<Rightarrow> ref \<Rightarrow> ('p, 'v) World \<Rightarrow> bool" where
  "taken_over L r rid r' w \<longleftrightarrow>
     (let s = sched (dst w); q = objects s r' in
      r' \<in> set (running s) \<and> rq_request_id q = rid \<and> request_status q = RUNNING \<and> \<not> is_migrating q
      \<and> dst_table w rid = None
      \<and> (\<exists>bt x. src_table w r = Some bt \<and> dget (block_tables s) (seq_id q) = Some x
           \<and> length (physical_block_ids x) = length (physical_block_ids bt)
           \<and> (\<forall>i < length (physical_block_ids bt). \<forall>l < L.
                dst_kv w l (physical_block_ids x ! i) = src_kv w l (physical_block_ids bt ! i))))"

lemma ready_to_commit_env:
  assumes "ready_to_commit L r rid w" "env_ok free bs r rid f"
  shows "ready_to_commit L r rid (f w)"
proof -
  have rel: "env_rel free bs r rid w (f w)" using assms(2) by (simp add: env_ok_def)
  obtain bt x where bt: "src_table w r = Some bt" "dst_table w rid = Some x"
      "length (physical_block_ids x) = length (physical_block_ids bt)"
      "\<forall>i < length (physical_block_ids bt). \<forall>l < L. dst_kv w l (physical_block_ids x ! i) = src_kv w l (physical_block_ids bt ! i)"
    and stop: "stopped w r" "rq_request_id (obj w r) = rid"
    using assms(1) by (auto simp: ready_to_commit_def cache_copied_def)
  have same: "src_table (f w) r = Some bt" "same_kv (src_kv w) (src_kv (f w)) (physical_block_ids bt)"
      "dst_table (f w) rid = Some x" "same_kv (dst_kv w) (dst_kv (f w)) (physical_block_ids x)"
      "stopped (f w) r" "rq_request_id (obj (f w) r) = rid"
    using rel bt stop unfolding env_rel_def by auto
  thus ?thesis using bt unfolding ready_to_commit_def cache_copied_def by auto
qed

lemma commit_takes_over:
  assumes ready: "ready_to_commit L r rid w" and req: "rq_request_id req = rid" "status_override req = Some RUNNING_MIGRATING"
  shows "\<exists>b. commit_dst_request req (dst w) = (Inr (), b) \<and> taken_over L r rid (next_object (sched (dst w))) (w\<lparr>dst := b\<rparr>)"
proof -
  obtain x where x: "dst_table w rid = Some x" using ready by (auto simp: ready_to_commit_def cache_copied_def)
  let ?r = "commit_dst_request req (dst w)" and ?r' = "next_object (sched (dst w))"
  have st: "request_status (reset_migration_args_dst (req\<lparr>seq_id := n\<rparr>)) = RUNNING_MIGRATING" for n
    using req(2) by (simp add: request_status_def reset_migration_args_dst_def)
  have res: "fst ?r = Inr ()" and run: "?r' \<in> set (running (sched (snd ?r)))"
    and obj: "objects (sched (snd ?r)) ?r' = (reset_status (reset_migration_args_dst (req\<lparr>seq_id := seq_counter (dst w)\<rparr>)))\<lparr>seq_status := SEQ_RUNNING\<rparr>"
    and tab: "dget (block_tables (sched (snd ?r))) (seq_counter (dst w)) = Some x"
      "dget (pre_alloc_cache_dict (sched (snd ?r))) rid = None"
    using x req(1) st
    by (simp_all add: commit_dst_request_def dst_table_def Let_def status_is_migrating_def add_running_request_def
        add_block_table_def dict_simps)
  have "taken_over L r rid ?r' (w\<lparr>dst := snd ?r\<rparr>)"
    using ready run tab x req(1)
    by (simp add: taken_over_def obj Let_def request_status_def reset_status_def reset_migration_args_dst_def
        ready_to_commit_def cache_copied_def dst_table_def)
  thus ?thesis using res by (metis prod.collapse)
qed

lemma release_source_table: "src_table (snd (release_source su r w)) r = None"
  by (simp add: release_source_def src_table_def remove_migrating_out_request_last_stage_def free_src_request_def
      dict_simps Let_def split: option.split)

lemma release_source_id: "rq_request_id (obj (snd (release_source su r w)) r) = rq_request_id (obj w r)"
  by (simp add: release_source_def remove_migrating_out_request_last_stage_def free_src_frame)

lemma commit_migration_hands_over:
  assumes env: "one_env_ok free bs r rid e" and ready: "ready_to_commit L r rid w"
    and res: "commit_migration su e r w = (Inr ids, w')"
  shows "ids = [rid] \<and> src_table w' r = None
    \<and> (\<exists>r' w1. taken_over L r rid r' w1 \<and> w' = snd (release_source su r (after_commit e w1)))"
proof -
  have envs: "env_ok free bs r rid (until_commit e)" "env_ok free bs r rid (after_commit e)"
    using env by (auto simp: one_env_ok_def)
  let ?w = "until_commit e w"
  have req: "rq_request_id (obj w r) = rid" "status_override (obj w r) = Some RUNNING_MIGRATING"
    using ready by (auto simp: ready_to_commit_def stopped_def)
  obtain b where b: "commit_dst_request (obj w r) (dst ?w) = (Inr (), b)"
      "taken_over L r rid (next_object (sched (dst ?w))) (?w\<lparr>dst := b\<rparr>)"
    using commit_takes_over[OF ready_to_commit_env[OF ready envs(1)] req] by blast
  have "rq_request_id (obj (after_commit e (?w\<lparr>dst := b\<rparr>)) r) = rid"
    using envs req(1) unfolding env_ok_def env_rel_def by simp
  hence "ids = [rid] \<and> w' = snd (release_source su r (after_commit e (?w\<lparr>dst := b\<rparr>)))"
    using res release_source_id[of su r "after_commit e (?w\<lparr>dst := b\<rparr>)"]
    by (auto simp: commit_migration_def b(1) Let_def split: option.splits prod.splits sum.splits)
  thus ?thesis using b(2) release_source_table[of su r "after_commit e (?w\<lparr>dst := b\<rparr>)"] by auto
qed

lemma synced_start_time:
  assumes "synced free bs L r rid k w"
  shows "synced free bs L r rid k (upd_src (upd_object r (\<lambda>q. q\<lparr>migration_start_time := t\<rparr>)) w)"
proof -
  let ?w = "upd_src (upd_object r (\<lambda>q. q\<lparr>migration_start_time := t\<rparr>)) w"
  have "only_holder (sched (src ?w)) r rid \<longleftrightarrow> only_holder (sched (src w)) r rid" by (rule only_holder_cong) simp_all
  moreover have "mig_inv free bs L r rid [] k d ?w" if "mig_inv free bs L r rid [] k d w" for d
    by (rule mig_inv_stage_lists[OF that]) simp
  ultimately show ?thesis using assms unfolding synced_def by (auto simp: stopped_def)
qed


definition quiet_one_env :: "('p, 'v) one_env" where
  "quiet_one_env = \<lparr>get_actor_fails = None, start_time = 0, stages = (\<lambda>_. quiet_env), until_commit = (\<lambda>w. w),
     after_commit = (\<lambda>w. w), commit_fails = None, until_free = (\<lambda>w. w), after_free = (\<lambda>w. w), free_fails = None\<rparr>"

definition example_one_env :: "(nat list, nat) one_env" where
  "example_one_env = quiet_one_env\<lparr>stages := example_envs\<rparr>"

lemma example_one_env_ok: "one_env_ok set 4 0 ''a'' example_one_env"
  by (simp add: one_env_ok_def example_one_env_def quiet_one_env_def example_envs_ok env_ok_id)

lemma example_handover:
  "stages_room example_coordinator (stages example_one_env) 0 (migration_max_stages example_coordinator) 0
     (upd_src (upd_object 0 (\<lambda>q. q\<lparr>migration_start_time := Some (start_time example_one_env)\<rparr>)) (example_world [3, 5, 6] 10 [0..<8]))"
  "fst (migrate_out_one_request example_coordinator example_one_env 0 (example_world [3, 5, 6] 10 [0..<8])) = Inr [''a'']"
  "request_status (obj (example_world [3, 5, 6] 10 [0..<8]) 0) = RUNNING"
  by code_simp+


subsection \<open>An aborted migration\<close>

lemma free_fold_none:
  "k \<in> set rids \<or> dget (pre_alloc_cache_dict s) k = None \<Longrightarrow> dget (pre_alloc_cache_dict (fold (free_pre_alloc_of ops) rids s)) k = None"
proof (induction rids arbitrary: s)
  case (Cons x rids)
  have "dget (pre_alloc_cache_dict (free_pre_alloc_of ops x s)) k = None" if "k = x \<or> dget (pre_alloc_cache_dict s) k = None"
    using that by (auto simp: free_pre_alloc_of_def dict_simps split: option.split)
  thus ?case using Cons by auto
qed simp

lemma free_dst_none: "dget (pre_alloc_cache_dict (free_dst_pre_alloc_cache ops (Some rid) s)) rid = None"
proof (cases rid)
  case Nil
  have "rid \<in> set (dkeys (pre_alloc_cache_dict s)) \<or> dget (pre_alloc_cache_dict s) rid = None" by (simp add: map_of_eq_None_iff)
  from free_fold_none[OF this] show ?thesis using Nil by (simp add: free_dst_pre_alloc_cache_def)
next
  case (Cons c cs)
  thus ?thesis by (auto simp: free_dst_pre_alloc_cache_def free_pre_alloc_of_def dict_simps split: option.split)
qed

lemma dst_table_freed: "dst_table (w\<lparr>dst := b\<lparr>sched := free_dst_pre_alloc_cache ops (Some rid) s\<rparr>\<rparr>) rid = None"
  by (simp add: dst_table_def free_dst_none)

lemma env_keeps:
  assumes "env_ok free bs r rid f"
  shows "rq_request_id (obj (f w) r) = rq_request_id (obj w r)" "dst_table (f w) rid = dst_table w rid"
  using assms unfolding env_ok_def env_rel_def by blast+

text \<open>A reservation of the wrong size is gone when the answer arrives.\<close>

lemma remote_pre_alloc_short:
  assumes env: "stage_env_ok free bs r rid e" and id: "rq_request_id (obj w r) = rid"
    and res: "remote_pre_alloc su e r n ts w = (res, w')"
  shows "rq_request_id (obj w' r) = rid" and "res = Inr blocks \<Longrightarrow> length blocks \<noteq> n \<Longrightarrow> dst_table w' rid = None"
proof -
  have envs: "env_ok free bs r rid (until_pre_alloc e)" "env_ok free bs r rid (after_pre_alloc e)"
    using env by (auto simp: stage_env_ok_def)
  show "rq_request_id (obj w' r) = rid"
    using res id by (auto simp: remote_pre_alloc_def Let_def env_keeps[OF envs(1)] env_keeps[OF envs(2)]
        split: option.splits prod.splits)
  show "dst_table w' rid = None" if "res = Inr blocks" "length blocks \<noteq> n"
    using res that unfolding remote_pre_alloc_def Let_def id
    by (auto simp: migrate_in_pre_alloc_def Let_def env_keeps(2)[OF envs(2)] dst_table_freed
        split: option.splits prod.splits sum.splits if_splits)
qed

lemma transfer_stage_id:
  assumes env: "stage_env_ok free bs r rid e" and id: "rq_request_id (obj w r) = rid"
    and res: "transfer_stage su e r is_last n src_blocks dst_blocks w = (res, w')"
  shows "rq_request_id (obj w' r) = rid \<and> res \<noteq> Inr ABORTED_DST"
proof -
  have envs: "env_ok free bs r rid (until_send e)" "env_ok free bs r rid (after_send e)"
    using env by (auto simp: stage_env_ok_def)
  show ?thesis using res id
    by (auto simp: transfer_stage_def Let_def env_keeps(1)[OF envs(1)] env_keeps(1)[OF envs(2)]
        split: sum.splits bool.splits option.splits if_splits)
qed

lemma await_removal_id:
  assumes env: "stage_env_ok free bs r rid e" and res: "await_removal e rid w = (found, w')"
  shows "rq_request_id (obj w' r) = rq_request_id (obj w r)"
proof -
  have envs: "env_ok free bs r rid (until_removal e)" "env_ok free bs r rid (until_answer e)"
    using env by (auto simp: stage_env_ok_def)
  let ?w = "until_removal e w"
  have "rq_request_id (obj w' r) = rq_request_id (objects (sched (serve_removals (queue_removal rid (src ?w)))) r)"
    using res by (auto simp: await_removal_def take_removal_answer_def Let_def env_keeps(1)[OF envs(2)] split: prod.splits option.splits)
  also have "\<dots> = rq_request_id (obj ?w r)" using served_frame(1)[of "src ?w" r rid] by (simp add: same_request_def)
  finally show ?thesis by (simp add: env_keeps(1)[OF envs(1)])
qed

lemma requeue_frame:
  "rq_request_id (objects (snd (remove_migrating_out_request_last_stage r (add_running_request r s))) r) = rq_request_id (objects s r)"
  by (simp add: remove_migrating_out_request_last_stage_def add_running_request_def Let_def)

lemma live_stage_abort:
  assumes env: "stage_env_ok free bs r rid e" and id: "rq_request_id (obj w r) = rid"
    and res: "live_stage su e r blocks tokens w = (res, w')"
  shows "rq_request_id (obj w' r) = rid \<and> (res = Inr ABORTED_DST \<longrightarrow> dst_table w' rid = None)"
proof -
  obtain pre w1 where pre: "remote_pre_alloc su e r (length blocks - 1) (take (length (butlast blocks) * seq_block_size (obj w r)) tokens) w = (pre, w1)"
    by fastforce
  note one = remote_pre_alloc_short[OF env id pre]
  show ?thesis using res one transfer_stage_id[OF env one(1)]
    unfolding live_stage_def Let_def pre prod.case by (auto split: sum.splits if_splits)
qed

lemma last_stage_abort:
  assumes env: "stage_env_ok free bs r rid e" and id: "rq_request_id (obj w r) = rid"
    and res: "last_stage su e r blocks tokens w = (res, w')"
  shows "rq_request_id (obj w' r) = rid \<and> (res = Inr ABORTED_DST \<longrightarrow> dst_table w' rid = None)"
proof -
  obtain found w1 where rem: "await_removal e rid w = (found, w1)" by fastforce
  define w2 where "w2 = upd_src (add_migrating_out_request_last_stage r) w1"
  have id1: "rq_request_id (obj w1 r) = rid" using await_removal_id[OF env rem] id by simp
  hence id2: "rq_request_id (obj w2 r) = rid" by (simp add: w2_def add_migrating_out_request_last_stage_def)
  obtain pre w3 where pre: "remote_pre_alloc su e r (length blocks) tokens w2 = (pre, w3)" by fastforce
  note one = remote_pre_alloc_short[OF env id2 pre]
  obtain ret s where requeued: "remove_migrating_out_request_last_stage r (add_running_request r (sched (src w3))) = (ret, s)" by fastforce
  have "rq_request_id (objects s r) = rid" using requeue_frame[of r "sched (src w3)"] requeued one(1) by simp
  with res one transfer_stage_id[OF env one(1)] id1 show ?thesis
    unfolding last_stage_def Let_def id rem prod.case w2_def[symmetric] pre requeued
    by (auto split: sum.splits if_splits)
qed

lemma onestage_abort:
  assumes env: "stage_env_ok free bs r rid e" and id: "rq_request_id (obj w r) = rid"
    and res: "migrate_out_onestage su e r w = (res, w')"
  shows "rq_request_id (obj w' r) = rid \<and> (res = Inr ABORTED_DST \<longrightarrow> dst_table w' rid = None)"
  using res id live_stage_abort[OF env id] last_stage_abort[OF env id]
  by (auto simp: migrate_out_onestage_def Let_def split: sum.splits bool.splits prod.splits if_splits)

lemma multistage_abort:
  assumes env: "\<forall>k. stage_env_ok free bs r rid (envs k)"
  shows "rq_request_id (obj w r) = rid \<Longrightarrow> multistage_loop su envs k n r w = (res, w')
    \<Longrightarrow> rq_request_id (obj w' r) = rid \<and> (res = Inr ABORTED_DST \<longrightarrow> dst_table w' rid = None)"
proof (induction n arbitrary: k w)
  case (Suc n)
  obtain one w1 where one: "migrate_out_onestage su (envs k) r w = (one, w1)" by fastforce
  note step = onestage_abort[OF env[rule_format, of k] Suc.prems(1) one]
  show ?case using Suc.prems(2) step Suc.IH[of w1 "k + 1"] by (auto simp: one split: sum.splits if_splits)
qed auto

lemma multistage_ends: "fst (multistage_loop su envs k n r w) = Inr st \<Longrightarrow> mig_is_finished st"
proof (induction n arbitrary: k w)
  case (Suc n)
  thus ?case by (auto split: prod.splits sum.splits if_splits)
qed (auto simp: mig_is_finished_def)

lemma abandon_frees:
  assumes env: "one_env_ok free bs r rid e" and id: "rq_request_id (obj w r) = rid"
    and dst: "st \<noteq> ABORTED_SRC \<Longrightarrow> dst_table w rid = None"
    and res: "abandon_migration su e r st w = (Inr ids, w')"
  shows "dst_table w' rid = None"
proof -
  have envs: "env_ok free bs r rid (until_free e)" "env_ok free bs r rid (after_free e)"
    using env by (auto simp: one_env_ok_def)
  let ?w = "upd_src (upd_object r (\<lambda>q. reset_status (reset_migration_args_src q))) w"
  have id': "rq_request_id (obj ?w r) = rid" using id by (simp add: reset_status_def reset_migration_args_src_def)
  show ?thesis
  proof (cases "st = ABORTED_SRC")
    case True
    have "w' = after_free e (upd_dst (free_dst_pre_alloc_cache (mg_ops su) (Some rid)) (until_free e ?w))"
      using res True unfolding abandon_migration_def Let_def id' by (auto split: option.splits)
    thus ?thesis by (simp add: env_keeps(2)[OF envs(2)] dst_table_freed)
  next
    case False
    hence "w' = ?w" using res by (auto simp: abandon_migration_def Let_def)
    thus ?thesis using dst[OF False] by (simp add: dst_table_def)
  qed
qed



subsection \<open>Recovery\<close>

lemma request_status_seq_status:
  "status_is_migrating (request_status q) \<Longrightarrow> request_status (q\<lparr>seq_status := st\<rparr>) = request_status q"
  by (auto simp: request_status_def status_is_migrating_def split: option.split if_splits)

lemma recover_request_frame:
  assumes "status_is_migrating (request_status (objects s r))" and "recover_request r s = (res, s')"
  shows "res = Inr ()" "migrating_out_requests_last_stage s' = migrating_out_requests_last_stage s"
    "\<And>x. status_is_migrating (request_status (objects s x)) \<Longrightarrow> request_status (objects s' x) = request_status (objects s x)"
    "running s' = running s @ (if request_status (objects s r) = RUNNING_MIGRATING then [r] else [])"
    "mset (waiting s') = mset (waiting s) + (if request_status (objects s r) = WAITING_MIGRATING then {#r#} else {#})"
    "block_tables s' = block_tables s" "seq_id (objects s' x) = seq_id (objects s x)"
proof -
  have "mset (take i xs) + mset (drop i xs) = mset xs" for i and xs :: "ref list"
    by (metis append_take_drop_id mset_append)
  thus "mset (waiting s') = mset (waiting s) + (if request_status (objects s r) = WAITING_MIGRATING then {#r#} else {#})"
    using assms by (auto simp: recover_request_def add_running_request_def add_waiting_request_def Let_def
        status_is_migrating_def split: if_splits)
qed (use assms in \<open>auto simp: recover_request_def add_running_request_def add_waiting_request_def Let_def
    request_status_seq_status split: if_splits\<close>)

lemma recover_requests_frame:
  assumes "\<forall>r \<in> set rs. status_is_migrating (request_status (objects s r))" and "recover_requests rs s = (res, s')"
  shows "res = Inr () \<and> migrating_out_requests_last_stage s' = migrating_out_requests_last_stage s
    \<and> running s' = running s @ filter (\<lambda>r. request_status (objects s r) = RUNNING_MIGRATING) rs
    \<and> mset (waiting s') = mset (waiting s) + mset (filter (\<lambda>r. request_status (objects s r) = WAITING_MIGRATING) rs)
    \<and> (\<forall>x. status_is_migrating (request_status (objects s x)) \<longrightarrow> request_status (objects s' x) = request_status (objects s x))"
  using assms
proof (induction rs arbitrary: s)
  case (Cons r rs)
  obtain one s1 where one: "recover_request r s = (one, s1)" by fastforce
  have mig: "status_is_migrating (request_status (objects s r))" using Cons.prems(1) by simp
  note frame = recover_request_frame[OF mig one]
  have st: "\<forall>x \<in> set rs. request_status (objects s1 x) = request_status (objects s x)"
    using Cons.prems(1) frame(3) by simp
  hence same: "filter (\<lambda>r. request_status (objects s1 r) = t) rs = filter (\<lambda>r. request_status (objects s r) = t) rs" for t
    by (intro filter_cong) auto
  have "recover_requests rs s1 = (res, s')" using Cons.prems(2) frame(1) by (simp add: one)
  moreover have "\<forall>x \<in> set rs. status_is_migrating (request_status (objects s1 x))" using st Cons.prems(1) by simp
  ultimately show ?case using Cons.IH[of s1] frame same by auto
qed simp

text \<open>
  After the death of the destination, clearing the migration states puts every request of the
  last stage back into the queue its status names, behind the running requests or into the waiting
  queue, keeps all others there, and leaves none in the last stage.
\<close>

theorem clear_migration_states_requeues:
  assumes "\<forall>r \<in> set (migrating_out_requests_last_stage s). status_is_migrating (request_status (objects s r))"
    and "clear_migration_states ops False False s = (res, s')"
  shows "res = Inr () \<and> migrating_out_requests_last_stage s' = []
    \<and> running s' = running s @ filter (\<lambda>r. request_status (objects s r) = RUNNING_MIGRATING) (migrating_out_requests_last_stage s)
    \<and> mset (waiting s') = mset (waiting s)
        + mset (filter (\<lambda>r. request_status (objects s r) = WAITING_MIGRATING) (migrating_out_requests_last_stage s))"
  using recover_requests_frame[of "migrating_out_requests_last_stage s" "s\<lparr>migrating_out_requests_last_stage := []\<rparr>" res s'] assms
  by (simp add: clear_migration_states_def pop_migrating_out_requests_last_stage_def)

definition example_last_stage :: "nat list SchedulerLlumnix" where
  "example_last_stage = (init_SchedulerLlumnix [0..<8] (example_store
     (0 := set_status RUNNING_MIGRATING (example_store 0), 1 := set_status WAITING_MIGRATING (example_store 1))))
     \<lparr>running := [2], migrating_out_requests_last_stage := [0, 1]\<rparr>"

theorem clear_migration_states_requeues_witness:
  "\<exists>s'. clear_migration_states (list_allocator 4) False False example_last_stage = (Inr (), s')
     \<and> running s' = [2, 0] \<and> waiting s' = [1]"
proof -
  let ?s = example_last_stage
  have last: "migrating_out_requests_last_stage ?s = [0, 1]" "running ?s = [2]" "waiting ?s = []"
      "request_status (objects ?s 0) = RUNNING_MIGRATING" "request_status (objects ?s (Suc 0)) = WAITING_MIGRATING"
    by (simp_all add: example_last_stage_def init_SchedulerLlumnix_def request_status_def set_status_def)
  have "\<forall>r \<in> set (migrating_out_requests_last_stage ?s). status_is_migrating (request_status (objects ?s r))"
    by (simp add: last status_is_migrating_def)
  from clear_migration_states_requeues[OF this prod.collapse[symmetric], of "list_allocator 4"]
  show ?thesis by (intro exI[of _ "snd (clear_migration_states (list_allocator 4) False False ?s)"])
      (auto simp: last prod_eq_iff)
qed


end
