(* ===== verification/V1_Engine.thy ===== *)
theory V1_Engine
  imports P2P_Routing KV_Index Backend_Vllm
begin

text \<open>
  The adapter of the V1 engine (\<open>backends/vllm/v1_engine.py\<close>) and the part of the actor that
  serves it (\<open>llumlet/llumlet.py\<close>): the ids under which requests run in the engine, the tables
  of the requests in flight, the tasks that forward their outputs, and the report to the manager.
  The engine itself is vLLM's; what its calls answer is an argument.
\<close>

text \<open>\<open>a or b\<close> on optional strings: an empty string counts as missing.\<close>

definition str_or :: "string option \<Rightarrow> string option \<Rightarrow> string option" where
  "str_or a b = (case a of None \<Rightarrow> b | Some s \<Rightarrow> if s = [] then b else a)"

abbreviation truthy :: "string option \<Rightarrow> bool" where
  "truthy a \<equiv> a \<noteq> None \<and> a \<noteq> Some []"

record V1EngineAdapter =
  v1_engine_args :: KVEngineArgs
  v1_instance_id :: string
  kv_affinity :: KVCacheAffinityIndex
  v1_requests :: "(string, nat option \<times> rat) dict"
  request_id_aliases :: "(string, string) dict"
  v1_waiting :: "string list"
  v1_running :: "string list"
  v1_state :: EngineState

definition init_V1EngineAdapter :: "KVEngineArgs \<Rightarrow> string \<Rightarrow> V1EngineAdapter" where
  "init_V1EngineAdapter engine_args iid = \<lparr>v1_engine_args = engine_args, v1_instance_id = iid,
     kv_affinity = init_KVCacheAffinityIndex, v1_requests = [], request_id_aliases = [], v1_waiting = [],
     v1_running = [], v1_state = ENGINE_RUNNING\<rparr>"

definition v1_apply_kv_events :: "kv_event list \<Rightarrow> V1EngineAdapter \<Rightarrow> V1EngineAdapter" where
  "v1_apply_kv_events events a = a\<lparr>kv_affinity := apply_events (kv_affinity a) (v1_instance_id a) events\<rparr>"

definition public_request_id :: "string \<Rightarrow> string" where
  "public_request_id request_id = strip_p2p_request_id request_id"

definition get_kv_affinity :: "raw_hash list \<Rightarrow> V1EngineAdapter \<Rightarrow> rat" where
  "get_kv_affinity hashes a = index_affinity (kv_affinity a) (v1_instance_id a) hashes"

text \<open>\<open>encode\<close> is the tokenizer, absent for some models.\<close>

definition get_prompt_block_hashes ::
  "(string \<Rightarrow> int list) option \<Rightarrow> ('h option \<Rightarrow> int list \<Rightarrow> 'h) \<Rightarrow> int \<Rightarrow> int \<Rightarrow> string \<Rightarrow> 'h list" where
  "get_prompt_block_hashes encode hash_block block_size decode_context_parallel_size prompt =
     (case encode of None \<Rightarrow> []
      | Some enc \<Rightarrow> prefix_hashes hash_block (enc prompt) (block_size * decode_context_parallel_size))"

subsection \<open>Requests\<close>

definition v1_release_request :: "string \<Rightarrow> V1EngineAdapter \<Rightarrow> V1EngineAdapter" where
  "v1_release_request rid a = a\<lparr>v1_requests := dpop rid (v1_requests a),
     request_id_aliases := dpop rid (request_id_aliases a), v1_running := remove1 rid (v1_running a)\<rparr>"

text \<open>
  The request enters the tables before the engine is asked to generate, and leaves them when
  that call raises. The result is the id the engine knows the request by.
\<close>

definition v1_start ::
  "(string \<Rightarrow> py_error option) \<Rightarrow> rat \<Rightarrow> nat option \<Rightarrow> string \<Rightarrow> string \<Rightarrow> V1EngineAdapter \<Rightarrow> string res \<times> V1EngineAdapter" where
  "v1_start engine_generate now server_info rid internal a =
     (let a = a\<lparr>request_id_aliases := dset rid internal (request_id_aliases a),
                v1_requests := dset rid (server_info, now) (v1_requests a), v1_running := v1_running a @ [rid]\<rparr>
      in case engine_generate internal of
           Some e \<Rightarrow> (Inl e, v1_release_request rid a)
         | None \<Rightarrow> (Inr internal, a))"

definition v1_role :: "V1EngineAdapter \<Rightarrow> string option" where
  "v1_role a = (case kv_transfer_config (v1_engine_args a) of None \<Rightarrow> None | Some cfg \<Rightarrow> kv_role cfg)"

definition v1_generate ::
  "environ \<Rightarrow> (string \<Rightarrow> py_error option) \<Rightarrow> rat \<Rightarrow> string \<Rightarrow> string option \<Rightarrow> V1EngineAdapter \<Rightarrow> string res \<times> V1EngineAdapter" where
  "v1_generate env engine_generate now rid decode_address a =
     (case (if p2p_connector_enabled (v1_engine_args a) \<and> v1_role a \<in> {Some ''kv_producer'', Some ''kv_both''}
            then decorate_p2p_request_id rid (str_or decode_address (dget env ''LLUMNIX_KV_DECODE_ADDRESS''))
            else Inr rid) of
        Inl e \<Rightarrow> (Inl e, a)
      | Inr internal \<Rightarrow> v1_start engine_generate now None rid internal a)"

text \<open>An id that carries both endpoints already is used as it is.\<close>

definition internal_request_id ::
  "V1EngineAdapter \<Rightarrow> string \<Rightarrow> string option \<Rightarrow> string option \<Rightarrow> string option \<Rightarrow> string res" where
  "internal_request_id a rid decode_address prefill_address p2p_request_id =
     (if p2p_request_id \<noteq> None then Inr (the (str_or p2p_request_id (Some rid)))
      else if \<not> p2p_connector_enabled (v1_engine_args a) then Inr rid
      else if v1_role a \<in> {Some ''kv_producer'', Some ''kv_both''} \<and> truthy decode_address
           then decorate_p2p_request_id rid decode_address
      else if v1_role a = Some ''kv_consumer'' \<and> truthy prefill_address
           then decorate_p2p_consumer_request_id rid prefill_address
      else Inr rid)"

definition v1_add_request ::
  "(string \<Rightarrow> py_error option) \<Rightarrow> rat \<Rightarrow> string \<Rightarrow> nat \<Rightarrow> string option \<Rightarrow> string option \<Rightarrow> string option
    \<Rightarrow> V1EngineAdapter \<Rightarrow> string res \<times> V1EngineAdapter" where
  "v1_add_request engine_generate now rid server_info decode_address prefill_address p2p_request_id a =
     (case internal_request_id a rid decode_address prefill_address p2p_request_id of
        Inl e \<Rightarrow> (Inl e, a)
      | Inr internal \<Rightarrow> v1_start engine_generate now (Some server_info) rid internal a)"

text \<open>
  A request that migrated in is known to the engine already; only the output state is new, whose
  construction from the snapshot may raise.
\<close>

definition v1_add_migrated_request ::
  "py_error option \<Rightarrow> rat \<Rightarrow> string \<Rightarrow> nat \<Rightarrow> V1EngineAdapter \<Rightarrow> unit res \<times> V1EngineAdapter" where
  "v1_add_migrated_request build_fails now rid server_info a =
     (case build_fails of
        Some e \<Rightarrow> (Inl e, a)
      | None \<Rightarrow> (Inr (), a\<lparr>request_id_aliases := dset rid rid (request_id_aliases a),
                  v1_requests := dset rid (Some server_info, now) (v1_requests a), v1_running := v1_running a @ [rid]\<rparr>))"

definition v1_resolve :: "V1EngineAdapter \<Rightarrow> string \<Rightarrow> string" where
  "v1_resolve a rid = dget_default (request_id_aliases a) rid rid"

text \<open>
  \<open>abort\<close>: the engine is told the ids it knows; the tables are cleared once it has answered. What
  happens during that wait is the function \<open>meanwhile\<close>; the result are the ids sent.
\<close>

definition v1_abort ::
  "(string list \<Rightarrow> py_error option) \<Rightarrow> (V1EngineAdapter \<Rightarrow> V1EngineAdapter) \<Rightarrow> string list
    \<Rightarrow> V1EngineAdapter \<Rightarrow> string list res \<times> V1EngineAdapter" where
  "v1_abort engine_abort meanwhile ids a =
     (let internal_ids = map (v1_resolve a) ids; a = meanwhile a in
      case engine_abort internal_ids of
        Some e \<Rightarrow> (Inl e, a)
      | None \<Rightarrow> (Inr internal_ids, fold v1_release_request ids a))"

definition v1_get_all_request_ids :: "V1EngineAdapter \<Rightarrow> string list" where
  "v1_get_all_request_ids a = dkeys (v1_requests a)"

definition v1_shutdown :: "V1EngineAdapter \<Rightarrow> V1EngineAdapter" where
  "v1_shutdown a = (if v1_state a = ENGINE_STOPPED then a else a\<lparr>v1_state := ENGINE_STOPPED\<rparr>)"

subsection \<open>Reports\<close>

text \<open>\<open>resolved\<close> is the address of the own host name, \<open>None\<close> when the lookup raises \<open>OSError\<close>.\<close>

definition get_kv_endpoint :: "environ \<Rightarrow> string option \<Rightarrow> string option \<Rightarrow> V1EngineAdapter \<Rightarrow> string option" where
  "get_kv_endpoint env resolved advertise_host a =
     (case kv_transfer_config (v1_engine_args a) of
        None \<Rightarrow> None
      | Some cfg \<Rightarrow>
          if \<not> p2p_connector_enabled (v1_engine_args a) then None
          else let host = str_or (dget env ''LLUMNIX_KV_IP'') advertise_host;
                   host = (if truthy host then host else Some (kv_ip cfg));
                   host = (if \<not> truthy host \<or> host = Some ''0.0.0.0''
                           then (case resolved of None \<Rightarrow> ''127.0.0.1'' | Some h \<Rightarrow> h) else the host)
               in if kv_port cfg > 0 then Some (host @ '':'' @ int_str (kv_port cfg)) else None)"

text \<open>
  The capabilities of the adapter: whether vLLM has the migration module, the tensor parallel
  size, and whether speculative decoding is configured.
\<close>

definition v1_migration_capabilities :: "bool \<Rightarrow> int option \<Rightarrow> bool \<Rightarrow> string set" where
  "v1_migration_capabilities has_module tensor_parallel_size speculative =
     (if \<not> has_module then {}
      else {''token_boundary_freeze'', ''kv_snapshot'', ''native_nccl'', ''lora'', ''structured_output'',
            ''prompt_embeds'', ''multimodal''}
        \<union> (let tp = (case tensor_parallel_size of None \<Rightarrow> 1 | Some n \<Rightarrow> if n = 0 then 1 else n)
           in if tp = 1 then {''incremental_precopy'', ''seeded_rng''} else {})
        \<union> (if speculative then {''spec_decode''} else {}))"

text \<open>What the adapter reads from vLLM and the device; \<open>None\<close> where reading raises.\<close>

record v1_probe =
  p_max_num_seqs :: "int option"
  p_parallel :: "(int \<times> int) option"
  p_memory :: "(int \<times> int) option"
  p_protocol_version :: "int option"
  p_device_name :: "string option"
  p_tensor_parallel_size :: "int option"
  p_speculative :: bool

definition v1_update_instance_info :: "environ \<Rightarrow> v1_probe \<Rightarrow> V1EngineAdapter \<Rightarrow> InstanceInfo \<Rightarrow> InstanceInfo" where
  "v1_update_instance_info env pr a info =
     (let info = info\<lparr>num_running_requests := int (length (v1_running a)), num_waiting_requests := int (length (v1_waiting a)),
            num_seqs := Some (int (length (v1_running a))),
            max_num_seqs := (case p_max_num_seqs pr of None \<Rightarrow> 0 | Some n \<Rightarrow> n),
            gpu_count := (case p_parallel pr of None \<Rightarrow> 1 | Some (tp, pp) \<Rightarrow> max (tp * pp) 1),
            num_total_gpu_blocks := 0, num_used_gpu_blocks := 0, num_free_gpu_blocks := 0, gpu_cache_usage := 0\<rparr>;
          info = (case p_memory pr of
            None \<Rightarrow> info\<lparr>gpu_memory_free_bytes := 0, gpu_memory_total_bytes := 0, compute_capacity := 1\<rparr>
          | Some (free_mem, total_mem) \<Rightarrow> info\<lparr>gpu_memory_free_bytes := free_mem, gpu_memory_total_bytes := total_mem,
              compute_capacity := Fin (max (of_int total_mem / (32 * 1024 ^ 3)) (1 / 1000))\<rparr>)
      in info\<lparr>kv_cache_block_hashes := block_hashes (kv_affinity a) (v1_instance_id a),
           migration_protocol_version := (case p_protocol_version pr of None \<Rightarrow> 0 | Some v \<Rightarrow> v),
           migration_kv_layout_version := ''vllm-v1'',
           device_class := (case p_device_name pr of None \<Rightarrow> '''' | Some d \<Rightarrow> d),
           corex_stack := getenv env ''LLUMNIX_COREX_STACK'' ''44''\<rparr>)"

text \<open>
  The actor's report. The address of the node comes from the runtime context (\<open>None\<close> when
  that raises) or, when it is empty, from the first entry of the node table for this node.
\<close>

definition llumlet_node_ip :: "string option \<Rightarrow> (string \<times> string) list \<Rightarrow> string \<Rightarrow> string" where
  "llumlet_node_ip context_ip nodes nid =
     (let ip = (case context_ip of None \<Rightarrow> '''' | Some s \<Rightarrow> s) in
      if ip \<noteq> [] then ip
      else (case find (\<lambda>n. fst n = nid) nodes of None \<Rightarrow> ip | Some n \<Rightarrow> snd n))"

definition v1_get_instance_info ::
  "(rat \<Rightarrow> rat) \<Rightarrow> InstanceLoadCalculator \<Rightarrow> environ \<Rightarrow> v1_probe \<Rightarrow> string option \<Rightarrow> string option
    \<Rightarrow> (string \<times> string) list \<Rightarrow> string \<Rightarrow> InstanceType option \<Rightarrow> V1EngineAdapter \<Rightarrow> InstanceInfo res" where
  "v1_get_instance_info np_exp calculator env pr resolved context_ip nodes nid itype a =
     (let ip = llumlet_node_ip context_ip nodes nid;
          info = (post_init (default_InstanceInfo\<lparr>instance_id := v1_instance_id a\<rparr>))\<lparr>node_id := nid, node_ip := ip\<rparr>;
          info = v1_update_instance_info env pr a info;
          info = info\<lparr>kv_endpoint := get_kv_endpoint env resolved (if ip = [] then None else Some ip) a,
            migration_capabilities := v1_migration_capabilities (p_protocol_version pr \<noteq> None)
              (p_tensor_parallel_size pr) (p_speculative pr),
            instance_type := itype\<rparr>
      in compute_instance_load np_exp calculator info)"

subsection \<open>Output streams\<close>

text \<open>
  How a stream ends for the task that forwards it: the engine closes it, it or the output queue
  raises, or the task is cancelled.
\<close>

datatype stream_end = Stream_closed | Stream_failed | Stream_cancelled

text \<open>
  The outputs put into the queue. Producer streams are consumed silently; the others carry the
  public id.
\<close>

definition v1_forwarded :: "bool \<Rightarrow> string option \<Rightarrow> RequestOutput list \<Rightarrow> RequestOutput list" where
  "v1_forwarded suppress_output public outputs =
     (if suppress_output then []
      else map (\<lambda>out. out\<lparr>ro_request_id := (case str_or public None of Some p \<Rightarrow> p
                        | None \<Rightarrow> public_request_id (ro_request_id out))\<rparr>) outputs)"

text \<open>
  \<open>_forward_v1_outputs\<close>: a failed stream is aborted in the engine, and in every case the
  request leaves the tables.
\<close>

definition v1_forward_outputs ::
  "(string list \<Rightarrow> py_error option) \<Rightarrow> (V1EngineAdapter \<Rightarrow> V1EngineAdapter) \<Rightarrow> string \<Rightarrow> stream_end
    \<Rightarrow> V1EngineAdapter \<Rightarrow> V1EngineAdapter" where
  "v1_forward_outputs engine_abort meanwhile rid ending a =
     v1_release_request rid (if ending = Stream_failed then snd (v1_abort engine_abort meanwhile [rid] a) else a)"

text \<open>
  The actor with its forwarding tasks: the registry by request id, the tasks that run, and the
  ended ones whose callback has not run yet, each with the request it forwards.
\<close>

record V1Llumlet =
  ll_engine :: V1EngineAdapter
  v1_output_tasks :: "(string, nat) dict"
  live_tasks :: "(nat, string) dict"
  done_tasks :: "(nat, string) dict"
  next_task :: nat

definition init_V1Llumlet :: "V1EngineAdapter \<Rightarrow> V1Llumlet" where
  "init_V1Llumlet a = \<lparr>ll_engine = a, v1_output_tasks = [], live_tasks = [], done_tasks = [], next_task = 0\<rparr>"

definition create_task :: "string \<Rightarrow> V1Llumlet \<Rightarrow> V1Llumlet" where
  "create_task rid l = l\<lparr>v1_output_tasks := dset rid (next_task l) (v1_output_tasks l),
     live_tasks := dset (next_task l) rid (live_tasks l), next_task := next_task l + 1\<rparr>"

definition llumlet_generate ::
  "(string \<Rightarrow> py_error option) \<Rightarrow> rat \<Rightarrow> string \<Rightarrow> nat \<Rightarrow> string option \<Rightarrow> string option \<Rightarrow> string option
    \<Rightarrow> V1Llumlet \<Rightarrow> string res \<times> V1Llumlet" where
  "llumlet_generate engine_generate now rid server_info decode_address prefill_address p2p_request_id l =
     (let (res, a) = v1_add_request engine_generate now rid server_info decode_address prefill_address p2p_request_id (ll_engine l);
          l = l\<lparr>ll_engine := a\<rparr>
      in case res of Inl e \<Rightarrow> (Inl e, l) | Inr internal \<Rightarrow> (Inr internal, create_task rid l))"

definition register_migrated_request ::
  "py_error option \<Rightarrow> rat \<Rightarrow> string \<Rightarrow> nat \<Rightarrow> V1Llumlet \<Rightarrow> unit res \<times> V1Llumlet" where
  "register_migrated_request fails now rid server_info l =
     (let (res, a) = v1_add_migrated_request fails now rid server_info (ll_engine l);
          l = l\<lparr>ll_engine := a\<rparr>
      in case res of Inl e \<Rightarrow> (Inl e, l) | Inr _ \<Rightarrow> (Inr (), create_task rid l))"

text \<open>A task ends: the clean-up of the stream runs, its callback is still to come.\<close>

definition end_task :: "nat \<Rightarrow> stream_end \<Rightarrow> V1Llumlet \<Rightarrow> V1Llumlet" where
  "end_task tid ending l = (case dget (live_tasks l) tid of
     None \<Rightarrow> l
   | Some rid \<Rightarrow> l\<lparr>ll_engine := v1_forward_outputs (\<lambda>_. None) (\<lambda>a. a) rid ending (ll_engine l),
       live_tasks := dpop tid (live_tasks l), done_tasks := dset tid rid (done_tasks l)\<rparr>)"

definition task_callback :: "nat \<Rightarrow> V1Llumlet \<Rightarrow> V1Llumlet" where
  "task_callback tid l = (case dget (done_tasks l) tid of
     None \<Rightarrow> l
   | Some rid \<Rightarrow> l\<lparr>v1_output_tasks := dpop rid (v1_output_tasks l), done_tasks := dpop tid (done_tasks l)\<rparr>)"

text \<open>The registered task is taken out and, unless it has ended, cancelled and awaited.\<close>

definition cancel_task :: "string \<Rightarrow> V1Llumlet \<Rightarrow> V1Llumlet" where
  "cancel_task rid l = (case dget (v1_output_tasks l) rid of
     None \<Rightarrow> l
   | Some tid \<Rightarrow>
       let l = l\<lparr>v1_output_tasks := dpop rid (v1_output_tasks l)\<rparr>
       in if dmem tid (live_tasks l) then task_callback tid (end_task tid Stream_cancelled l) else l)"

definition finish_migrated_out :: "string \<Rightarrow> V1Llumlet \<Rightarrow> V1Llumlet" where
  "finish_migrated_out rid l = cancel_task rid (l\<lparr>ll_engine := v1_release_request rid (ll_engine l)\<rparr>)"

text \<open>The engine is asked to abort as well; a failure of that call is only logged.\<close>

definition abort_migrated_request :: "(string list \<Rightarrow> py_error option) \<Rightarrow> string \<Rightarrow> V1Llumlet \<Rightarrow> V1Llumlet" where
  "abort_migrated_request engine_abort rid l =
     (let l = cancel_task rid l; a = v1_release_request rid (ll_engine l)
      in l\<lparr>ll_engine := snd (v1_abort engine_abort (\<lambda>a. a) [rid] a)\<rparr>)"

subsection \<open>The tables over every sequence of events\<close>

datatype v1_event =
    V1Generate string nat rat "string option" "string option" "string option" "py_error option"
  | V1Register string nat rat "py_error option"
  | V1StreamEnds nat stream_end
  | V1Callback nat
  | V1Abort "string list" "py_error option"
  | V1FinishMigratedOut string
  | V1AbortMigrated string "py_error option"

definition id_in_use :: "string \<Rightarrow> V1Llumlet \<Rightarrow> bool" where
  "id_in_use rid l \<longleftrightarrow> rid \<in> set (dvalues (live_tasks l)) \<union> set (dvalues (done_tasks l))"

text \<open>An id is given to one stream at a time.\<close>

fun v1_step :: "V1Llumlet \<Rightarrow> v1_event \<Rightarrow> V1Llumlet" where
  "v1_step l (V1Generate rid si now decode prefill p2p fails) =
     (if id_in_use rid l then l else snd (llumlet_generate (\<lambda>_. fails) now rid si decode prefill p2p l))"
| "v1_step l (V1Register rid si now fails) =
     (if id_in_use rid l then l else snd (register_migrated_request fails now rid si l))"
| "v1_step l (V1StreamEnds tid ending) = end_task tid ending l"
| "v1_step l (V1Callback tid) = task_callback tid l"
| "v1_step l (V1Abort ids fails) = l\<lparr>ll_engine := snd (v1_abort (\<lambda>_. fails) (\<lambda>a. a) ids (ll_engine l))\<rparr>"
| "v1_step l (V1FinishMigratedOut rid) = finish_migrated_out rid l"
| "v1_step l (V1AbortMigrated rid fails) = abort_migrated_request (\<lambda>_. fails) rid l"

definition v1_tables_ok :: "V1EngineAdapter \<Rightarrow> bool" where
  "v1_tables_ok a \<longleftrightarrow> distinct (v1_running a) \<and> distinct (dkeys (v1_requests a))
     \<and> set (v1_running a) = set (dkeys (v1_requests a)) \<and> set (dkeys (request_id_aliases a)) = set (dkeys (v1_requests a))"

definition task_of :: "V1Llumlet \<Rightarrow> nat \<Rightarrow> string option" where
  "task_of l tid = (case dget (live_tasks l) tid of Some rid \<Rightarrow> Some rid | None \<Rightarrow> dget (done_tasks l) tid)"

text \<open>
  Every request in the tables has a running task, a running task is registered under its
  request, and no two tasks forward the same request.
\<close>

definition v1_inv :: "V1Llumlet \<Rightarrow> bool" where
  "v1_inv l \<longleftrightarrow> v1_tables_ok (ll_engine l)
     \<and> (\<forall>rid. dmem rid (v1_requests (ll_engine l)) \<longrightarrow> (\<exists>t. dget (live_tasks l) t = Some rid))
     \<and> (\<forall>t. dget (live_tasks l) t \<noteq> None \<longrightarrow> dget (done_tasks l) t = None)
     \<and> (\<forall>t t' rid. task_of l t = Some rid \<longrightarrow> task_of l t' = Some rid \<longrightarrow> t = t')
     \<and> (\<forall>t. task_of l t \<noteq> None \<longrightarrow> t < next_task l)
     \<and> (\<forall>t rid. dget (live_tasks l) t = Some rid \<longrightarrow> dget (v1_output_tasks l) rid = Some t)
     \<and> (\<forall>rid t. dget (v1_output_tasks l) rid = Some t \<longrightarrow> task_of l t = Some rid)"

lemma release_tables:
  "v1_tables_ok a \<Longrightarrow> v1_tables_ok (v1_release_request rid a)"
  by (auto simp: v1_tables_ok_def v1_release_request_def dict_simps distinct_dpop)

lemma release_requests: "dmem x (v1_requests (v1_release_request rid a)) \<longleftrightarrow> dmem x (v1_requests a) \<and> x \<noteq> rid"
  by (auto simp: v1_release_request_def dict_simps)

lemma releases_tables:
  "v1_tables_ok a \<Longrightarrow> v1_tables_ok (fold v1_release_request ids a)"
  by (induction ids arbitrary: a) (simp_all add: release_tables)

lemma releases_requests: "dmem x (v1_requests (fold v1_release_request ids a)) \<longleftrightarrow> dmem x (v1_requests a) \<and> x \<notin> set ids"
  by (induction ids arbitrary: a) (auto simp: release_requests)

lemma abort_tables:
  assumes "v1_tables_ok a"
  shows "v1_tables_ok (snd (v1_abort f (\<lambda>a. a) ids a))"
    and "dmem x (v1_requests (snd (v1_abort f (\<lambda>a. a) ids a))) \<Longrightarrow> dmem x (v1_requests a)"
  using assms by (auto simp: v1_abort_def Let_def releases_tables releases_requests split: option.splits)

lemma forward_tables:
  assumes "v1_tables_ok a"
  shows "v1_tables_ok (v1_forward_outputs f (\<lambda>a. a) rid ending a)"
    and "dmem x (v1_requests (v1_forward_outputs f (\<lambda>a. a) rid ending a)) \<Longrightarrow> dmem x (v1_requests a) \<and> x \<noteq> rid"
  using assms abort_tables[OF assms, where f = f and ids = "[rid]"]
  by (auto simp: v1_forward_outputs_def release_tables release_requests split: if_splits)

lemma v1_invD:
  assumes "v1_inv l"
  shows "v1_tables_ok (ll_engine l)" "\<And>rid. dmem rid (v1_requests (ll_engine l)) \<Longrightarrow> \<exists>t. dget (live_tasks l) t = Some rid"
    "\<And>t. dget (live_tasks l) t \<noteq> None \<Longrightarrow> dget (done_tasks l) t = None"
    "\<And>t rid t'. task_of l t = Some rid \<Longrightarrow> task_of l t' = Some rid \<Longrightarrow> t = t'"
    "\<And>t. task_of l t \<noteq> None \<Longrightarrow> t < next_task l"
    "\<And>t rid. dget (live_tasks l) t = Some rid \<Longrightarrow> dget (v1_output_tasks l) rid = Some t"
    "\<And>rid t. dget (v1_output_tasks l) rid = Some t \<Longrightarrow> task_of l t = Some rid"
  using assms unfolding v1_inv_def by blast+

lemma v1_inv_tables:
  assumes "v1_inv l" "v1_tables_ok a" "\<And>x. dmem x (v1_requests a) \<Longrightarrow> dmem x (v1_requests (ll_engine l))"
  shows "v1_inv (l\<lparr>ll_engine := a\<rparr>)"
proof -
  have "task_of (l\<lparr>ll_engine := a\<rparr>) = task_of l" by (simp add: fun_eq_iff task_of_def split: option.split)
  thus ?thesis using assms unfolding v1_inv_def by auto
qed

lemma start_tables:
  assumes "v1_tables_ok a" "\<not> dmem rid (v1_requests a)"
  shows "v1_tables_ok (a\<lparr>request_id_aliases := dset rid internal (request_id_aliases a),
     v1_requests := dset rid v (v1_requests a), v1_running := v1_running a @ [rid]\<rparr>)"
  using assms by (auto simp: v1_tables_ok_def dict_simps distinct_dset)

lemma create_task_inv:
  assumes inv: "v1_inv l" and free: "\<not> id_in_use rid l" and ok: "v1_tables_ok a"
    and req: "\<And>x. dmem x (v1_requests a) \<Longrightarrow> x = rid \<or> dmem x (v1_requests (ll_engine l))"
  shows "v1_inv (create_task rid (l\<lparr>ll_engine := a\<rparr>))"
proof -
  let ?l = "create_task rid (l\<lparr>ll_engine := a\<rparr>)"
  have fresh: "dget (live_tasks l) t \<noteq> Some rid" "dget (done_tasks l) t \<noteq> Some rid" for t
    using free by (force simp: id_in_use_def dest: map_of_SomeD)+
  have newt: "task_of l (next_task l) = None" using v1_invD(5)[OF inv] by blast
  hence newt': "dget (live_tasks l) (next_task l) = None" "dget (done_tasks l) (next_task l) = None"
    by (auto simp: task_of_def split: option.splits)
  have task: "task_of ?l t = (if t = next_task l then Some rid else task_of l t)" for t
    by (cases "t = next_task l") (simp_all add: task_of_def create_task_def dget_dset split: option.split)
  have absent: "task_of l t \<noteq> Some rid" for t using fresh[of t] by (auto simp: task_of_def split: option.splits)
  have maps: "dget (live_tasks ?l) t = (if t = next_task l then Some rid else dget (live_tasks l) t)"
      "dget (v1_output_tasks ?l) x = (if x = rid then Some (next_task l) else dget (v1_output_tasks l) x)" for t x
    by (simp_all add: create_task_def dict_simps)
  have rest: "ll_engine ?l = a" "done_tasks ?l = done_tasks l" "next_task ?l = next_task l + 1" by (simp_all add: create_task_def)
  note i = v1_invD[OF inv]
  show ?thesis unfolding v1_inv_def task maps rest
  proof (intro conjI allI impI)
    fix t t' x assume "(if t = next_task l then Some rid else task_of l t) = Some x"
      "(if t' = next_task l then Some rid else task_of l t') = Some x"
    thus "t = t'" using i(4)[of t x t'] absent by (auto split: if_splits)
  next
    fix t x assume "(if t = next_task l then Some rid else dget (live_tasks l) t) = Some x"
    thus "(if x = rid then Some (next_task l) else dget (v1_output_tasks l) x) = Some t"
      using i(6)[of t x] fresh by (auto split: if_splits)
  next
    fix x t assume "(if x = rid then Some (next_task l) else dget (v1_output_tasks l) x) = Some t"
    thus "(if t = next_task l then Some rid else task_of l t) = Some x"
      using i(7)[of x t] newt by (auto split: if_splits)
  next
    fix x assume x: "dmem x (v1_requests a)"
    show "\<exists>t. (if t = next_task l then Some rid else dget (live_tasks l) t) = Some x"
    proof (cases "x = rid")
      case False
      then obtain t where "dget (live_tasks l) t = Some x" using req[OF x] i(2) by blast
      thus ?thesis using newt' by (intro exI[of _ t]) auto
    qed auto
  next
    fix t assume "(if t = next_task l then Some rid else dget (live_tasks l) t) \<noteq> None"
    thus "dget (done_tasks l) t = None" using i(3)[of t] newt' by (cases "t = next_task l") auto
  next
    fix t assume "(if t = next_task l then Some rid else task_of l t) \<noteq> None"
    thus "t < next_task l + 1" using i(5)[of t] by (cases "t = next_task l") auto
  qed (rule ok)
qed

lemma task_of_live: "dget (live_tasks l) t = Some rid \<Longrightarrow> task_of l t = Some rid"
  by (simp add: task_of_def)

lemma end_task_inv:
  assumes inv: "v1_inv l"
  shows "v1_inv (end_task tid ending l)"
proof (cases "dget (live_tasks l) tid")
  case None
  thus ?thesis using inv by (simp add: end_task_def)
next
  case (Some rid)
  let ?l = "end_task tid ending l" and ?a = "v1_forward_outputs (\<lambda>_. None) (\<lambda>a. a) rid ending (ll_engine l)"
  note i = v1_invD[OF inv]
  have maps: "dget (live_tasks ?l) t = (if t = tid then None else dget (live_tasks l) t)"
      "dget (done_tasks ?l) t = (if t = tid then Some rid else dget (done_tasks l) t)" for t
    by (simp_all add: end_task_def Some dget_dset dget_dpop)
  have task: "task_of ?l t = task_of l t" for t
    using Some by (simp add: task_of_def maps split: option.split)
  have rest: "ll_engine ?l = ?a" "v1_output_tasks ?l = v1_output_tasks l" "next_task ?l = next_task l"
    by (simp_all add: end_task_def Some)
  show ?thesis unfolding v1_inv_def task maps rest
  proof (intro conjI allI impI)
    fix x assume "dmem x (v1_requests ?a)"
    from forward_tables(2)[OF i(1) this] obtain t where "dget (live_tasks l) t = Some x" "x \<noteq> rid" using i(2) by blast
    thus "\<exists>t. (if t = tid then None else dget (live_tasks l) t) = Some x" using Some by (intro exI[of _ t]) auto
  qed (use i forward_tables(1)[OF i(1)] in \<open>auto split: if_splits\<close>)
qed

lemma task_callback_inv:
  assumes inv: "v1_inv l"
  shows "v1_inv (task_callback tid l)"
proof (cases "dget (done_tasks l) tid")
  case None
  thus ?thesis using inv by (simp add: task_callback_def)
next
  case (Some rid)
  let ?l = "task_callback tid l"
  note i = v1_invD[OF inv]
  have live: "dget (live_tasks l) tid = None" using i(3)[of tid] Some by (cases "dget (live_tasks l) tid") auto
  hence tid: "task_of l tid = Some rid" using Some by (simp add: task_of_def)
  have maps: "dget (done_tasks ?l) t = (if t = tid then None else dget (done_tasks l) t)"
      "dget (v1_output_tasks ?l) x = (if x = rid then None else dget (v1_output_tasks l) x)" for t x
    by (simp_all add: task_callback_def Some dget_dpop)
  have rest: "ll_engine ?l = ll_engine l" "live_tasks ?l = live_tasks l" "next_task ?l = next_task l"
    by (simp_all add: task_callback_def Some)
  have task: "task_of ?l t = (if t = tid then None else task_of l t)" for t
    using live by (simp add: task_of_def maps rest split: option.split)
  have other: "x \<noteq> rid" if "dget (live_tasks l) t = Some x" for t x
    using i(4)[OF task_of_live[OF that], of tid] tid that live by auto
  show ?thesis unfolding v1_inv_def task maps rest
  proof (intro conjI allI impI)
    fix t x assume "dget (live_tasks l) t = Some x"
    thus "(if x = rid then None else dget (v1_output_tasks l) x) = Some t" using i(6) other by simp
  next
    fix x t assume "(if x = rid then None else dget (v1_output_tasks l) x) = Some t"
    thus "(if t = tid then None else task_of l t) = Some x" using i(7)[of x t] tid by (auto split: if_splits)
  next
    fix t t' x assume "(if t = tid then None else task_of l t) = Some x" "(if t' = tid then None else task_of l t') = Some x"
    thus "t = t'" using i(4)[of t x t'] by (auto split: if_splits)
  next
    fix t assume "(if t = tid then None else task_of l t) \<noteq> None"
    thus "t < next_task l" using i(5)[of t] by (auto split: if_splits)
  qed (use i in \<open>auto split: if_splits\<close>)
qed

lemma cancel_task_inv:
  assumes inv: "v1_inv l"
  shows "v1_inv (cancel_task rid l)" and "dget (v1_output_tasks (cancel_task rid l)) rid = None"
proof -
  note i = v1_invD[OF inv]
  show "v1_inv (cancel_task rid l)"
  proof (cases "dget (v1_output_tasks l) rid")
    case None
    thus ?thesis using inv by (simp add: cancel_task_def)
  next
    case (Some tid)
    have tid: "task_of l tid = Some rid" using i(7)[OF Some] .
    show ?thesis
    proof (cases "dget (live_tasks l) tid")
      case None
      let ?l = "l\<lparr>v1_output_tasks := dpop rid (v1_output_tasks l)\<rparr>"
      have "cancel_task rid l = ?l" using None by (simp add: cancel_task_def Some dget_None_iff)
      moreover have "task_of ?l t = task_of l t" for t by (simp add: task_of_def split: option.split)
      moreover have "x \<noteq> rid" if "dget (live_tasks l) t = Some x" for t x
        using i(4)[OF task_of_live[OF that], of tid] tid that None by auto
      ultimately show ?thesis using i unfolding v1_inv_def by (simp add: dget_dpop)
    next
      case live: (Some x)
      hence "x = rid" using tid by (simp add: task_of_def)
      hence "cancel_task rid l = task_callback tid (end_task tid Stream_cancelled l)"
        using live map_of_SomeD[OF live] by (auto simp: cancel_task_def Some end_task_def task_callback_def dget_dset delete_idem rev_image_eqI)
      thus ?thesis by (simp add: task_callback_inv end_task_inv inv)
    qed
  qed
  show "dget (v1_output_tasks (cancel_task rid l)) rid = None"
    by (auto simp: cancel_task_def end_task_def task_callback_def dget_dpop dget_dset Let_def split: option.split)
qed

lemma add_request_tables:
  assumes ok: "v1_tables_ok a" and new: "\<not> dmem rid (v1_requests a)"
    and add: "v1_add_request engine_generate now rid si decode prefill p2p a = (res, a')"
  shows "v1_tables_ok a'" and "\<And>x. dmem x (v1_requests a') \<Longrightarrow> dmem x (v1_requests a) \<or> x = rid \<and> is_ok res"
proof -
  let ?b = "\<lambda>internal. a\<lparr>request_id_aliases := dset rid internal (request_id_aliases a),
     v1_requests := dset rid (Some si, now) (v1_requests a), v1_running := v1_running a @ [rid]\<rparr>"
  have cases: "a' = a \<or> (\<exists>internal. a' = v1_release_request rid (?b internal)) \<or> (\<exists>internal. is_ok res \<and> a' = ?b internal)"
  proof (cases "internal_request_id a rid decode prefill p2p")
    case (Inr internal)
    show ?thesis using add[unfolded v1_add_request_def Inr] by (cases "engine_generate internal") (auto simp: v1_start_def)
  qed (use add in \<open>simp add: v1_add_request_def\<close>)
  show "v1_tables_ok a'" using cases ok release_tables start_tables[OF ok new] by blast
  show "dmem x (v1_requests a) \<or> x = rid \<and> is_ok res" if x: "dmem x (v1_requests a')" for x
    using cases
  proof (elim disjE exE conjE)
    fix internal assume "a' = v1_release_request rid (?b internal)"
    thus ?thesis using x by (simp add: release_requests dkeys_dset) blast
  next
    fix internal assume "is_ok res" "a' = ?b internal"
    thus ?thesis using x by (simp add: dkeys_dset disj_commute)
  qed (use x in simp)
qed

lemma v1_step_preserves:
  assumes inv: "v1_inv l"
  shows "v1_inv (v1_step l e)"
proof (cases e)
  case (V1Generate rid si now decode prefill p2p fails)
  note i = v1_invD[OF inv]
  show ?thesis
  proof (cases "id_in_use rid l")
    case False
    have new: "\<not> dmem rid (v1_requests (ll_engine l))" using i(2)[of rid] False
      by (force simp: id_in_use_def dest: map_of_SomeD)
    obtain res a where add: "v1_add_request (\<lambda>_. fails) now rid si decode prefill p2p (ll_engine l) = (res, a)" by fastforce
    note ok = add_request_tables[OF i(1) new add]
    show ?thesis
    proof (cases res)
      case (Inl err)
      have "v1_inv (l\<lparr>ll_engine := a\<rparr>)" by (rule v1_inv_tables[OF inv ok(1)]) (use ok(2) Inl in simp)
      thus ?thesis using Inl add False by (simp add: V1Generate llumlet_generate_def)
    next
      case (Inr internal)
      have "v1_inv (create_task rid (l\<lparr>ll_engine := a\<rparr>))" by (rule create_task_inv[OF inv False ok(1)]) (use ok(2) in blast)
      thus ?thesis using Inr add False by (simp add: V1Generate llumlet_generate_def)
    qed
  qed (simp add: V1Generate inv)
next
  case (V1Register rid si now fails)
  note i = v1_invD[OF inv]
  show ?thesis
  proof (cases "id_in_use rid l")
    case False
    have new: "\<not> dmem rid (v1_requests (ll_engine l))" using i(2)[of rid] False
      by (force simp: id_in_use_def dest: map_of_SomeD)
    show ?thesis using create_task_inv[OF inv False start_tables[OF i(1) new]] inv False
      by (simp add: V1Register register_migrated_request_def v1_add_migrated_request_def dict_simps split: option.split)
  qed (simp add: V1Register inv)
next
  case (V1AbortMigrated rid fails)
  let ?l = "cancel_task rid l"
  have inv': "v1_inv ?l" by (rule cancel_task_inv[OF inv])
  have ok: "v1_tables_ok (v1_release_request rid (ll_engine ?l))" by (rule release_tables[OF v1_invD(1)[OF inv']])
  show ?thesis unfolding V1AbortMigrated v1_step.simps abort_migrated_request_def Let_def
    by (rule v1_inv_tables[OF inv' abort_tables(1)[OF ok]]) (use abort_tables(2)[OF ok] release_requests in blast)
next
  case (V1FinishMigratedOut rid)
  have "v1_inv (l\<lparr>ll_engine := v1_release_request rid (ll_engine l)\<rparr>)"
    by (rule v1_inv_tables[OF inv release_tables[OF v1_invD(1)[OF inv]]]) (simp add: release_requests)
  thus ?thesis by (simp add: V1FinishMigratedOut finish_migrated_out_def cancel_task_inv)
next
  case (V1Abort ids fails)
  note ok = v1_invD(1)[OF inv]
  show ?thesis unfolding V1Abort v1_step.simps by (rule v1_inv_tables[OF inv abort_tables(1)[OF ok]]) (rule abort_tables(2)[OF ok])
qed (simp_all add: end_task_inv task_callback_inv inv)

interpretation v1_machine: invariant_machine v1_step v1_inv
  by unfold_locales (rule v1_step_preserves)

lemma init_v1_inv: "v1_inv (init_V1Llumlet (init_V1EngineAdapter engine_args iid))"
  by (simp add: v1_inv_def v1_tables_ok_def task_of_def init_V1Llumlet_def init_V1EngineAdapter_def)

text \<open>
  C15: the bookkeeping of the V1 actor is well formed after every sequence of new requests, migrated
  requests, aborts, ended streams and callbacks. The running list, the request table and the
  alias table hold the same ids, once each; every such request has a running forwarding task; every
  running task is registered under its request, so that it can be cancelled; and no two tasks
  forward the same request.
\<close>

theorem v1_streams_well_formed:
  "v1_inv (foldl v1_step (init_V1Llumlet (init_V1EngineAdapter engine_args iid)) events)"
  by (rule v1_machine.run_preserves[OF init_v1_inv])

subsection \<open>A request enters and leaves the tables\<close>

lemma dpop_dset_new: "\<not> dmem k d \<Longrightarrow> dpop k (dset k v d) = d"
  by (simp add: dset_new AList.delete_eq filter_id_conv) force

lemma release_started:
  assumes "v1_tables_ok a" "\<not> dmem rid (v1_requests a)"
  shows "v1_release_request rid (a\<lparr>request_id_aliases := dset rid internal (request_id_aliases a),
     v1_requests := dset rid v (v1_requests a), v1_running := v1_running a @ [rid]\<rparr>) = a"
  using assms by (simp add: v1_release_request_def v1_tables_ok_def dpop_dset_new remove1_append)

text \<open>
  C16: a request that the engine does not take leaves the tables as they were. One that it takes
  is aborted under the id the engine knows it by, and when it has been aborted, or when its
  stream has closed, the tables are again exactly as before.
\<close>

theorem v1_request_round_trip:
  assumes "v1_tables_ok a" and "\<not> dmem rid (v1_requests a)"
    and "v1_add_request engine_generate now rid server_info decode_address prefill_address p2p_request_id a = (res, a')"
  shows "case res of Inl e \<Rightarrow> a' = a
    | Inr internal \<Rightarrow> v1_abort (\<lambda>_. None) (\<lambda>a. a) [rid] a' = (Inr [internal], a)
        \<and> v1_forward_outputs engine_abort meanwhile rid Stream_closed a' = a"
proof (cases "internal_request_id a rid decode_address prefill_address p2p_request_id")
  case (Inl e)
  show ?thesis using assms(3)[unfolded v1_add_request_def Inl] by auto
next
  case (Inr internal)
  note started = release_started[OF assms(1,2)]
  show ?thesis using assms(3)[unfolded v1_add_request_def Inr]
    by (cases "engine_generate internal")
      (auto simp: v1_start_def v1_abort_def v1_forward_outputs_def v1_resolve_def dget_default_def dget_dset started)
qed

definition example_v1_adapter :: V1EngineAdapter where
  "example_v1_adapter = (init_V1EngineAdapter \<lparr>kv_transfer_config = Some \<lparr>kv_connector = Some ''P2pNcclConnector'',
       kv_role = Some ''kv_producer'', kv_rank = Some 0, kv_parallel_size = 2, kv_ip = ''0.0.0.0'', kv_port = 80,
       kv_connector_extra_config = [], kv_connector_module_path = None\<rparr>,
     prefix_caching_hash_algo = None, enable_prefix_caching = None, kv_events_config = None\<rparr> ''i'')
     \<lparr>v1_requests := [(''q'', (None, 0))], request_id_aliases := [(''q'', ''q'')], v1_running := [''q'']\<rparr>"

theorem v1_request_round_trip_witness:
  "\<exists>a'. v1_add_request (\<lambda>_. None) 1 ''r'' 0 (Some ''10.0.0.2:14579'') None None example_v1_adapter
       = (Inr ''r___decode_addr_10.0.0.2:14579___'', a')
     \<and> v1_abort (\<lambda>_. None) (\<lambda>a. a) [''r''] a' = (Inr [''r___decode_addr_10.0.0.2:14579___''], example_v1_adapter)"
proof -
  have ok: "v1_tables_ok example_v1_adapter" "\<not> dmem ''r'' (v1_requests example_v1_adapter)"
    by (simp_all add: v1_tables_ok_def example_v1_adapter_def init_V1EngineAdapter_def)
  have "fst (v1_add_request (\<lambda>_. None) 1 ''r'' 0 (Some ''10.0.0.2:14579'') None None example_v1_adapter)
      = Inr ''r___decode_addr_10.0.0.2:14579___''" by code_simp
  then obtain a' where a': "v1_add_request (\<lambda>_. None) 1 ''r'' 0 (Some ''10.0.0.2:14579'') None None example_v1_adapter
      = (Inr ''r___decode_addr_10.0.0.2:14579___'', a')" by (metis prod.collapse)
  from v1_request_round_trip[OF ok a'] a' show ?thesis by auto
qed

text \<open>
  The endpoint an instance advertises is one its peers accept. Whenever the adapter
  publishes an endpoint and its port is a port number, the endpoint is valid and can be attached
  to any request id, on the producer's and on the consumer's side.
\<close>

theorem advertised_endpoint_accepted:
  assumes "get_kv_endpoint env resolved advertise_host a = Some ep" and "resolved \<noteq> Some []"
    and "kv_transfer_config (v1_engine_args a) = Some cfg" and "kv_port cfg < 65536"
  shows "valid_p2p_endpoint (Some ep) = Inr True \<and> is_ok (decorate_p2p_request_id rid (Some ep))
    \<and> is_ok (decorate_p2p_consumer_request_id rid (Some ep))"
proof -
  have port: "0 < kv_port cfg" using assms(1,3) by (auto simp: get_kv_endpoint_def Let_def split: if_splits)
  obtain h where h: "ep = h @ '':'' @ int_str (kv_port cfg)" "h \<noteq> []"
    using assms(1,2,3) by (auto simp: get_kv_endpoint_def Let_def split: if_splits option.splits)
  have "valid_p2p_endpoint (Some ep) = Inr True"
    using valid_endpoint[OF h(2), of "nat (kv_port cfg)"] port assms(4) by (simp add: h(1) int_str_def)
  thus ?thesis
    by (simp add: decorate_p2p_request_id_def decorate_p2p_consumer_request_id_def attach_endpoint_def)
qed

theorem advertised_endpoint_accepted_witness:
  "get_kv_endpoint [] (Some ''10.0.0.2'') None example_v1_adapter = Some ''10.0.0.2:80''
   \<and> is_ok (decorate_p2p_request_id ''r'' (Some ''10.0.0.2:80''))"
proof -
  have ep: "get_kv_endpoint [] (Some ''10.0.0.2'') None example_v1_adapter = Some ''10.0.0.2:80''" by code_simp
  have cfg: "kv_transfer_config (v1_engine_args example_v1_adapter) \<noteq> None"
    "kv_port (the (kv_transfer_config (v1_engine_args example_v1_adapter))) < 65536" by code_simp+
  from advertised_endpoint_accepted[OF ep, of "the (kv_transfer_config (v1_engine_args example_v1_adapter))" "''r''"] ep cfg
  show ?thesis by auto
qed

end
