(* ===== verification/Output_Path.thy ===== *)
theory Output_Path
  imports Backend_Vllm Launching
begin

text \<open>
  The way of a request output from the engine to the queue of its API server: grouping by server
  (\<open>backends/vllm/llm_engine.py\<close>), sending (\<open>backends/utils.py\<close>), and the queues
  (\<open>queue/zmq_server.py\<close>, \<open>queue/zmq_client.py\<close>, \<open>queue/zmq_utils.py\<close>). Sockets and pickling
  are left out: a call reaches the server and returns, or one of its messages is lost.
\<close>

record ServerInfo =
  server_id :: string
  request_output_queue_type :: QueueType
  request_output_queue_ip :: string
  request_output_queue_port :: int

subsection \<open>The queue server\<close>

datatype queue_error = Full | Empty | QueueFull | QueueEmpty | RPCTimeout | BadReply

type_synonym 'a qres = "queue_error + 'a"

record 'a ZmqServer =
  zq_maxsize :: int
  zq_queue :: "'a list"

definition init_ZmqServer :: "int \<Rightarrow> 'a ZmqServer" where
  "init_ZmqServer maxsize = \<lparr>zq_maxsize = maxsize, zq_queue = []\<rparr>"

definition qsize :: "'a ZmqServer \<Rightarrow> int" where
  "qsize q = int (length (zq_queue q))"

definition zq_empty :: "'a ZmqServer \<Rightarrow> bool" where
  "zq_empty q \<longleftrightarrow> zq_queue q = []"

text \<open>A queue without a positive bound is never full.\<close>

definition zq_full :: "'a ZmqServer \<Rightarrow> bool" where
  "zq_full q \<longleftrightarrow> zq_maxsize q > 0 \<and> qsize q \<ge> zq_maxsize q"

definition zq_put_nowait :: "'a \<Rightarrow> 'a ZmqServer \<Rightarrow> unit qres \<times> 'a ZmqServer" where
  "zq_put_nowait item q =
     (if zq_full q then (Inl QueueFull, q) else (Inr (), q\<lparr>zq_queue := zq_queue q @ [item]\<rparr>))"

fun put_each :: "'a list \<Rightarrow> 'a ZmqServer \<Rightarrow> unit qres \<times> 'a ZmqServer" where
  "put_each [] q = (Inr (), q)"
| "put_each (x # xs) q =
     (let (r, q) = zq_put_nowait x q in case r of Inl e \<Rightarrow> (Inl e, q) | Inr _ \<Rightarrow> put_each xs q)"

definition zq_put_nowait_batch :: "'a list \<Rightarrow> 'a ZmqServer \<Rightarrow> unit qres \<times> 'a ZmqServer" where
  "zq_put_nowait_batch items q =
     (if zq_maxsize q > 0 \<and> int (length items) + qsize q > zq_maxsize q then (Inl Full, q) else put_each items q)"

definition zq_get_nowait :: "'a ZmqServer \<Rightarrow> 'a qres \<times> 'a ZmqServer" where
  "zq_get_nowait q = (case zq_queue q of [] \<Rightarrow> (Inl QueueEmpty, q) | x # xs \<Rightarrow> (Inr x, q\<lparr>zq_queue := xs\<rparr>))"

fun get_each :: "nat \<Rightarrow> 'a ZmqServer \<Rightarrow> 'a list qres \<times> 'a ZmqServer" where
  "get_each 0 q = (Inr [], q)"
| "get_each (Suc n) q =
     (let (r, q) = zq_get_nowait q in
      case r of Inl e \<Rightarrow> (Inl e, q)
      | Inr x \<Rightarrow> (let (rs, q) = get_each n q in (map_sum id ((#) x) rs, q)))"

definition zq_get_nowait_batch :: "nat \<Rightarrow> 'a ZmqServer \<Rightarrow> 'a list qres \<times> 'a ZmqServer" where
  "zq_get_nowait_batch num_items q = (if int num_items > qsize q then (Inl Empty, q) else get_each num_items q)"

text \<open>
  \<open>put\<close> and \<open>get\<close> with a time-out: the argument tells whether the wait for room, or for an
  item, ran into it.
\<close>

definition zq_put :: "bool \<Rightarrow> 'a \<Rightarrow> 'a ZmqServer \<Rightarrow> unit qres \<times> 'a ZmqServer" where
  "zq_put timed_out item q = (if timed_out then (Inl Full, q) else (Inr (), q\<lparr>zq_queue := zq_queue q @ [item]\<rparr>))"

definition zq_get :: "bool \<Rightarrow> 'a ZmqServer \<Rightarrow> 'a qres \<times> 'a ZmqServer" where
  "zq_get timed_out q = (if timed_out then (Inl Empty, q) else zq_get_nowait q)"

subsection \<open>Remote calls\<close>

datatype 'a rpc_request = IS_SERVER_READY | RPCPutNoWait 'a | RPCPutNoWaitBatch "'a list"

datatype rpc_reply = RPC_SUCCESS | RPC_EXCEPTION queue_error | RPC_OTHER

text \<open>The handlers answer with success or with the exception of the queue.\<close>

definition reply_of :: "unit qres \<Rightarrow> rpc_reply" where
  "reply_of r = (case r of Inl e \<Rightarrow> RPC_EXCEPTION e | Inr _ \<Rightarrow> RPC_SUCCESS)"

fun zq_handle :: "'a rpc_request \<Rightarrow> 'a ZmqServer \<Rightarrow> rpc_reply \<times> 'a ZmqServer" where
  "zq_handle IS_SERVER_READY q = (RPC_SUCCESS, q)"
| "zq_handle (RPCPutNoWait item) q = (let (r, q) = zq_put_nowait item q in (reply_of r, q))"
| "zq_handle (RPCPutNoWaitBatch items) q = (let (r, q) = zq_put_nowait_batch items q in (reply_of r, q))"

text \<open>A lost request never reaches the server; a lost reply leaves its effect there.\<close>

datatype link = Link_ok | Request_lost | Reply_lost

definition send_one_way_rpc_request ::
  "link \<Rightarrow> 'a rpc_request \<Rightarrow> 'a ZmqServer \<Rightarrow> unit qres \<times> 'a ZmqServer" where
  "send_one_way_rpc_request lnk request q =
     (case lnk of
        Request_lost \<Rightarrow> (Inl RPCTimeout, q)
      | Reply_lost \<Rightarrow> (Inl RPCTimeout, snd (zq_handle request q))
      | Link_ok \<Rightarrow>
          let (reply, q) = zq_handle request q
          in (case reply of RPC_SUCCESS \<Rightarrow> Inr () | RPC_EXCEPTION e \<Rightarrow> Inl e | RPC_OTHER \<Rightarrow> Inl BadReply, q))"

definition client_put_nowait :: "link \<Rightarrow> 'a \<Rightarrow> 'a ZmqServer \<Rightarrow> unit qres \<times> 'a ZmqServer" where
  "client_put_nowait lnk item q = send_one_way_rpc_request lnk (RPCPutNoWait item) q"

definition client_put_nowait_batch :: "link \<Rightarrow> 'a list \<Rightarrow> 'a ZmqServer \<Rightarrow> unit qres \<times> 'a ZmqServer" where
  "client_put_nowait_batch lnk items q = send_one_way_rpc_request lnk (RPCPutNoWaitBatch items) q"

text \<open>
  \<open>wait_for_server_rpc\<close>: probes, each with its outcome and the time after it, until one
  succeeds, one fails otherwise than by a time-out, or the deadline has passed. \<open>None\<close> means
  that it still waits.
\<close>

fun wait_for_server_rpc :: "rat \<Rightarrow> (unit qres \<times> rat) list \<Rightarrow> unit qres option" where
  "wait_for_server_rpc deadline [] = None"
| "wait_for_server_rpc deadline ((r, now) # probes) =
     (if r = Inl RPCTimeout \<and> now < deadline then wait_for_server_rpc deadline probes else Some r)"

subsection \<open>From the engine to the servers\<close>

type_synonym address = "string \<times> int"

type_synonym network = "address \<Rightarrow> RequestOutput list ZmqServer"

abbreviation server_address :: "ServerInfo \<Rightarrow> address" where
  "server_address v \<equiv> (request_output_queue_ip v, request_output_queue_port v)"

type_synonym grouped = "(string, RequestOutput list) dict \<times> (string, ServerInfo) dict"

definition group_output :: "grouped \<Rightarrow> RequestOutput \<times> ServerInfo \<Rightarrow> grouped" where
  "group_output g p = (case (g, p) of ((outs, infos), (out, v)) \<Rightarrow>
     (dset (server_id v) (dget_default outs (server_id v) [] @ [out]) outs,
      if dmem (server_id v) infos then infos else dset (server_id v) v infos))"

definition put_request_outputs_to_server :: "RequestOutput list \<Rightarrow> ServerInfo list \<Rightarrow> grouped" where
  "put_request_outputs_to_server outputs infos = foldl group_output ([], []) (zip outputs infos)"

text \<open>
  The puts to the servers of one batch. A server that cannot be reached has its requests
  aborted; the result lists them, server by server.
\<close>

fun put_to_servers ::
  "(string \<Rightarrow> link) \<Rightarrow> (string, ServerInfo) dict \<Rightarrow> (string \<times> RequestOutput list) list \<Rightarrow> network \<Rightarrow> string list list res \<times> network" where
  "put_to_servers links infos [] net = (Inr [], net)"
| "put_to_servers links infos ((sid, outs) # groups) net =
     (case dget infos sid of
        None \<Rightarrow> (Inl KeyError, net)
      | Some v \<Rightarrow>
          let (r, q) = client_put_nowait (links sid) outs (net (server_address v));
              (rest, net) = put_to_servers links infos groups (net(server_address v := q))
          in (map_sum id (\<lambda>aborted. (case r of Inl _ \<Rightarrow> [map ro_request_id outs] | Inr _ \<Rightarrow> []) @ aborted) rest, net))"

definition put_nowait_to_servers :: "(string \<Rightarrow> link) \<Rightarrow> grouped \<Rightarrow> network \<Rightarrow> string list list res \<times> network" where
  "put_nowait_to_servers links g net = put_to_servers links (snd g) (fst g) net"

text \<open>One turn of the engine's output thread; the engine keeps handles of server infos.\<close>

definition put_queue_turn ::
  "(nat \<Rightarrow> ServerInfo) \<Rightarrow> (string \<Rightarrow> link) \<Rightarrow> RequestOutput list \<times> nat list \<Rightarrow> network \<Rightarrow> string list list res \<times> network" where
  "put_queue_turn info links args net =
     put_nowait_to_servers links (put_request_outputs_to_server (fst args) (map info (snd args))) net"

definition put_queue_loop ::
  "(nat \<Rightarrow> ServerInfo) \<Rightarrow> (string \<Rightarrow> link) \<Rightarrow> (RequestOutput list \<times> nat list) list \<Rightarrow> network \<Rightarrow> network" where
  "put_queue_loop info links batches net = fold (\<lambda>args net. snd (put_queue_turn info links args net)) batches net"

subsection \<open>Queues are first in, first out\<close>

lemma put_each_spec:
  "zq_maxsize q \<le> 0 \<or> int (length xs) + qsize q \<le> zq_maxsize q
   \<Longrightarrow> put_each xs q = (Inr (), q\<lparr>zq_queue := zq_queue q @ xs\<rparr>)"
proof (induction xs arbitrary: q)
  case (Cons x xs)
  have "zq_put_nowait x q = (Inr (), q\<lparr>zq_queue := zq_queue q @ [x]\<rparr>)"
    using Cons.prems by (auto simp: zq_put_nowait_def zq_full_def qsize_def)
  thus ?case using Cons.IH[of "q\<lparr>zq_queue := zq_queue q @ [x]\<rparr>"] Cons.prems by (auto simp: qsize_def)
qed simp

lemma get_each_spec:
  "n \<le> length (zq_queue q) \<Longrightarrow> get_each n q = (Inr (take n (zq_queue q)), q\<lparr>zq_queue := drop n (zq_queue q)\<rparr>)"
proof (induction n arbitrary: q)
  case (Suc n)
  then obtain x xs where xs: "zq_queue q = x # xs" by (cases "zq_queue q") auto
  thus ?case using Suc.IH[of "q\<lparr>zq_queue := xs\<rparr>"] Suc.prems by (simp add: zq_get_nowait_def)
qed simp

definition queue_bounded :: "'a ZmqServer \<Rightarrow> bool" where
  "queue_bounded q \<longleftrightarrow> (zq_maxsize q > 0 \<longrightarrow> qsize q \<le> zq_maxsize q)"

text \<open>
  The batch operations of the queue. A batch is put completely and in order or not at all, the
  latter exactly when it does not fit; a batch is taken from the front, in order, or nothing
  is taken, the latter exactly when there are too few items; neither makes a queue exceed its
  bound, and taking what was put returns it.
\<close>

theorem queue_batches_atomic:
  assumes "queue_bounded q" and "zq_put_nowait_batch items q = (r, q')" and "zq_get_nowait_batch n q' = (s, q'')"
  shows "(r = Inl Full \<and> q' = q \<and> zq_maxsize q > 0 \<and> int (length items) + qsize q > zq_maxsize q
      \<or> r = Inr () \<and> q' = q\<lparr>zq_queue := zq_queue q @ items\<rparr>)
    \<and> (s = Inl Empty \<and> q'' = q' \<and> n > length (zq_queue q')
      \<or> s = Inr (take n (zq_queue q')) \<and> q'' = q'\<lparr>zq_queue := drop n (zq_queue q')\<rparr>)
    \<and> queue_bounded q' \<and> queue_bounded q''
    \<and> (zq_queue q = [] \<longrightarrow> r = Inr () \<longrightarrow> n = length items \<longrightarrow> s = Inr items)"
proof -
  have put: "r = Inl Full \<and> q' = q \<and> zq_maxsize q > 0 \<and> int (length items) + qsize q > zq_maxsize q
      \<or> r = Inr () \<and> q' = q\<lparr>zq_queue := zq_queue q @ items\<rparr> \<and> (zq_maxsize q > 0 \<longrightarrow> int (length items) + qsize q \<le> zq_maxsize q)"
    using assms(2) put_each_spec[of q items] by (auto simp: zq_put_nowait_batch_def split: if_splits)
  have get: "s = Inl Empty \<and> q'' = q' \<and> n > length (zq_queue q')
      \<or> s = Inr (take n (zq_queue q')) \<and> q'' = q'\<lparr>zq_queue := drop n (zq_queue q')\<rparr>"
    using assms(3) get_each_spec[of n q'] by (auto simp: zq_get_nowait_batch_def qsize_def split: if_splits)
  have b': "queue_bounded q'" using put assms(1) by (auto simp: queue_bounded_def qsize_def)
  hence "queue_bounded q''" using get by (auto simp: queue_bounded_def qsize_def)
  thus ?thesis using put get b' by auto
qed

theorem queue_batches_atomic_witness:
  "zq_put_nowait_batch [1, 2] (init_ZmqServer 3) = (Inr (), (init_ZmqServer 3)\<lparr>zq_queue := [1, 2 :: nat]\<rparr>)
   \<and> fst (zq_get_nowait_batch 2 ((init_ZmqServer 3)\<lparr>zq_queue := [1, 2 :: nat]\<rparr>)) = Inr [1, 2]
   \<and> queue_bounded ((init_ZmqServer 3)\<lparr>zq_queue := [1, 2 :: nat]\<rparr>)"
proof -
  let ?q = "(init_ZmqServer 3)\<lparr>zq_queue := [1, 2 :: nat]\<rparr>"
  have "queue_bounded (init_ZmqServer 3 :: nat ZmqServer)" by (simp add: queue_bounded_def init_ZmqServer_def qsize_def)
  moreover have put: "zq_put_nowait_batch [1, 2] (init_ZmqServer 3) = (Inr (), ?q)"
    by (simp add: zq_put_nowait_batch_def zq_put_nowait_def zq_full_def qsize_def init_ZmqServer_def)
  ultimately show ?thesis
    using queue_batches_atomic[of "init_ZmqServer 3" "[1, 2]" "Inr ()" ?q 2 "fst (zq_get_nowait_batch 2 ?q)" "snd (zq_get_nowait_batch 2 ?q)"]
    by (auto simp: init_ZmqServer_def)
qed

subsection \<open>Every output reaches the queue of its server\<close>

definition outputs_for :: "string \<Rightarrow> (RequestOutput \<times> ServerInfo) list \<Rightarrow> RequestOutput list" where
  "outputs_for sid zs = map fst (filter (\<lambda>(_, v). server_id v = sid) zs)"

lemma outputs_for_simps [simp]:
  "outputs_for sid [] = []" "outputs_for sid (xs @ ys) = outputs_for sid xs @ outputs_for sid ys"
  "outputs_for sid [(out, v)] = (if server_id v = sid then [out] else [])"
  by (auto simp: outputs_for_def)

text \<open>The groups of a batch: one for every server with an output, in order, with its address.\<close>

definition groups_of :: "(string \<Rightarrow> address) \<Rightarrow> (RequestOutput \<times> ServerInfo) list \<Rightarrow> grouped \<Rightarrow> bool" where
  "groups_of A zs g \<longleftrightarrow> distinct (dkeys (fst g))
     \<and> (\<forall>sid. dget (fst g) sid = (if outputs_for sid zs = [] then None else Some (outputs_for sid zs)))
     \<and> (\<forall>sid. outputs_for sid zs \<noteq> [] \<longrightarrow> (\<exists>v. dget (snd g) sid = Some v \<and> server_address v = A sid))"

lemma group_output_step:
  assumes "groups_of A zs g" "server_address v = A (server_id v)"
    and only: "\<forall>sid. dmem sid (snd g) \<longrightarrow> outputs_for sid zs \<noteq> []"
  shows "groups_of A (zs @ [(out, v)]) (group_output g (out, v))"
    and "\<forall>sid. dmem sid (snd (group_output g (out, v))) \<longrightarrow> outputs_for sid (zs @ [(out, v)]) \<noteq> []"
proof -
  obtain outs infos where g: "g = (outs, infos)" by fastforce
  have old: "dget_default outs (server_id v) [] = outputs_for (server_id v) zs"
    using assms(1) by (simp add: groups_of_def g dget_default_def)
  have step: "group_output g (out, v) = (dset (server_id v) (outputs_for (server_id v) zs @ [out]) outs,
      if dmem (server_id v) infos then infos else dset (server_id v) v infos)"
    by (simp add: group_output_def g old)
  have known: "dmem (server_id v) infos \<Longrightarrow> \<exists>v'. dget infos (server_id v) = Some v' \<and> server_address v' = A (server_id v)"
    using only assms(1) by (simp add: groups_of_def g)
  show "groups_of A (zs @ [(out, v)]) (group_output g (out, v))"
    using assms(1,2) known unfolding groups_of_def step
    by (auto simp: g dget_dset distinct_dset)
  show "\<forall>sid. dmem sid (snd (group_output g (out, v))) \<longrightarrow> outputs_for sid (zs @ [(out, v)]) \<noteq> []"
    using only unfolding step by (auto simp: g dkeys_dset)
qed

lemma grouping:
  assumes "\<forall>(_, v) \<in> set zs. server_address v = A (server_id v)"
  shows "groups_of A zs (foldl group_output ([], []) zs)
    \<and> (\<forall>sid. dmem sid (snd (foldl group_output ([], []) zs)) \<longrightarrow> outputs_for sid zs \<noteq> [])"
  using assms
proof (induction zs rule: rev_induct)
  case Nil
  show ?case by (simp add: groups_of_def)
next
  case (snoc z zs)
  obtain out v where z: "z = (out, v)" by fastforce
  have v: "server_address v = A (server_id v)" and ih: "groups_of A zs (foldl group_output ([], []) zs)"
      "\<forall>sid. dmem sid (snd (foldl group_output ([], []) zs)) \<longrightarrow> outputs_for sid zs \<noteq> []"
    using snoc by (simp_all add: z)
  show ?case unfolding z foldl_append foldl.simps using group_output_step[OF ih(1) v ih(2), of out] by blast
qed

lemma client_put_ok:
  assumes "zq_maxsize q \<le> 0"
  shows "client_put_nowait Link_ok item q = (Inr (), q\<lparr>zq_queue := zq_queue q @ [item]\<rparr>)"
  using assms by (simp add: client_put_nowait_def send_one_way_rpc_request_def zq_put_nowait_def zq_full_def reply_of_def)

lemma put_to_servers_ok:
  assumes A: "inj A" and unbounded: "\<forall>a. zq_maxsize (net a) \<le> 0" and "distinct (dkeys groups)"
    and "\<forall>sid. dmem sid groups \<longrightarrow> (\<exists>v. dget infos sid = Some v \<and> server_address v = A sid)"
  shows "\<exists>net'. put_to_servers (\<lambda>_. Link_ok) infos groups net = (Inr [], net') \<and> (\<forall>a. zq_maxsize (net' a) \<le> 0)
    \<and> (\<forall>sid. zq_queue (net' (A sid)) = zq_queue (net (A sid)) @ (case dget groups sid of None \<Rightarrow> [] | Some outs \<Rightarrow> [outs]))"
  using assms(2-4)
proof (induction groups arbitrary: net)
  case (Cons g groups)
  obtain sid outs where g: "g = (sid, outs)" by fastforce
  obtain v where v: "dget infos sid = Some v" "server_address v = A sid" using Cons.prems(3) g by auto
  define net1 where "net1 = net(A sid := (net (A sid))\<lparr>zq_queue := zq_queue (net (A sid)) @ [outs]\<rparr>)"
  have new: "dget groups sid = None" using Cons.prems(2) g by (auto simp: map_of_eq_None_iff)
  have eq: "A s = A sid \<longleftrightarrow> s = sid" for s using A by (auto dest: injD)
  have "\<forall>a. zq_maxsize (net1 a) \<le> 0" using Cons.prems(1) by (simp add: net1_def del: split_paired_All)
  from Cons.IH[OF this] Cons.prems(2,3) obtain net' where net':
      "put_to_servers (\<lambda>_. Link_ok) infos groups net1 = (Inr [], net')" "\<forall>a. zq_maxsize (net' a) \<le> 0"
      "\<forall>s. zq_queue (net' (A s)) = zq_queue (net1 (A s)) @ (case dget groups s of None \<Rightarrow> [] | Some outs \<Rightarrow> [outs])"
    by (auto simp: g simp del: split_paired_All)
  have "put_to_servers (\<lambda>_. Link_ok) infos (g # groups) net = (Inr [], net')"
    using net'(1) by (simp add: g v client_put_ok[OF spec[OF Cons.prems(1)]] net1_def)
  moreover have "zq_queue (net' (A s)) = zq_queue (net (A s)) @ (case dget (g # groups) s of None \<Rightarrow> [] | Some outs \<Rightarrow> [outs])" for s
    using net'(3) new eq[of s] by (cases "s = sid") (simp_all add: g net1_def)
  ultimately show ?case using net'(2) by blast
qed simp

lemma put_queue_turn_ok:
  assumes A: "inj A" and unbounded: "\<forall>a. zq_maxsize (net a) \<le> 0"
    and addr: "\<forall>h. server_address (info h) = A (server_id (info h))"
  shows "\<exists>net'. put_queue_turn info (\<lambda>_. Link_ok) args net = (Inr [], net') \<and> (\<forall>a. zq_maxsize (net' a) \<le> 0)
    \<and> (\<forall>sid. concat (zq_queue (net' (A sid))) = concat (zq_queue (net (A sid)))
         @ outputs_for sid (zip (fst args) (map info (snd args))))"
proof -
  let ?zs = "zip (fst args) (map info (snd args))" and ?g = "put_request_outputs_to_server (fst args) (map info (snd args))"
  have "\<forall>(_, v) \<in> set ?zs. server_address v = A (server_id v)" using addr by (auto dest!: set_zip_rightD)
  from grouping[OF this] have g: "groups_of A ?zs ?g" by (simp add: put_request_outputs_to_server_def)
  have keys: "distinct (dkeys (fst ?g))" using g by (simp add: groups_of_def)
  have "\<exists>v. dget (snd ?g) sid = Some v \<and> server_address v = A sid" if "dmem sid (fst ?g)" for sid
  proof -
    have "dget (fst ?g) sid \<noteq> None" using that by (simp add: dget_None_iff)
    thus ?thesis using g unfolding groups_of_def by (metis (no_types, lifting))
  qed
  with put_to_servers_ok[OF A unbounded keys, of "snd ?g"] obtain net' where net':
      "put_to_servers (\<lambda>_. Link_ok) (snd ?g) (fst ?g) net = (Inr [], net')" "\<forall>a. zq_maxsize (net' a) \<le> 0"
      "\<forall>sid. zq_queue (net' (A sid)) = zq_queue (net (A sid)) @ (case dget (fst ?g) sid of None \<Rightarrow> [] | Some outs \<Rightarrow> [outs])"
    by blast
  have "concat (case dget (fst ?g) sid of None \<Rightarrow> [] | Some outs \<Rightarrow> [outs]) = outputs_for sid ?zs" for sid
    using g by (simp add: groups_of_def)
  with net' show ?thesis by (simp add: put_queue_turn_def put_nowait_to_servers_def del: split_paired_All)
qed

text \<open>
  With queues without bound, as the servers create them, and calls that reach their server, the
  queue of every server holds the outputs meant for it, once each and in order.
\<close>

lemma outputs_queued_in_order:
  assumes "inj A" and "\<forall>a. zq_maxsize (net a) \<le> 0"
    and "\<forall>h. server_address (info h) = A (server_id (info h))"
  shows "concat (zq_queue (put_queue_loop info (\<lambda>_. Link_ok) batches net (A sid)))
    = concat (zq_queue (net (A sid)))
      @ outputs_for sid (concat (map (\<lambda>args. zip (fst args) (map info (snd args))) batches))"
  using assms(2)
proof (induction batches arbitrary: net)
  case Nil
  show ?case by (simp add: put_queue_loop_def)
next
  case (Cons args batches)
  obtain net' where net': "snd (put_queue_turn info (\<lambda>_. Link_ok) args net) = net'" "\<forall>a. zq_maxsize (net' a) \<le> 0"
      "\<forall>sid. concat (zq_queue (net' (A sid))) = concat (zq_queue (net (A sid)))
         @ outputs_for sid (zip (fst args) (map info (snd args)))"
    using put_queue_turn_ok[OF assms(1) Cons.prems assms(3), of args] by (metis snd_conv)
  show ?case using Cons.IH[OF net'(2)] net'(1,3) by (simp add: put_queue_loop_def)
qed

end
