(* ===== verification/Api_Client.thy ===== *)
theory Api_Client
  imports Output_Path
begin

text \<open>
  The client inside an API server (\<open>entrypoints/vllm/client.py\<close>): request streams, the dispatch
  through the manager or, while that is down, to an instance directly, aborts, and the loop that
  hands outputs to the streams. Streams are objects, so they live in a store indexed by
  addresses. A call of \<open>generate\<close> may start over several times: the outcomes of its attempts are
  a list, with what other tasks do during each wait.
\<close>

subsection \<open>Streams\<close>

text \<open>The queue of a stream; \<open>None\<close> marks its end.\<close>

record AsyncStream =
  st_queue :: "RequestOutput option list"
  st_finished :: bool

definition new_AsyncStream :: AsyncStream where
  "new_AsyncStream = \<lparr>st_queue = [], st_finished = False\<rparr>"

definition stream_put :: "RequestOutput \<Rightarrow> AsyncStream \<Rightarrow> AsyncStream" where
  "stream_put item s = (if st_finished s then s else s\<lparr>st_queue := st_queue s @ [Some item]\<rparr>)"

definition stream_finish :: "AsyncStream \<Rightarrow> AsyncStream" where
  "stream_finish s = (if st_finished s then s else s\<lparr>st_finished := True, st_queue := st_queue s @ [None]\<rparr>)"

text \<open>What the generator yields, and whether it then returns.\<close>

fun stream_items :: "RequestOutput option list \<Rightarrow> RequestOutput list \<times> bool" where
  "stream_items [] = ([], False)"
| "stream_items (None # q) = ([], True)"
| "stream_items (Some x # q) = (let (xs, ended) = stream_items q in (x # xs, ended))"

subsection \<open>The client\<close>

record Client =
  cl_instances :: "string list"
  request_streams :: "(string, nat) dict"
  stream_objs :: "nat \<Rightarrow> AsyncStream"
  next_stream :: nat
  instance_num_requests :: "(string, int) dict"
  fallback_request_instance :: "(string, string) dict"
  manager_available :: bool

definition init_Client :: "string list \<Rightarrow> Client" where
  "init_Client instances = \<lparr>cl_instances = instances, request_streams = [], stream_objs = (\<lambda>_. new_AsyncStream), next_stream = 0,
     instance_num_requests = foldl (\<lambda>d i. dset i 0 d) [] instances, fallback_request_instance = [], manager_available = True\<rparr>"

definition open_stream :: "string \<Rightarrow> Client \<Rightarrow> Client" where
  "open_stream rid c = c\<lparr>stream_objs := (stream_objs c)(next_stream c := new_AsyncStream),
     request_streams := dset rid (next_stream c) (request_streams c), next_stream := next_stream c + 1\<rparr>"

record attempt =
  manager_reply :: "py_error option"
  until_manager :: "Client \<Rightarrow> Client"
  instance_reply :: "py_error option"
  until_instance :: "Client \<Rightarrow> Client"

text \<open>The instance with the fewest requests dispatched by this client.\<close>

definition least_loaded :: "Client \<Rightarrow> string res" where
  "least_loaded c = py_min_by (\<lambda>i. dget_default (instance_num_requests c) i 0) (dkeys (instance_num_requests c))"

definition count_dispatch :: "string \<Rightarrow> string \<Rightarrow> Client \<Rightarrow> Client" where
  "count_dispatch rid i c = c\<lparr>
     instance_num_requests := dset i (dget_default (instance_num_requests c) i 0 + 1) (instance_num_requests c),
     fallback_request_instance := dset rid i (fallback_request_instance c)\<rparr>"

definition forget_instance :: "string \<Rightarrow> Client \<Rightarrow> Client" where
  "forget_instance i c = c\<lparr>cl_instances := remove1 i (cl_instances c), instance_num_requests := dpop i (instance_num_requests c)\<rparr>"

text \<open>
  \<open>generate\<close> with \<open>_generate_by_manager\<close> and \<open>_generate_by_instance\<close>. The result is the address of
  the stream returned, \<open>None\<close> while the call waits. The first failure of the manager is only
  noted; later ones go to an instance, and a dead instance, or none, starts the call over. Without
  an instance the handler refers to a variable that is not bound.
\<close>

fun client_generate :: "attempt list \<Rightarrow> nat \<Rightarrow> string \<Rightarrow> Client \<Rightarrow> nat res option \<times> Client" where
  "client_generate [] n rid c = (if n > 1 then (Some (Inl ValueError), c) else (None, open_stream rid c))"
| "client_generate (a # as) n rid c =
     (if n > 1 then (Some (Inl ValueError), c)
      else let addr = next_stream c; c = until_manager a (open_stream rid c) in
        case manager_reply a of
          None \<Rightarrow> (Some (Inr addr), c\<lparr>manager_available := True\<rparr>)
        | Some e \<Rightarrow>
            if e \<noteq> RayActorError then (Some (Inl e), c)
            else if manager_available c then (Some (Inr addr), c\<lparr>manager_available := False\<rparr>)
            else case least_loaded c of
              Inl _ \<Rightarrow>
                (let (r, c) = client_generate as n rid c in
                 (case r of None \<Rightarrow> None
                  | Some (Inl e) \<Rightarrow> Some (Inl (if e \<in> {RayActorError, KeyError} then UnboundLocalError else e))
                  | Some (Inr _) \<Rightarrow> Some (Inr addr), c))
            | Inr i \<Rightarrow>
                let c = count_dispatch rid i c in
                if i \<notin> set (cl_instances c) then (Some (Inr addr), c)
                else let c = until_instance a c in
                  case instance_reply a of
                    None \<Rightarrow> (Some (Inr addr), c)
                  | Some e \<Rightarrow>
                      if e \<notin> {RayActorError, KeyError} then (Some (Inl e), c)
                      else if i \<notin> set (cl_instances c) then (Some (Inr addr), c)
                      else let (r, c) = client_generate as n rid (forget_instance i c)
                           in (map_option (map_sum id (\<lambda>_. addr)) r, c))"

definition uncount :: "string option \<Rightarrow> Client \<Rightarrow> Client" where
  "uncount i c = (case i of
     None \<Rightarrow> c
   | Some i \<Rightarrow> (case dget (instance_num_requests c) i of
       None \<Rightarrow> c
     | Some n \<Rightarrow> c\<lparr>instance_num_requests := dset i (max 0 (n - 1)) (instance_num_requests c)\<rparr>))"

text \<open>An abort goes to the manager or, when that is down, to the instance the client chose.\<close>

definition client_abort :: "py_error option \<Rightarrow> py_error option \<Rightarrow> string \<Rightarrow> Client \<Rightarrow> unit res \<times> Client" where
  "client_abort from_manager from_instance rid c =
     (case from_manager of
        None \<Rightarrow> (Inr (), c)
      | Some e \<Rightarrow>
          if e \<noteq> RayActorError then (Inl e, c)
          else let i = dget (fallback_request_instance c) rid;
                   c = c\<lparr>fallback_request_instance := dpop rid (fallback_request_instance c)\<rparr>
               in case i of
                    None \<Rightarrow> (Inr (), c)
                  | Some x \<Rightarrow>
                      if x \<notin> set (cl_instances c) then (Inr (), c)
                      else (case from_instance of
                              None \<Rightarrow> Inr ()
                            | Some e \<Rightarrow> if e \<in> {RayActorError, KeyError} then Inr () else Inl e, uncount i c))"

text \<open>One output of the queue; outputs without a stream are dropped.\<close>

definition process_output :: "RequestOutput \<Rightarrow> Client \<Rightarrow> Client" where
  "process_output out c =
     (let rid = ro_request_id out in
      case dget (request_streams c) rid of
        None \<Rightarrow> c
      | Some addr \<Rightarrow>
          let c = c\<lparr>stream_objs := (stream_objs c)(addr := stream_put out (stream_objs c addr))\<rparr> in
          if \<not> ro_finished out then c
          else uncount (dget (fallback_request_instance c) rid)
            (c\<lparr>stream_objs := (stream_objs c)(addr := stream_finish (stream_objs c addr)),
               request_streams := dpop rid (request_streams c),
               fallback_request_instance := dpop rid (fallback_request_instance c)\<rparr>))"

definition get_request_outputs_loop :: "RequestOutput list list \<Rightarrow> Client \<Rightarrow> Client" where
  "get_request_outputs_loop items c = fold (fold process_output) items c"

subsection \<open>What a stream receives\<close>

fun upto_finished :: "RequestOutput list \<Rightarrow> RequestOutput list" where
  "upto_finished [] = []"
| "upto_finished (x # xs) = x # (if ro_finished x then [] else upto_finished xs)"

text \<open>No two requests share a stream.\<close>

definition streams_inj :: "Client \<Rightarrow> bool" where
  "streams_inj c \<longleftrightarrow> (\<forall>x y addr. dget (request_streams c) x = Some addr \<longrightarrow> dget (request_streams c) y = Some addr \<longrightarrow> x = y)"

lemma uncount_frame [simp]:
  "request_streams (uncount i c) = request_streams c" "stream_objs (uncount i c) = stream_objs c"
  by (simp_all add: uncount_def split: option.split)

lemma process_output_frame:
  "dget (request_streams (process_output out c)) x = (if x = ro_request_id out \<and> ro_finished out then None else dget (request_streams c) x)"
  "dget (request_streams c) (ro_request_id out) \<noteq> Some addr \<Longrightarrow> stream_objs (process_output out c) addr = stream_objs c addr"
  by (auto simp: process_output_def Let_def dget_dpop split: option.split)

lemma process_output_streams_inj: "streams_inj c \<Longrightarrow> streams_inj (process_output out c)"
  unfolding streams_inj_def process_output_frame(1) by (auto split: if_splits)

text \<open>A stream that is not registered is never written again.\<close>

lemma unregistered_untouched:
  "\<forall>x. dget (request_streams c) x \<noteq> Some addr \<Longrightarrow> stream_objs (fold process_output outs c) addr = stream_objs c addr"
proof (induction outs arbitrary: c)
  case (Cons out outs)
  have "\<forall>x. dget (request_streams (process_output out c)) x \<noteq> Some addr"
    using Cons.prems by (simp add: process_output_frame(1))
  thus ?case using Cons.IH process_output_frame(2)[of c out addr] Cons.prems by simp
qed simp

lemma stream_contents:
  assumes "dget (request_streams c) rid = Some addr" "streams_inj c" "\<not> st_finished (stream_objs c addr)"
  shows "st_queue (stream_objs (fold process_output outs c) addr)
    = st_queue (stream_objs c addr) @ map Some (upto_finished (filter (\<lambda>x. ro_request_id x = rid) outs))
      @ (if \<exists>x \<in> set outs. ro_request_id x = rid \<and> ro_finished x then [None] else [])"
  using assms
proof (induction outs arbitrary: c)
  case (Cons out outs)
  let ?c = "process_output out c"
  have inj: "streams_inj ?c" using Cons.prems(2) by (rule process_output_streams_inj)
  show ?case
  proof (cases "ro_request_id out = rid")
    case False
    hence same: "stream_objs ?c addr = stream_objs c addr"
      using process_output_frame(2)[of c out addr] Cons.prems(1,2) by (auto simp: streams_inj_def)
    show ?thesis using Cons.IH[of ?c] Cons.prems False inj by (simp add: same process_output_frame(1))
  next
    case True
    have obj: "st_queue (stream_objs ?c addr) = st_queue (stream_objs c addr) @ [Some out] @ (if ro_finished out then [None] else [])"
        "st_finished (stream_objs ?c addr) = ro_finished out"
      using True Cons.prems by (simp_all add: process_output_def stream_put_def stream_finish_def Let_def)
    show ?thesis
    proof (cases "ro_finished out")
      case True
      have "\<forall>x. dget (request_streams ?c) x \<noteq> Some addr"
        using Cons.prems(1,2) True \<open>ro_request_id out = rid\<close> by (auto simp: process_output_frame(1) streams_inj_def)
      from unregistered_untouched[OF this, of outs] show ?thesis
        using True \<open>ro_request_id out = rid\<close> by (simp add: obj)
    next
      case False
      thus ?thesis using Cons.IH[of ?c] Cons.prems inj obj \<open>ro_request_id out = rid\<close>
        by (simp add: process_output_frame(1))
    qed
  qed
qed simp

lemma fold_concat: "fold (fold f) xss = fold f (concat xss)"
  by (induction xss) simp_all

lemma stream_items_append:
  "stream_items (map Some xs @ q) = (let (ys, ended) = stream_items q in (xs @ ys, ended))"
  by (induction xs) (auto split: prod.split)


definition example_info :: "nat \<Rightarrow> ServerInfo" where
  "example_info h = \<lparr>server_id = (if h = 0 then ''s'' else ''t''), request_output_queue_type = ZMQ,
     request_output_queue_ip = (if h = 0 then ''s'' else ''t''), request_output_queue_port = 0\<rparr>"

definition example_batches :: "(RequestOutput list \<times> nat list) list" where
  "example_batches =
     [([\<lparr>ro_request_id = ''a'', ro_finished = False, ro_tokens = [1]\<rparr>, \<lparr>ro_request_id = ''b'', ro_finished = True, ro_tokens = [2]\<rparr>], [0, 1]),
      ([\<lparr>ro_request_id = ''c'', ro_finished = False, ro_tokens = [3]\<rparr>, \<lparr>ro_request_id = ''a'', ro_finished = True, ro_tokens = [4]\<rparr>], [0, 0])]"


subsection \<open>A call that starts over\<close>


subsection \<open>The counters of the fallback dispatch\<close>

text \<open>
  The segments between two waits of the operations above, for any requests and in any order; a
  request is dispatched again only after its instance was forgotten.
\<close>

datatype client_event =
    OpenStream string
  | FallbackDispatch string
  | InstanceDied string
  | OutputArrives RequestOutput
  | FallbackAbort string "py_error option"

definition dispatched_live :: "string \<Rightarrow> Client \<Rightarrow> bool" where
  "dispatched_live rid c = (case dget (fallback_request_instance c) rid of
     None \<Rightarrow> False | Some i \<Rightarrow> dmem i (instance_num_requests c))"

fun client_step :: "Client \<Rightarrow> client_event \<Rightarrow> Client" where
  "client_step c (OpenStream rid) = open_stream rid c"
| "client_step c (FallbackDispatch rid) =
     (if dispatched_live rid c then c
      else case least_loaded c of Inl _ \<Rightarrow> c | Inr i \<Rightarrow> count_dispatch rid i c)"
| "client_step c (InstanceDied i) = (if i \<in> set (cl_instances c) then forget_instance i c else c)"
| "client_step c (OutputArrives out) = process_output out c"
| "client_step c (FallbackAbort rid reply) = snd (client_abort (Some RayActorError) reply rid c)"

definition requests_on :: "string \<Rightarrow> (string, string) dict \<Rightarrow> nat" where
  "requests_on i d = length (filter (\<lambda>(_, x). x = i) d)"

definition counters_ok :: "Client \<Rightarrow> bool" where
  "counters_ok c \<longleftrightarrow> distinct (dkeys (fallback_request_instance c)) \<and> set (dkeys (instance_num_requests c)) \<subseteq> set (cl_instances c)
     \<and> (\<forall>i n. dget (instance_num_requests c) i = Some n \<longrightarrow> n = int (requests_on i (fallback_request_instance c)))"

lemma requests_on_dpop:
  "distinct (dkeys d) \<Longrightarrow> requests_on i d = requests_on i (dpop k d) + (if dget d k = Some i then 1 else 0)"
proof (induction d)
  case (Cons p d)
  obtain k' v where p: "p = (k', v)" by fastforce
  show ?case
  proof (cases "k' = k")
    case True
    have "k \<notin> set (dkeys d)" using Cons.prems True by (simp add: p)
    hence "dpop k d = d" by (induction d) (auto simp: dpop_Cons)
    thus ?thesis using True by (simp add: p dpop_Cons requests_on_def)
  next
    case False
    have "requests_on i d = requests_on i (dpop k d) + (if dget d k = Some i then 1 else 0)" using Cons by simp
    thus ?thesis using False by (simp add: p dpop_Cons requests_on_def)
  qed
qed (simp add: requests_on_def)

lemma requests_on_dset:
  "distinct (dkeys d) \<Longrightarrow> requests_on i (dset k v d) = requests_on i (dpop k d) + (if v = i then 1 else 0)"
  using requests_on_dpop[of "dset k v d" i k] by (simp add: distinct_dset dget_dset delete_update_same)

lemma uncount_ok:
  assumes "counters_ok c" and "i = dget (fallback_request_instance c) rid"
    and "f = c\<lparr>fallback_request_instance := dpop rid (fallback_request_instance c)\<rparr>"
  shows "counters_ok (uncount i f)"
proof -
  have d: "distinct (dkeys (fallback_request_instance c))" using assms(1) by (simp add: counters_ok_def)
  note cnt = requests_on_dpop[OF d, of _ rid]
  show ?thesis
  proof (cases i)
    case None
    thus ?thesis using assms cnt by (auto simp: uncount_def counters_ok_def distinct_dpop)
  next
    case (Some x)
    note ok = assms(1)[unfolded counters_ok_def]
    have num: "n = int (requests_on j (fallback_request_instance c))" if "dget (instance_num_requests c) j = Some n" for j n
      using ok that by blast
    have cnt': "requests_on j (fallback_request_instance c) = requests_on j (dpop rid (fallback_request_instance c)) + (if j = x then 1 else 0)" for j
      using cnt[of j] assms(2) Some by (auto split: if_splits)
    show ?thesis
    proof (cases "dget (instance_num_requests c) x")
      case None
      have "n = int (requests_on j (dpop rid (fallback_request_instance c)))" if "dget (instance_num_requests c) j = Some n" for j n
        using num[OF that] that cnt'[of j] None by (cases "j = x") simp_all
      thus ?thesis using None ok Some by (simp add: uncount_def counters_ok_def assms(3) distinct_dpop)
    next
      case n: (Some n)
      have eq: "uncount i f = f\<lparr>instance_num_requests := dset x (max 0 (n - 1)) (instance_num_requests c)\<rparr>"
        by (simp add: uncount_def Some n assms(3))
      have "n = int (requests_on x (fallback_request_instance c))" using num[OF n] .
      hence "max 0 (n - 1) = int (requests_on x (dpop rid (fallback_request_instance c)))" using cnt'[of x] by simp
      moreover have "m = int (requests_on j (dpop rid (fallback_request_instance c)))"
        if "dget (instance_num_requests c) j = Some m" "j \<noteq> x" for j m
        using num[OF that(1)] that(2) cnt'[of j] by simp
      moreover have "x \<in> set (cl_instances c)" using ok map_of_SomeD[OF n] by force
      ultimately show ?thesis using ok unfolding eq counters_ok_def
        by (simp add: assms(3) distinct_dpop dget_dset dkeys_dset)
    qed
  qed
qed

lemma counters_frame:
  assumes "counters_ok c" "fallback_request_instance c' = fallback_request_instance c"
    "instance_num_requests c' = instance_num_requests c" "cl_instances c' = cl_instances c"
  shows "counters_ok c'"
  using assms by (simp add: counters_ok_def)

lemma client_step_preserves:
  assumes ok: "counters_ok c"
  shows "counters_ok (client_step c e)"
proof (cases e)
  case (OpenStream rid)
  show ?thesis by (rule counters_frame[OF ok]) (simp_all add: OpenStream open_stream_def)
next
  case (InstanceDied i)
  have "dget (dpop i (instance_num_requests c)) j = Some n \<Longrightarrow> dget (instance_num_requests c) j = Some n" for j n
    by (simp add: dget_dpop split: if_splits)
  moreover have "set (dkeys (instance_num_requests c)) - {i} \<subseteq> set (remove1 i (cl_instances c))"
  proof
    fix x assume "x \<in> set (dkeys (instance_num_requests c)) - {i}"
    hence "x \<in> set (cl_instances c)" "x \<noteq> i" using ok unfolding counters_ok_def by blast+
    thus "x \<in> set (remove1 i (cl_instances c))" by (simp add: in_set_remove1)
  qed
  ultimately show ?thesis using ok unfolding counters_ok_def by (simp add: InstanceDied forget_instance_def dkeys_dpop)
next
  case (FallbackAbort rid reply)
  let ?f = "c\<lparr>fallback_request_instance := dpop rid (fallback_request_instance c)\<rparr>"
  have "counters_ok (uncount (dget (fallback_request_instance c) rid) ?f)" by (rule uncount_ok[OF ok refl refl])
  moreover have "counters_ok ?f" if "\<And>i. dget (fallback_request_instance c) rid = Some i \<Longrightarrow> i \<notin> set (cl_instances c)"
    using calculation that ok by (auto simp: uncount_def counters_ok_def split: option.splits dest!: map_of_SomeD)
  ultimately show ?thesis by (auto simp: FallbackAbort client_abort_def Let_def split: option.split)
next
  case (FallbackDispatch rid)
  note d = ok[unfolded counters_ok_def]
  show ?thesis
  proof (cases "dispatched_live rid c \<or> \<not> is_ok (least_loaded c)")
    case True
    thus ?thesis using ok by (auto simp: FallbackDispatch is_ok_def split: sum.splits)
  next
    case False
    then obtain i where i: "least_loaded c = Inr i" by (auto simp: is_ok_def split: sum.splits)
    hence mem: "dmem i (instance_num_requests c)" by (auto simp: least_loaded_def dest: py_min_by_in)
    then obtain m where m: "dget (instance_num_requests c) i = Some m" by (metis dget_None_iff not_None_eq)
    have old: "requests_on j (dpop rid (fallback_request_instance c)) = requests_on j (fallback_request_instance c)"
      if "dmem j (instance_num_requests c)" for j
    proof -
      have "dget (fallback_request_instance c) rid \<noteq> Some j" using False that unfolding dispatched_live_def by (cases "dget (fallback_request_instance c) rid") (simp, metis option.case(2) option.inject)
      thus ?thesis using requests_on_dpop[of "fallback_request_instance c" j rid] d by simp
    qed
    have "n = int (requests_on j (dset rid i (fallback_request_instance c)))"
      if "dget (dset i (m + 1) (instance_num_requests c)) j = Some n" for j n
    proof -
      have "dmem j (instance_num_requests c)" using that mem by (cases "j = i") (simp, metis dget_None_iff dget_dset option.simps(3))
      from old[OF this] show ?thesis using that d m requests_on_dset[of "fallback_request_instance c" j rid i]
        by (auto simp: dget_dset split: if_splits)
    qed
    moreover have "i \<in> set (cl_instances c)" using d mem by (metis list.set_map subsetD)
    ultimately show ?thesis using False i d m
      by (simp add: FallbackDispatch count_dispatch_def counters_ok_def dget_default_def distinct_dset dkeys_dset)
  qed
next
  case (OutputArrives out)
  show ?thesis
  proof (cases "dget (request_streams c) (ro_request_id out)")
    case None
    thus ?thesis using ok by (simp add: OutputArrives process_output_def)
  next
    case (Some addr)
    let ?c = "c\<lparr>stream_objs := (stream_objs c)(addr := stream_finish (stream_put out (stream_objs c addr))),
      request_streams := dpop (ro_request_id out) (request_streams c)\<rparr>"
    have "counters_ok ?c" by (rule counters_frame[OF ok]) simp_all
    from uncount_ok[OF this refl refl, of "ro_request_id out"]
    have "counters_ok (process_output out c)" if "ro_finished out" using that Some by (simp add: process_output_def Let_def)
    moreover have "counters_ok (process_output out c)" if "\<not> ro_finished out"
      by (rule counters_frame[OF ok]) (use that Some in \<open>simp_all add: process_output_def Let_def\<close>)
    ultimately show ?thesis by (auto simp: OutputArrives)
  qed
qed

interpretation client_machine: invariant_machine client_step counters_ok
  by unfold_locales (rule client_step_preserves)

lemma init_counters:
  assumes "set (dkeys d) \<subseteq> set xs" "\<forall>i n. dget d i = Some n \<longrightarrow> n = 0" "set ys \<subseteq> set xs"
  shows "set (dkeys (foldl (\<lambda>d i. dset i (0 :: int) d) d ys)) \<subseteq> set xs
    \<and> (\<forall>i n. dget (foldl (\<lambda>d i. dset i 0 d) d ys) i = Some n \<longrightarrow> n = 0)"
  using assms
proof (induction ys arbitrary: d)
  case (Cons y ys)
  show ?case unfolding foldl_Cons
    by (rule Cons.IH) (use Cons.prems in \<open>auto simp: dkeys_dset dget_dset split: if_splits\<close>)
qed simp


end
