(* ===== verification/Spec2Isabelle.thy ===== *)
theory Spec2Isabelle
  imports Manager_Handover V1_Migration Command_Line Llumlet_Actor V1_Engine Api_Client
begin

text \<open>
  Verification library of Llumnix, the cross-instance request scheduler.
\<close>

end
